(* ===== verification/Eno_Prelude.thy ===== *)
theory Eno_Prelude
  imports Main "HOL-Library.AList" "HOL-Library.Multiset" "HOL-Library.List_Lexorder"
    "HOL-Library.Char_ord"
begin

text \<open>
  What every component shares: instants and durations, the Kubernetes object metadata, Go maps,
  the values a client call or a handler returns, and the contract of Go's \<open>sort.Slice\<close>.

  \<^item> An instant is an \<open>int\<close>: nanoseconds since Go's zero time, so \<open>metav1.Time{}\<close> is 0 and a nil
    \<open>*metav1.Time\<close> is \<open>None\<close>. \<open>time.Since t\<close> is \<open>now - t\<close>, with one clock reading per handler call.
  \<^item> A Go map is an association list in some iteration order, \<open>None\<close> for the nil map; reading a
    missing key gives the zero value.
  \<^item> A client call answers with a sum, \<open>Inl\<close> the API error; a handler answers with the requests it
    sent, in order, and either an \<open>error\<close> (a panic included) or a \<open>ctrl_Result\<close>.
\<close>

named_theorems eno_inv \<open>preservation of the composition invariant\<close>

type_synonym time = int
type_synonym duration = int
type_synonym strmap = "(string \<times> string) list option"

definition millisecond :: duration where
  "millisecond = 1000000"

definition second :: duration where
  "second = 1000 * millisecond"

definition gomap_get :: "strmap \<Rightarrow> string \<Rightarrow> string" where
  "gomap_get m k = (case m of None \<Rightarrow> [] | Some al \<Rightarrow> (case map_of al k of None \<Rightarrow> [] | Some v \<Rightarrow> v))"

definition time_before :: "time option \<Rightarrow> time option \<Rightarrow> bool" where
  "time_before t u = (case (t, u) of (Some a, Some b) \<Rightarrow> a < b | _ \<Rightarrow> False)"

definition deref_time :: "time option \<Rightarrow> time" where
  "deref_time t = (case t of None \<Rightarrow> 0 | Some x \<Rightarrow> x)"

record NamespacedName =
  nn_Namespace :: string
  nn_Name :: string

record OwnerReference =
  or_Kind :: string
  or_Name :: string
  or_UID :: string
  or_Controller :: bool

record ObjectMeta =
  Name :: string
  Namespace :: string
  GenerateName :: string
  UID :: string
  ResourceVersion :: string
  Generation :: int
  CreationTimestamp :: time
  DeletionTimestamp :: "time option"
  Labels :: strmap
  Annotations :: strmap
  Finalizers :: "string list"
  OwnerReferences :: "OwnerReference list"

definition key_of :: "('a :: type) ObjectMeta_scheme \<Rightarrow> NamespacedName" where
  "key_of o' = \<lparr>nn_Namespace = Namespace o', nn_Name = Name o'\<rparr>"

definition GetControllerOf :: "'a ObjectMeta_scheme \<Rightarrow> OwnerReference option" where
  "GetControllerOf o' = find or_Controller (OwnerReferences o')"

subsection \<open>Errors and handler results\<close>

datatype api_err =
  NotFound | Conflict | NamespaceTerminating | ServerTimeout | OtherErr string

datatype error =
  Wrap string api_err | Plain string | Terminal string | NilDeref | IndexOutOfRange

fun IgnoreNotFound :: "error \<Rightarrow> error option" where
  "IgnoreNotFound (Wrap ctx NotFound) = None"
| "IgnoreNotFound e = Some e"

record ctrl_Result =
  Requeue :: bool
  RequeueAfter :: duration

abbreviation done_result :: ctrl_Result where
  "done_result \<equiv> \<lparr>Requeue = False, RequeueAfter = 0\<rparr>"

abbreviation requeue_result :: ctrl_Result where
  "requeue_result \<equiv> \<lparr>Requeue = True, RequeueAfter = 0\<rparr>"

definition requeue_after :: "duration \<Rightarrow> ctrl_Result" where
  "requeue_after d = \<lparr>Requeue = False, RequeueAfter = d\<rparr>"

type_synonym 'w handler_out = "'w list \<times> (error + ctrl_Result)"

definition ignore_not_found :: "error \<Rightarrow> error + ctrl_Result" where
  "ignore_not_found e = (case IgnoreNotFound e of None \<Rightarrow> Inr done_result | Some e' \<Rightarrow> Inl e')"

subsection \<open>Finalizers\<close>

definition cleanup_finalizer :: string where
  "cleanup_finalizer = ''eno.azure.io/cleanup''"

definition ContainsFinalizer :: "'a ObjectMeta_scheme \<Rightarrow> string \<Rightarrow> bool" where
  "ContainsFinalizer o' f = (f \<in> set (Finalizers o'))"

definition AddFinalizer :: "'a ObjectMeta_scheme \<Rightarrow> string \<Rightarrow> 'a ObjectMeta_scheme \<times> bool" where
  "AddFinalizer o' f =
     (if f \<in> set (Finalizers o') then (o', False)
      else (o'\<lparr>Finalizers := Finalizers o' @ [f]\<rparr>, True))"

definition RemoveFinalizer :: "'a ObjectMeta_scheme \<Rightarrow> string \<Rightarrow> 'a ObjectMeta_scheme \<times> bool" where
  "RemoveFinalizer o' f =
     (if f \<in> set (Finalizers o') then (o'\<lparr>Finalizers := removeAll f (Finalizers o')\<rparr>, True)
      else (o', False))"

subsection \<open>Go's sort.Slice\<close>

text \<open>
  \<open>sort.Slice\<close> promises a permutation in which no element is less than an earlier one, and nothing
  about elements that compare equal. Definitions that sort take the sorting function as an
  argument; lemmas use the contract below. \<open>insertion_sort\<close> is the routine Go runs on slices of at
  most twelve elements: each element moves left while it is less than its neighbour.
\<close>

fun bubble :: "('a \<Rightarrow> 'a \<Rightarrow> bool) \<Rightarrow> 'a \<Rightarrow> 'a list \<Rightarrow> 'a list" where
  "bubble lt x [] = [x]"
| "bubble lt x (y # ys) = (if lt x y then y # bubble lt x ys else x # y # ys)"

definition insertion_sort :: "('a \<Rightarrow> 'a \<Rightarrow> bool) \<Rightarrow> 'a list \<Rightarrow> 'a list" where
  "insertion_sort lt xs = rev (fold (bubble lt) xs [])"

locale go_sort =
  fixes lt :: "'a \<Rightarrow> 'a \<Rightarrow> bool" and srt :: "'a list \<Rightarrow> 'a list"
  assumes mset_srt: "mset (srt xs) = mset xs"
    and sorted_srt: "sorted_wrt (\<lambda>x y. \<not> lt y x) (srt xs)"
begin

lemma set_srt: "set (srt xs) = set xs"
  by (metis mset_srt set_mset_mset)

lemma length_srt: "length (srt xs) = length xs"
  by (metis mset_srt size_mset)

lemma srt_head_minimal:
  assumes "srt xs = y # ys" and "x \<in> set xs"
  shows "\<not> lt x y \<or> x = y"
  using assms sorted_srt [of xs] set_srt [of xs] by auto

end

lemma mset_bubble: "mset (bubble lt x ys) = add_mset x (mset ys)"
  by (induction ys) auto

lemma mset_fold_bubble: "mset (fold (bubble lt) xs acc) = mset xs + mset acc"
  by (induction xs arbitrary: acc) (auto simp: mset_bubble)

lemma set_bubble: "set (bubble lt x ys) = insert x (set ys)"
  by (metis mset_bubble set_mset_add_mset_insert set_mset_mset)

lemma sorted_bubble:
  assumes asym: "\<And>a b. lt a b \<Longrightarrow> \<not> lt b a"
    and trans: "\<And>a b c. \<not> lt b a \<Longrightarrow> \<not> lt c b \<Longrightarrow> \<not> lt c a"
    and "sorted_wrt (\<lambda>a b. \<not> lt a b) ys"
  shows "sorted_wrt (\<lambda>a b. \<not> lt a b) (bubble lt x ys)"
  using assms(3)
proof (induction ys)
  case Nil
  then show ?case by simp
next
  case (Cons y ys)
  show ?case
  proof (cases "lt x y")
    case True
    with Cons asym show ?thesis by (auto simp: set_bubble)
  next
    case False
    with Cons.prems trans show ?thesis by auto
  qed
qed

lemma go_sort_insertion_sort:
  assumes asym: "\<And>a b. lt a b \<Longrightarrow> \<not> lt b a"
    and trans: "\<And>a b c. \<not> lt b a \<Longrightarrow> \<not> lt c b \<Longrightarrow> \<not> lt c a"
  shows "go_sort lt (insertion_sort lt)"
proof
  fix xs
  show "mset (insertion_sort lt xs) = mset xs"
    by (simp add: insertion_sort_def mset_fold_bubble)
  have "sorted_wrt (\<lambda>a b. \<not> lt a b) (fold (bubble lt) xs acc)"
    if "sorted_wrt (\<lambda>a b. \<not> lt a b) acc" for acc
    using that
    by (induction xs arbitrary: acc) (simp_all add: sorted_bubble [OF asym trans])
  then show "sorted_wrt (\<lambda>x y. \<not> lt y x) (insertion_sort lt xs)"
    by (simp add: insertion_sort_def sorted_wrt_rev)
qed

lemma go_sort_by_key:
  fixes key :: "'a \<Rightarrow> 'b :: linorder"
  shows "go_sort (\<lambda>a b. key a < key b) (insertion_sort (\<lambda>a b. key a < key b))"
  by (rule go_sort_insertion_sort) auto

text \<open>
  Sorting by a key: when the keys are distinct the outcome is unique, whatever the algorithm does
  with ties.
\<close>

locale go_key_sort = go_sort "\<lambda>a b. key a < key b" srt
  for key :: "'a \<Rightarrow> 'b :: linorder" and srt :: "'a list \<Rightarrow> 'a list"
begin

lemma key_srt_basics: "set (srt xs) = set xs" "length (srt xs) = length xs" "mset (srt xs) = mset xs"
  by (rule set_srt length_srt mset_srt)+

lemma sorted_keys: "sorted (map key (srt xs))"
  using sorted_srt [of xs] by (simp add: sorted_wrt_map not_less)

lemma srt_eq_sort_key: "distinct (map key xs) \<Longrightarrow> srt xs = sort_key key xs"
  using sort_key_inj_key_eq [of xs "srt xs" key] mset_srt [of xs] sorted_keys
  by (simp add: distinct_map)

lemma srt_cong_mset:
  assumes "mset xs = mset ys" and "distinct (map key xs)"
  shows "srt xs = srt ys"
proof -
  have "distinct (map key ys)"
    using assms by (metis mset_eq_imp_distinct_iff mset_map)
  with assms show ?thesis
    by (metis properties_for_sort_key sort_key_inj_key_eq distinct_map sorted_keys mset_srt)
qed

end

lemma go_key_sort_insertion_sort:
  fixes key :: "'a \<Rightarrow> 'b :: linorder"
  shows "go_key_sort key (insertion_sort (\<lambda>a b. key a < key b))"
  using go_sort_by_key [of key] by (simp add: go_key_sort_def)

subsection \<open>Generic lemmas\<close>

lemma gomap_get_nil [simp]: "gomap_get None k = []"
  by (simp add: gomap_get_def)

lemma gomap_get_update [simp]:
  "gomap_get (Some (AList.update k v al)) k' = (if k = k' then v else gomap_get (Some al) k')"
  by (simp add: gomap_get_def update_conv')

lemma time_before_simps [simp]:
  "\<not> time_before None t" "\<not> time_before t None" "time_before (Some a) (Some b) = (a < b)"
  by (auto simp: time_before_def split: option.splits)

lemma deref_time_simps [simp]: "deref_time None = 0" "deref_time (Some t) = t"
  by (auto simp: deref_time_def)

lemma find_Some_P: "find P xs = Some x \<Longrightarrow> x \<in> set xs \<and> P x"
  by (metis find_Some_iff nth_mem)

lemma find_None_P: "find P xs = None \<longleftrightarrow> (\<forall>x \<in> set xs. \<not> P x)"
  by (auto simp: find_None_iff)

end
