(* ===== verification/Api_Types.thy ===== *)
theory Api_Types
  imports Eno_Prelude
begin

text \<open>
  The custom resources of \<open>api/v1\<close>: compositions with their syntheses, synthesizers, resource
  slices and symphonies, as records with the source's fields (prefixed where two structs share a
  field name), and the methods of \<open>composition.go\<close>. Kubernetes metadata is inherited by record
  extension, as the Go structs embed it.
\<close>

section \<open>Inputs\<close>

record ResourceBinding =
  rb_Name :: string
  rb_Namespace :: string

record Binding =
  b_Key :: string
  b_Resource :: ResourceBinding

record ResourceRef =
  rr_Group :: string
  rr_Version :: string
  rr_Kind :: string

record Ref =
  ref_Key :: string
  ref_Resource :: ResourceRef
  ref_Defer :: bool

record EnvVar =
  ev_Name :: string
  ev_Value :: string

section \<open>Synthesizers\<close>

record PodOverrides =
  po_Labels :: strmap
  po_Annotations :: strmap
  po_Resources :: string

record SynthesizerSpec =
  Image :: string
  Command :: "string list"
  ExecTimeout :: "duration option"
  PodTimeout :: "duration option"
  ReconcileInterval :: "duration option"
  Refs :: "Ref list"
  SPodOverrides :: PodOverrides

record Synthesizer = ObjectMeta +
  synth_Spec :: SynthesizerSpec

definition zero_Synthesizer :: Synthesizer where
  "zero_Synthesizer =
     \<lparr>Name = [], Namespace = [], GenerateName = [], UID = [], ResourceVersion = [],
      Generation = 0, CreationTimestamp = 0, DeletionTimestamp = None, Labels = None,
      Annotations = None, Finalizers = [], OwnerReferences = [],
      synth_Spec = \<lparr>Image = [], Command = [], ExecTimeout = None, PodTimeout = None,
        ReconcileInterval = None, Refs = [],
        SPodOverrides = \<lparr>po_Labels = None, po_Annotations = None, po_Resources = []\<rparr>\<rparr>\<rparr>"

section \<open>Compositions\<close>

record Result =
  Message :: string
  Severity :: string
  Tags :: strmap

record InputRevisions =
  ir_Key :: string
  ir_ResourceVersion :: string
  ir_Revision :: "int option"
  ir_SynthesizerGeneration :: "int option"

record Synthesis =
  UUID :: string
  ObservedCompositionGeneration :: int
  ObservedSynthesizerGeneration :: int
  Initialized :: "time option"
  PodCreation :: "time option"
  Synthesized :: "time option"
  Reconciled :: "time option"
  Ready :: "time option"
  Attempts :: int
  ResourceSlices :: "string list"
  Results :: "Result list"
  syn_InputRevisions :: "InputRevisions list"
  Deferred :: bool

definition zero_Synthesis :: Synthesis where
  "zero_Synthesis =
     \<lparr>UUID = [], ObservedCompositionGeneration = 0, ObservedSynthesizerGeneration = 0,
      Initialized = None, PodCreation = None, Synthesized = None, Reconciled = None,
      Ready = None, Attempts = 0, ResourceSlices = [], Results = [],
      syn_InputRevisions = [], Deferred = False\<rparr>"

record SimplifiedStatus =
  ss_Status :: string
  ss_Error :: string

record CompositionStatus =
  Simplified :: "SimplifiedStatus option"
  CurrentSynthesis :: "Synthesis option"
  PreviousSynthesis :: "Synthesis option"
  PendingResynthesis :: "time option"
  InputRevs :: "InputRevisions list"

record CompositionSpec =
  SynthesizerName :: string
  Bindings :: "Binding list"
  SynthesisEnv :: "EnvVar list"

record Composition = ObjectMeta +
  comp_Spec :: CompositionSpec
  comp_Status :: CompositionStatus

abbreviation current :: "Composition \<Rightarrow> Synthesis option" where
  "current c \<equiv> CurrentSynthesis (comp_Status c)"

abbreviation previous :: "Composition \<Rightarrow> Synthesis option" where
  "previous c \<equiv> PreviousSynthesis (comp_Status c)"

abbreviation set_status :: "(CompositionStatus \<Rightarrow> CompositionStatus) \<Rightarrow> Composition \<Rightarrow> Composition" where
  "set_status f c \<equiv> c\<lparr>comp_Status := f (comp_Status c)\<rparr>"

abbreviation map_current :: "(Synthesis \<Rightarrow> Synthesis) \<Rightarrow> Composition \<Rightarrow> Composition" where
  "map_current f c \<equiv> set_status (\<lambda>s. s\<lparr>CurrentSynthesis := map_option f (CurrentSynthesis s)\<rparr>) c"

definition InputRevisions_Equal :: "InputRevisions \<Rightarrow> InputRevisions \<Rightarrow> bool" where
  "InputRevisions_Equal i b =
     (if ir_Key i \<noteq> ir_Key b then False
      else if (ir_Revision i = None) \<noteq> (ir_Revision b = None) then False
      else if ir_Revision i \<noteq> None then ir_Revision i = ir_Revision b
      else ir_ResourceVersion i = ir_ResourceVersion b)"

definition Failed :: "Synthesis \<Rightarrow> bool" where
  "Failed s = list_ex (\<lambda>r. Severity r = ''error'') (Results s)"

definition InputsExist :: "Composition \<Rightarrow> Synthesizer \<Rightarrow> bool" where
  "InputsExist c syn =
     (let refs = ref_Key ` set (Refs (synth_Spec syn)) in
      list_all (\<lambda>binding.
        b_Key binding \<notin> refs \<or>
        list_ex (\<lambda>rv. b_Key binding = ir_Key rv) (InputRevs (comp_Status c)))
        (Bindings (comp_Spec c)))"

text \<open>
  The first loop of \<open>InputsOutOfLockstep\<close>: \<open>None\<close> when it returns true early, else the maximum
  revision seen (\<open>Some None\<close> when no input declares one).
\<close>

fun max_revision :: "int \<Rightarrow> int option \<Rightarrow> InputRevisions list \<Rightarrow> int option option" where
  "max_revision gen maxRevision [] = Some maxRevision"
| "max_revision gen maxRevision (rv # revs) =
     (if (case ir_SynthesizerGeneration rv of None \<Rightarrow> False | Some g \<Rightarrow> g < gen) then None
      else (case ir_Revision rv of
              None \<Rightarrow> max_revision gen maxRevision revs
            | Some r \<Rightarrow>
                (case maxRevision of
                   None \<Rightarrow> max_revision gen (Some r) revs
                 | Some m \<Rightarrow>
                     if r > m then max_revision gen (Some r) revs
                     else max_revision gen maxRevision revs)))"

definition InputsOutOfLockstep :: "Composition \<Rightarrow> Synthesizer \<Rightarrow> bool" where
  "InputsOutOfLockstep c synth =
     (case max_revision (Generation synth) None (InputRevs (comp_Status c)) of
        None \<Rightarrow> True
      | Some None \<Rightarrow> False
      | Some (Some m) \<Rightarrow>
          list_ex (\<lambda>rv. case ir_Revision rv of None \<Rightarrow> False | Some r \<Rightarrow> m \<noteq> r)
            (InputRevs (comp_Status c)))"

definition GetCurrentSynthesisUUID :: "CompositionStatus \<Rightarrow> string" where
  "GetCurrentSynthesisUUID s = (case CurrentSynthesis s of None \<Rightarrow> [] | Some syn \<Rightarrow> UUID syn)"

definition ShouldIgnoreSideEffects :: "Composition \<Rightarrow> bool" where
  "ShouldIgnoreSideEffects c =
     (gomap_get (Annotations c) ''eno.azure.io/ignore-side-effects'' = ''true'')"

section \<open>Resource slices\<close>

record Manifest =
  manifest :: string
  m_Deleted :: bool

record ResourceState =
  rs_Reconciled :: bool
  rs_Ready :: "time option"
  rs_Deleted :: bool

definition zero_ResourceState :: ResourceState where
  "zero_ResourceState = \<lparr>rs_Reconciled = False, rs_Ready = None, rs_Deleted = False\<rparr>"

record ResourceSliceSpec =
  CompositionGeneration :: int
  SynthesisUUID :: string
  Attempt :: int
  Resources :: "Manifest list"

record ResourceSlice = ObjectMeta +
  slice_Spec :: ResourceSliceSpec
  slice_Status :: "ResourceState list option"

abbreviation slice_states :: "ResourceSlice \<Rightarrow> ResourceState list" where
  "slice_states s \<equiv> (case slice_Status s of None \<Rightarrow> [] | Some xs \<Rightarrow> xs)"

section \<open>Symphonies\<close>

record Variation =
  v_Labels :: strmap
  v_Annotations :: strmap
  v_Synthesizer :: string
  v_Bindings :: "Binding list"

record SymphonySpec =
  Variations :: "Variation list"
  symph_Bindings :: "Binding list"
  symph_SynthesisEnv :: "EnvVar list"

record SymphonyStatus =
  ObservedGeneration :: int
  symph_Synthesized :: "time option"
  symph_Reconciled :: "time option"
  symph_Ready :: "time option"
  Synthesizers :: "string list"

record Symphony = ObjectMeta +
  symph_Spec :: SymphonySpec
  symph_Status :: SymphonyStatus

definition deletion_strategy_orphan :: "'a ObjectMeta_scheme \<Rightarrow> bool" where
  "deletion_strategy_orphan c =
     (gomap_get (Annotations c) ''eno.azure.io/deletion-strategy'' = ''orphan'')"

definition stale_generation :: "int \<Rightarrow> InputRevisions \<Rightarrow> bool" where
  "stale_generation gen rv =
     (case ir_SynthesizerGeneration rv of None \<Rightarrow> False | Some g \<Rightarrow> g < gen)"

section \<open>Lemmas\<close>

lemma InputRevisions_Equal_refl [simp]: "InputRevisions_Equal r r"
  by (simp add: InputRevisions_Equal_def)

lemma InputRevisions_Equal_sym: "InputRevisions_Equal a b \<longleftrightarrow> InputRevisions_Equal b a"
  by (auto simp: InputRevisions_Equal_def)

lemma InputRevisions_Equal_trans:
  "InputRevisions_Equal a b \<Longrightarrow> InputRevisions_Equal b c \<Longrightarrow> InputRevisions_Equal a c"
  by (auto simp: InputRevisions_Equal_def split: if_splits)

lemma InputRevisions_Equal_key: "InputRevisions_Equal a b \<Longrightarrow> ir_Key a = ir_Key b"
  by (auto simp: InputRevisions_Equal_def split: if_splits)

lemma max_revision_None_iff:
  "max_revision gen m revs = None \<longleftrightarrow> list_ex (stale_generation gen) revs"
  by (induction gen m revs rule: max_revision.induct)
    (auto simp: stale_generation_def split: option.splits)

lemma max_revision_Some:
  "max_revision gen m revs = Some r \<Longrightarrow>
     r = None \<and> m = None \<and> (\<forall>rv \<in> set revs. ir_Revision rv = None) \<or>
     (\<exists>x. r = Some x \<and> (m = Some x \<or> (\<exists>rv \<in> set revs. ir_Revision rv = Some x)))"
  by (induction gen m revs arbitrary: r rule: max_revision.induct)
    (fastforce split: if_splits option.splits)+

lemma InputsExist_iff:
  "InputsExist c syn \<longleftrightarrow>
     (\<forall>b \<in> set (Bindings (comp_Spec c)).
        b_Key b \<in> ref_Key ` set (Refs (synth_Spec syn)) \<longrightarrow>
        b_Key b \<in> ir_Key ` set (InputRevs (comp_Status c)))"
  by (auto simp: InputsExist_def list_all_iff list_ex_iff Let_def)

lemma Failed_no_results [simp]: "Results s = [] \<Longrightarrow> \<not> Failed s"
  by (simp add: Failed_def)

text \<open>
  C29. \<open>InputsOutOfLockstep\<close> holds exactly when some recorded input revision was derived from a
  synthesizer generation older than the given synthesizer, or two inputs that declare a revision
  declare different ones: the running maximum of the code is only a way to compute this.
\<close>
theorem InputsOutOfLockstep_iff:
  "InputsOutOfLockstep c synth \<longleftrightarrow>
     (\<exists>rv g. rv \<in> set (InputRevs (comp_Status c)) \<and>
        ir_SynthesizerGeneration rv = Some g \<and> g < Generation synth) \<or>
     (\<exists>r1 r2 a b. r1 \<in> set (InputRevs (comp_Status c)) \<and> r2 \<in> set (InputRevs (comp_Status c)) \<and>
        ir_Revision r1 = Some a \<and> ir_Revision r2 = Some b \<and> a \<noteq> b)"
proof (cases "max_revision (Generation synth) None (InputRevs (comp_Status c))")
  case None
  then have "list_ex (stale_generation (Generation synth)) (InputRevs (comp_Status c))"
    by (simp only: max_revision_None_iff)
  then show ?thesis
    using None
    by (auto simp: InputsOutOfLockstep_def stale_generation_def list_ex_iff split: option.splits)
next
  case (Some r)
  then have fresh: "\<not> list_ex (stale_generation (Generation synth)) (InputRevs (comp_Status c))"
    by (metis max_revision_None_iff option.distinct(1))
  show ?thesis
    using max_revision_Some [OF Some] Some fresh
    by (auto simp: InputsOutOfLockstep_def stale_generation_def list_ex_iff split: option.splits) 
      (metis option.inject)+
qed

end
