(* ===== verification/Go_Strconv.thy ===== *)
theory Go_Strconv
  imports Eno_Prelude
begin

text \<open>
  The parts of Go's \<open>strconv\<close> and \<open>strings\<close> the program calls: \<open>Itoa\<close>, \<open>ParseInt\<close> in base 10 at 64 bits
  (also \<open>Atoi\<close>), \<open>HasPrefix\<close> and \<open>TrimPrefix\<close>. \<open>ParseInt\<close> answers a value and whether it failed, since the
  program uses the value of a failed parse: 0 on a syntax error, the nearest 64-bit integer when
  the number is out of range.
\<close>

datatype parse_err = ErrSyntax | ErrRange

definition digit_char :: "nat \<Rightarrow> char" where
  "digit_char d = char_of (48 + d)"

fun nat_digits :: "nat \<Rightarrow> string" where
  "nat_digits n = (if n < 10 then [digit_char n] else nat_digits (n div 10) @ [digit_char (n mod 10)])"

declare nat_digits.simps [simp del]

definition Itoa :: "int \<Rightarrow> string" where
  "Itoa i = (if i < 0 then CHR ''-'' # nat_digits (nat (- i)) else nat_digits (nat i))"

definition max_uint64 :: nat where
  "max_uint64 = 18446744073709551615"

definition int64_cutoff :: nat where
  "int64_cutoff = 9223372036854775808"

fun parse_uint :: "nat \<Rightarrow> string \<Rightarrow> parse_err + nat" where
  "parse_uint n [] = Inr n"
| "parse_uint n (c # cs) =
     (let d = (of_char c :: nat) in
      if d < 48 \<or> 57 < d then Inl ErrSyntax
      else if n \<ge> max_uint64 div 10 + 1 then Inl ErrRange
      else if n * 10 + (d - 48) > max_uint64 then Inl ErrRange
      else parse_uint (n * 10 + (d - 48)) cs)"

definition ParseUint :: "string \<Rightarrow> parse_err + nat" where
  "ParseUint s = (if s = [] then Inl ErrSyntax else parse_uint 0 s)"

definition ParseInt :: "string \<Rightarrow> int \<times> parse_err option" where
  "ParseInt s =
     (if s = [] then (0, Some ErrSyntax)
      else
        let neg = (hd s = CHR ''-'');
            body = (if hd s = CHR ''+'' \<or> hd s = CHR ''-'' then tl s else s)
        in (case ParseUint body of
              Inl ErrSyntax \<Rightarrow> (0, Some ErrSyntax)
            | Inl ErrRange \<Rightarrow>
                (if neg then - int int64_cutoff else int int64_cutoff - 1, Some ErrRange)
            | Inr un \<Rightarrow>
                if \<not> neg \<and> un \<ge> int64_cutoff then (int int64_cutoff - 1, Some ErrRange)
                else if neg \<and> un > int64_cutoff then (- int int64_cutoff, Some ErrRange)
                else (if neg then - int un else int un, None)))"

definition HasPrefix :: "string \<Rightarrow> string \<Rightarrow> bool" where
  "HasPrefix s p = (take (length p) s = p)"

definition TrimPrefix :: "string \<Rightarrow> string \<Rightarrow> string" where
  "TrimPrefix s p = (if HasPrefix s p then drop (length p) s else s)"

section \<open>Lemmas\<close>

lemma of_char_digit: "d < 10 \<Longrightarrow> of_char (digit_char d) = (48 + d :: nat)"
  by (simp add: digit_char_def of_char_of)

lemma digit_not_sign:
  assumes "d < 10"
  shows "digit_char d \<noteq> CHR ''-''" and "digit_char d \<noteq> CHR ''+''"
proof -
  have "(of_char (digit_char d) :: nat) \<noteq> 45" "(of_char (digit_char d) :: nat) \<noteq> 43"
    using assms by (simp_all add: of_char_digit)
  moreover have "(of_char CHR ''-'' :: nat) = 45" "(of_char CHR ''+'' :: nat) = 43"
    by simp_all
  ultimately show "digit_char d \<noteq> CHR ''-''" and "digit_char d \<noteq> CHR ''+''"
    by metis+
qed

lemma nat_digits_nonempty [simp]: "nat_digits n \<noteq> []"
  by (subst nat_digits.simps) simp

lemma nat_digits_hd: "\<exists>d < 10. hd (nat_digits n) = digit_char d"
proof (induction n rule: nat_digits.induct)
  case (1 n)
  show ?case
  proof (cases "n < 10")
    case True
    then show ?thesis by (subst nat_digits.simps) auto
  next
    case False
    with 1 show ?thesis by (subst nat_digits.simps) simp
  qed
qed

lemma parse_uint_append:
  "parse_uint n (xs @ ys) = (case parse_uint n xs of Inl e \<Rightarrow> Inl e | Inr m \<Rightarrow> parse_uint m ys)"
  by (induction n xs rule: parse_uint.induct) (auto simp: Let_def)

lemma parse_uint_digit:
  assumes "d < 10" "n * 10 + d \<le> max_uint64"
  shows "parse_uint n [digit_char d] = Inr (n * 10 + d)"
  using assms by (auto simp: of_char_digit Let_def max_uint64_def)

lemma parse_uint_nat_digits: "n \<le> max_uint64 \<Longrightarrow> parse_uint 0 (nat_digits n) = Inr n"
proof (induction n rule: nat_digits.induct)
  case (1 n)
  show ?case
  proof (cases "n < 10")
    case True
    with 1(2) show ?thesis
      using parse_uint_digit [of n 0] by (subst nat_digits.simps) simp
  next
    case False
    have le: "n div 10 \<le> max_uint64" using 1(2) by linarith
    with 1(1) False have IH: "parse_uint 0 (nat_digits (n div 10)) = Inr (n div 10)" by simp
    have "parse_uint (n div 10) [digit_char (n mod 10)] = Inr (n div 10 * 10 + n mod 10)"
      using 1(2) by (intro parse_uint_digit) simp_all
    with IH False show ?thesis
      by (subst nat_digits.simps) (simp add: parse_uint_append)
  qed
qed

lemma ParseInt_Itoa:
  assumes "- int int64_cutoff \<le> i" "i < int int64_cutoff"
  shows "ParseInt (Itoa i) = (i, None)"
proof (cases "i < 0")
  case True
  have "nat (- i) \<le> max_uint64" "nat (- i) \<le> int64_cutoff"
    using assms True by (auto simp: max_uint64_def int64_cutoff_def)
  with True show ?thesis
    by (simp add: Itoa_def ParseInt_def ParseUint_def parse_uint_nat_digits)
next
  case False
  obtain d where d: "d < 10" "hd (nat_digits (nat i)) = digit_char d"
    using nat_digits_hd by blast
  have "nat i \<le> max_uint64" "nat i < int64_cutoff"
    using assms False by (auto simp: max_uint64_def int64_cutoff_def)
  with False d show ?thesis
    by (simp add: Itoa_def ParseInt_def ParseUint_def parse_uint_nat_digits digit_not_sign)
qed

lemma ParseInt_range:
  "- int int64_cutoff \<le> fst (ParseInt s) \<and> fst (ParseInt s) < int int64_cutoff"
  by (auto simp: ParseInt_def int64_cutoff_def Let_def split: sum.splits parse_err.splits)

end
