(* ===== verification/Synthesis_Pod.thy ===== *)
theory Synthesis_Pod
  imports Complex_Main Api_Types Go_Strconv
begin

text \<open>
  The synthesizer pod: \<open>newPod\<close> and its helpers (\<open>synthesis/pod.go\<close>), the pod indices of
  \<open>manager/indices.go\<close> that find a composition's pods, and \<open>LoadEnv\<close> (\<open>execution/handler.go\<close>), which
  reads back inside the pod what \<open>newPod\<close> wrote into its environment.
\<close>

section \<open>Pods\<close>

record ContainerStatus =
  RestartCount :: int

record PodCondition =
  cond_Type :: string
  cond_Status :: string
  LastTransitionTime :: time

record VolumeMount =
  vm_Name :: string
  MountPath :: string

record SecurityContext =
  AllowPrivilegeEscalation :: bool
  ReadOnlyRootFilesystem :: bool
  RunAsUser :: int
  RunAsGroup :: int
  RunAsNonRoot :: bool
  DropCapabilities :: "string list"
  SeccompProfile :: string

record Container =
  c_Name :: string
  c_Image :: string
  c_Command :: "string list"
  VolumeMounts :: "VolumeMount list"
  c_Resources :: string
  Env :: "EnvVar list"
  c_SecurityContext :: "SecurityContext option"

record Toleration =
  tol_Key :: string
  tol_Operator :: string
  tol_Value :: string
  tol_Effect :: string

record NodeSelectorRequirement =
  nsr_Key :: string
  nsr_Operator :: string
  nsr_Values :: "string list"

record WeightedPodAffinityTerm =
  Weight :: int
  TopologyKey :: string
  MatchLabels :: "(string \<times> string) list"

record PodSpec =
  ServiceAccountName :: string
  RestartPolicy :: string
  PodAntiAffinity :: "WeightedPodAffinityTerm list"
  NodeAffinity :: "NodeSelectorRequirement option"
  InitContainers :: "Container list"
  Containers :: "Container list"
  Volumes :: "(string \<times> string) list"
  Tolerations :: "Toleration list"

record Pod = ObjectMeta +
  pod_Spec :: PodSpec
  pod_Phase :: string
  ContainerStatuses :: "ContainerStatus list"
  Conditions :: "PodCondition list"

record Config =
  SliceCreationQPS :: rat
  ExecutorImage :: string
  PodNamespace :: string
  PodServiceAccount :: string
  TaintTolerationKey :: string
  TaintTolerationValue :: string
  NodeAffinityKey :: string
  NodeAffinityValue :: string
  ContainerCreationTimeout :: duration

section \<open>Label keys and indices\<close>

definition CompositionNameLabelKey :: string where
  "CompositionNameLabelKey = ''eno.azure.io/composition-name''"

definition CompositionNamespaceLabelKey :: string where
  "CompositionNamespaceLabelKey = ''eno.azure.io/composition-namespace''"

definition ManagerLabelKey :: string where
  "ManagerLabelKey = ''app.kubernetes.io/managed-by''"

definition ManagerLabelValue :: string where
  "ManagerLabelValue = ''eno''"

definition SynthesisUUIDLabelKey :: string where
  "SynthesisUUIDLabelKey = ''eno.azure.io/synthesis-uuid''"

definition PodReferencesComposition :: "Pod \<Rightarrow> bool" where
  "PodReferencesComposition pod =
     (if Labels pod = None \<or> gomap_get (Labels pod) CompositionNameLabelKey = [] \<or>
         gomap_get (Labels pod) CompositionNamespaceLabelKey = [] then False else True)"

definition PodToCompMapFunc :: "Pod \<Rightarrow> NamespacedName list" where
  "PodToCompMapFunc pod =
     (if \<not> PodReferencesComposition pod then []
      else [\<lparr>nn_Namespace = gomap_get (Labels pod) CompositionNamespaceLabelKey,
             nn_Name = gomap_get (Labels pod) CompositionNameLabelKey\<rparr>])"

definition PodByCompIdxValueFromPod :: "'a ObjectMeta_scheme \<Rightarrow> string" where
  "PodByCompIdxValueFromPod po =
     gomap_get (Labels po) CompositionNameLabelKey @ ''/'' @
     gomap_get (Labels po) CompositionNamespaceLabelKey"

definition PodByCompIdxValueFromComp :: "'a ObjectMeta_scheme \<Rightarrow> string" where
  "PodByCompIdxValueFromComp co = Name co @ ''/'' @ Namespace co"

definition PodByCompIdxValueFromNamespacedName :: "NamespacedName \<Rightarrow> string" where
  "PodByCompIdxValueFromNamespacedName nn = nn_Name nn @ ''/'' @ nn_Namespace nn"

section \<open>Building the pod\<close>

definition filterEnv :: "EnvVar list \<Rightarrow> EnvVar list \<Rightarrow> EnvVar list" where
  "filterEnv flt env = filter (\<lambda>ev. \<not> list_ex (\<lambda>f. ev_Name f = ev_Name ev) flt) env"

definition put_all :: "strmap \<Rightarrow> (string \<times> string) list \<Rightarrow> (string \<times> string) list" where
  "put_all overrides base =
     (case overrides of None \<Rightarrow> base | Some kvs \<Rightarrow> fold (\<lambda>(k, v). AList.update k v) kvs base)"

definition base_env :: "Composition \<Rightarrow> Synthesis \<Rightarrow> EnvVar list" where
  "base_env co cur =
     [\<lparr>ev_Name = ''COMPOSITION_NAME'', ev_Value = Name co\<rparr>,
      \<lparr>ev_Name = ''COMPOSITION_NAMESPACE'', ev_Value = Namespace co\<rparr>,
      \<lparr>ev_Name = ''SYNTHESIS_UUID'', ev_Value = UUID cur\<rparr>,
      \<lparr>ev_Name = ''SYNTHESIS_ATTEMPT'', ev_Value = Itoa (Attempts cur + 1)\<rparr>]"

definition pod_tolerations :: "Config \<Rightarrow> Toleration list" where
  "pod_tolerations cfg =
     (if TaintTolerationKey cfg = [] then []
      else if TaintTolerationValue cfg = [] then
        [\<lparr>tol_Key = TaintTolerationKey cfg, tol_Operator = ''Exists'', tol_Value = [],
          tol_Effect = ''NoSchedule''\<rparr>]
      else
        [\<lparr>tol_Key = TaintTolerationKey cfg, tol_Operator = ''Equal'',
          tol_Value = TaintTolerationValue cfg, tol_Effect = ''NoSchedule''\<rparr>])"

definition pod_node_affinity :: "Config \<Rightarrow> NodeSelectorRequirement option" where
  "pod_node_affinity cfg =
     (if NodeAffinityKey cfg = [] then None
      else if NodeAffinityValue cfg = [] then
        Some \<lparr>nsr_Key = NodeAffinityKey cfg, nsr_Operator = ''Exists'', nsr_Values = []\<rparr>
      else
        Some \<lparr>nsr_Key = NodeAffinityKey cfg, nsr_Operator = ''In'',
          nsr_Values = [NodeAffinityValue cfg]\<rparr>)"

definition pod_spec :: "Config \<Rightarrow> Synthesizer \<Rightarrow> EnvVar list \<Rightarrow> PodSpec" where
  "pod_spec cfg syn env =
     \<lparr>ServiceAccountName = PodServiceAccount cfg,
      RestartPolicy = ''OnFailure'',
      PodAntiAffinity = [\<lparr>Weight = 100, TopologyKey = ''kubernetes.io/hostname'',
        MatchLabels = [(ManagerLabelKey, ManagerLabelValue)]\<rparr>],
      NodeAffinity = pod_node_affinity cfg,
      InitContainers = [\<lparr>c_Name = ''synth-installer'', c_Image = ExecutorImage cfg,
        c_Command = [''/eno-controller'', ''install-executor''],
        VolumeMounts = [\<lparr>vm_Name = ''sharedfs'', MountPath = ''/eno''\<rparr>],
        c_Resources = [], Env = [], c_SecurityContext = None\<rparr>],
      Containers = [\<lparr>c_Name = ''executor'', c_Image = Image (synth_Spec syn),
        c_Command = [''/eno/executor''],
        VolumeMounts = [\<lparr>vm_Name = ''sharedfs'', MountPath = ''/eno''\<rparr>],
        c_Resources = po_Resources (SPodOverrides (synth_Spec syn)), Env = env,
        c_SecurityContext = Some \<lparr>AllowPrivilegeEscalation = False,
          ReadOnlyRootFilesystem = True, RunAsUser = 65532, RunAsGroup = 65532,
          RunAsNonRoot = True, DropCapabilities = [''ALL''],
          SeccompProfile = ''RuntimeDefault''\<rparr>\<rparr>],
      Volumes = [(''sharedfs'', ''Memory'')],
      Tolerations = pod_tolerations cfg\<rparr>"

definition newPod :: "Config \<Rightarrow> Composition \<Rightarrow> Synthesizer \<Rightarrow> error + Pod" where
  "newPod cfg co syn =
     (case current co of
        None \<Rightarrow> Inl NilDeref
      | Some cur \<Rightarrow>
          let labels = [(CompositionNameLabelKey, Name co),
                (CompositionNamespaceLabelKey, Namespace co),
                (ManagerLabelKey, ManagerLabelValue),
                (SynthesisUUIDLabelKey, UUID cur)];
              env = base_env co cur
          in Inr \<lparr>Name = [], Namespace = PodNamespace cfg, GenerateName = ''synthesis-'',
               UID = [], ResourceVersion = [], Generation = 0, CreationTimestamp = 0,
               DeletionTimestamp = None,
               Labels = Some (put_all (po_Labels (SPodOverrides (synth_Spec syn))) labels),
               Annotations = Some (put_all (po_Annotations (SPodOverrides (synth_Spec syn))) []),
               Finalizers = [], OwnerReferences = [],
               pod_Spec = pod_spec cfg syn
                 (env @ map (\<lambda>ev. \<lparr>ev_Name = ev_Name ev, ev_Value = ev_Value ev\<rparr>)
                    (filterEnv env (SynthesisEnv (comp_Spec co)))),
               pod_Phase = [], ContainerStatuses = [], Conditions = []\<rparr>)"

definition podIsCurrent :: "Composition \<Rightarrow> Pod \<Rightarrow> bool" where
  "podIsCurrent co pod =
     (Labels pod \<noteq> None \<and>
      (case current co of
         None \<Rightarrow> False
       | Some cur \<Rightarrow> UUID cur = gomap_get (Labels pod) SynthesisUUIDLabelKey))"

section \<open>The environment inside the pod\<close>

record ExecEnv =
  CompositionName :: string
  CompositionNamespace :: string
  ee_SynthesisUUID :: string
  SynthesisAttempt :: int

definition LoadEnv :: "(string \<Rightarrow> string) \<Rightarrow> ExecEnv" where
  "LoadEnv getenv =
     \<lparr>CompositionName = getenv ''COMPOSITION_NAME'',
      CompositionNamespace = getenv ''COMPOSITION_NAMESPACE'',
      ee_SynthesisUUID = getenv ''SYNTHESIS_UUID'',
      SynthesisAttempt = fst (ParseInt (getenv ''SYNTHESIS_ATTEMPT''))\<rparr>"

text \<open>
  What Kubernetes documents of a container's environment, as far as it is used here: a variable
  that the container's \<open>env\<close> lists exactly once has the listed value in the process.
\<close>

definition kubelet_env :: "EnvVar list \<Rightarrow> (string \<Rightarrow> string) \<Rightarrow> bool" where
  "kubelet_env env getenv =
     list_all (\<lambda>e. length (filter (\<lambda>e'. ev_Name e' = ev_Name e) env) = 1 \<longrightarrow>
       getenv (ev_Name e) = ev_Value e) env"

section \<open>Lemmas\<close>

lemmas pod_label_keys = CompositionNameLabelKey_def CompositionNamespaceLabelKey_def
  ManagerLabelKey_def SynthesisUUIDLabelKey_def

lemma get_put_all_other:
  "k \<notin> fst ` set (case ov of None \<Rightarrow> [] | Some kvs \<Rightarrow> kvs) \<Longrightarrow>
   gomap_get (Some (put_all ov base)) k = gomap_get (Some base) k"
proof (cases ov)
  case None
  then show ?thesis by (simp add: put_all_def)
next
  case (Some kvs)
  assume "k \<notin> fst ` set (case ov of None \<Rightarrow> [] | Some kvs \<Rightarrow> kvs)"
  with Some have "k \<notin> fst ` set kvs" by simp
  then have "gomap_get (Some (fold (\<lambda>(k, v). AList.update k v) kvs base)) k = gomap_get (Some base) k"
    by (induction kvs arbitrary: base) auto
  with Some show ?thesis by (simp add: put_all_def)
qed

lemma filterEnv_disjoint:
  "ev \<in> set (filterEnv flt env) \<Longrightarrow> f \<in> set flt \<Longrightarrow> ev_Name f \<noteq> ev_Name ev"
  by (auto simp: filterEnv_def list_ex_iff)

lemma base_env_once:
  assumes "e \<in> set (base_env co cur)"
  shows "length (filter (\<lambda>e'. ev_Name e' = ev_Name e)
           (base_env co cur @ map (\<lambda>ev. \<lparr>ev_Name = ev_Name ev, ev_Value = ev_Value ev\<rparr>)
              (filterEnv (base_env co cur) env))) = 1"
proof -
  have "filter (\<lambda>e'. ev_Name e' = ev_Name e)
     (map (\<lambda>ev. \<lparr>ev_Name = ev_Name ev, ev_Value = ev_Value ev\<rparr>) (filterEnv (base_env co cur) env)) = []"
    using assms by (auto simp: filter_empty_conv dest: filterEnv_disjoint)
  moreover have "length (filter (\<lambda>e'. ev_Name e' = ev_Name e) (base_env co cur)) = 1"
    using assms by (auto simp: base_env_def)
  ultimately show ?thesis by (simp del: length_filter_map)
qed

lemma newPod_Inr:
  "newPod cfg co syn = Inr pod \<longleftrightarrow>
     (\<exists>cur. current co = Some cur \<and>
        newPod cfg co syn = Inr pod \<and> pod_Spec pod = pod_spec cfg syn
          (base_env co cur @ map (\<lambda>ev. \<lparr>ev_Name = ev_Name ev, ev_Value = ev_Value ev\<rparr>)
             (filterEnv (base_env co cur) (SynthesisEnv (comp_Spec co)))))"
  by (auto simp: newPod_def Let_def split: option.splits)

lemma newPod_labels:
  assumes "newPod cfg co syn = Inr pod" "current co = Some cur"
    and "k \<notin> fst ` set (case po_Labels (SPodOverrides (synth_Spec syn)) of None \<Rightarrow> [] | Some kvs \<Rightarrow> kvs)"
  shows "gomap_get (Labels pod) k =
     gomap_get (Some [(CompositionNameLabelKey, Name co),
       (CompositionNamespaceLabelKey, Namespace co),
       (ManagerLabelKey, ManagerLabelValue), (SynthesisUUIDLabelKey, UUID cur)]) k"
  using assms get_put_all_other [OF assms(3)] by (auto simp: newPod_def Let_def)

end
