(* ===== verification/Api_Client.thy ===== *)
theory Api_Client
  imports Synthesis_Pod
begin

text \<open>
  The requests that the controllers send to the Kubernetes API server, and what surrounds a
  handler call: the clock, fresh UUIDs and the outcome of \<open>sort.Slice\<close>. The API server itself is
  not part of the program: a handler takes the answers to its reads and to its writes as functions
  and reports the requests it sent, in order.
\<close>

datatype json = JNull | JStr string | JInt int | JTime time

datatype patch_op = PTest string json | PReplace string json | PAdd string json

datatype request =
    UpdateComposition Composition
  | UpdateCompositionStatus Composition
  | PatchCompositionStatus NamespacedName "patch_op list"
  | MergePatchCompositionStatus Composition
  | CreateComposition Composition
  | DeleteComposition Composition
  | CreatePod Pod
  | DeletePod Pod
  | CreateSlice ResourceSlice
  | UpdateSlice ResourceSlice
  | DeleteSlice ResourceSlice
  | UpdateSymphonyStatus Symphony
  | MergePatchSymphony Symphony
  | MergePatchSymphonyStatus Symphony

type_synonym writer = "request \<Rightarrow> api_err option"

record env =
  now :: time
  newUUID :: string
  sort_revs :: "InputRevisions list \<Rightarrow> InputRevisions list"

abbreviation rev_lt :: "InputRevisions \<Rightarrow> InputRevisions \<Rightarrow> bool" where
  "rev_lt a b \<equiv> ir_Key a < ir_Key b"

interpretation revs_sort: go_key_sort ir_Key "insertion_sort rev_lt"
  by (rule go_key_sort_insertion_sort)

text \<open>The whole handler fails with the wrapped error of a write, or goes on.\<close>

definition send :: "writer \<Rightarrow> request \<Rightarrow> string \<Rightarrow> ctrl_Result \<Rightarrow> request handler_out" where
  "send wr r ctx res = ([r], case wr r of None \<Rightarrow> Inr res | Some e \<Rightarrow> Inl (Wrap ctx e))"

lemma send_fst [simp]: "fst (send wr r ctx res) = [r]"
  by (simp add: send_def)

lemma send_accepted [simp]: "wr r = None \<Longrightarrow> send wr r ctx res = ([r], Inr res)"
  by (simp add: send_def)

end
