(* ===== verification/Eno_Samples.thy ===== *)
theory Eno_Samples
  imports Api_Client
begin

text \<open>Concrete objects at which the witnesses of the properties evaluate the handlers.\<close>

definition sample_synth :: Synthesizer where
  "sample_synth = zero_Synthesizer\<lparr>Name := ''syn'', Generation := 2,
     synth_Spec := (synth_Spec zero_Synthesizer)\<lparr>Image := ''img'', PodTimeout := Some (120 * second)\<rparr>\<rparr>"

definition sample_synthesis :: Synthesis where
  "sample_synthesis = zero_Synthesis\<lparr>UUID := ''u1'', ObservedCompositionGeneration := 1,
     Initialized := Some 10\<rparr>"

definition sample_comp :: Composition where
  "sample_comp =
     \<lparr>Name = ''comp'', Namespace = ''ns'', GenerateName = [], UID = ''uid'', ResourceVersion = ''1'',
      Generation = 1, CreationTimestamp = 5, DeletionTimestamp = None, Labels = None,
      Annotations = None, Finalizers = [cleanup_finalizer], OwnerReferences = [],
      comp_Spec = \<lparr>SynthesizerName = ''syn'', Bindings = [], SynthesisEnv = []\<rparr>,
      comp_Status = \<lparr>Simplified = None, CurrentSynthesis = Some sample_synthesis,
        PreviousSynthesis = None, PendingResynthesis = None, InputRevs = []\<rparr>\<rparr>"

definition sample_config :: Config where
  "sample_config =
     \<lparr>SliceCreationQPS = 5, ExecutorImage = ''exec'', PodNamespace = ''pods'', PodServiceAccount = ''sa'',
      TaintTolerationKey = [], TaintTolerationValue = [], NodeAffinityKey = [],
      NodeAffinityValue = [], ContainerCreationTimeout = 10 * second\<rparr>"

definition sample_env :: env where
  "sample_env = \<lparr>now = 1000 * second, newUUID = ''fresh'', sort_revs = insertion_sort rev_lt\<rparr>"

definition sample_pod :: Pod where
  "sample_pod =
     \<lparr>Name = ''pod'', Namespace = ''pods'', GenerateName = [], UID = [], ResourceVersion = [],
      Generation = 0, CreationTimestamp = 990 * second, DeletionTimestamp = None,
      Labels = Some [(SynthesisUUIDLabelKey, ''u1'')], Annotations = None, Finalizers = [],
      OwnerReferences = [], pod_Spec = pod_spec sample_config sample_synth [],
      pod_Phase = ''Running'', ContainerStatuses = [], Conditions = []\<rparr>"

definition sample_slice :: ResourceSlice where
  "sample_slice =
     \<lparr>Name = ''slice'', Namespace = ''ns'', GenerateName = [], UID = [], ResourceVersion = ''1'',
      Generation = 1, CreationTimestamp = 5, DeletionTimestamp = None, Labels = None,
      Annotations = None, Finalizers = [cleanup_finalizer],
      OwnerReferences = [\<lparr>or_Kind = ''Composition'', or_Name = ''comp'', or_UID = ''uid'', or_Controller = True\<rparr>],
      slice_Spec = \<lparr>CompositionGeneration = 1, SynthesisUUID = ''u1'', Attempt = 1,
        Resources = [\<lparr>manifest = ''m'', m_Deleted = False\<rparr>]\<rparr>,
      slice_Status = None\<rparr>"

lemmas sample_defs = sample_synth_def sample_synthesis_def sample_comp_def sample_config_def
  sample_env_def sample_pod_def sample_slice_def zero_Synthesizer_def zero_Synthesis_def
  second_def millisecond_def

end
