(* ===== verification/Synthesis_Lifecycle.thy ===== *)
theory Synthesis_Lifecycle
  imports Eno_Samples
begin

text \<open>
  The pod lifecycle controller (\<open>synthesis/lifecycle.go\<close>): it starts a synthesis by swapping the
  states of a composition, creates and deletes synthesizer pods, and takes a deleted composition
  through its cleanup. The handler \<open>lc_Reconcile\<close> is the whole \<open>Reconcile\<close> method; \<open>shouldDeletePod\<close>
  and \<open>lc_Reconcile\<close> answer \<open>Inl NilDeref\<close> where the Go code dereferences a nil pointer.
\<close>

section \<open>Comparing input revisions\<close>

definition refsByKey :: "Synthesizer \<Rightarrow> string \<Rightarrow> Ref option" where
  "refsByKey synth = map_of (rev (map (\<lambda>r. (ref_Key r, r)) (Refs (synth_Spec synth))))"

definition deferred_input :: "Synthesizer \<Rightarrow> InputRevisions \<Rightarrow> bool" where
  "deferred_input synth ar =
     (case refsByKey synth (ir_Key ar) of None \<Rightarrow> False | Some r \<Rightarrow> ref_Defer r)"

text \<open>The comparison sorts both slices in place, so it also returns what it leaves in them.\<close>

definition inputRevisionsEqual ::
  "(InputRevisions list \<Rightarrow> InputRevisions list) \<Rightarrow> Synthesizer \<Rightarrow>
   InputRevisions list \<Rightarrow> InputRevisions list \<Rightarrow> bool \<times> InputRevisions list \<times> InputRevisions list" where
  "inputRevisionsEqual srt synth a b =
     (if length a \<noteq> length b then (False, a, b)
      else
        let a' = srt a; b' = srt b;
            equal = length (filter (\<lambda>(ar, br). deferred_input synth ar \<or> InputRevisions_Equal ar br)
                              (zip a' b'))
        in (equal = length a', a', b'))"

section \<open>State swaps\<close>

definition SwapStates :: "time \<Rightarrow> Composition \<Rightarrow> Composition" where
  "SwapStates t co =
     set_status (\<lambda>s. s\<lparr>
       PreviousSynthesis :=
         (case CurrentSynthesis s of
            Some cur \<Rightarrow> if Synthesized cur \<noteq> None \<and> \<not> Failed cur then Some cur else PreviousSynthesis s
          | None \<Rightarrow> PreviousSynthesis s),
       CurrentSynthesis := Some (zero_Synthesis\<lparr>
         ObservedCompositionGeneration := Generation co, Initialized := Some t\<rparr>)\<rparr>) co"

definition inputs_ready :: "Synthesizer \<Rightarrow> Composition \<Rightarrow> bool" where
  "inputs_ready synth co =
     (DeletionTimestamp co \<noteq> None \<or> (InputsExist co synth \<and> \<not> InputsOutOfLockstep co synth))"

definition shouldSwapStates ::
  "(InputRevisions list \<Rightarrow> InputRevisions list) \<Rightarrow> Synthesizer \<Rightarrow> Composition \<Rightarrow> bool \<times> Composition" where
  "shouldSwapStates srt synth co =
     (case current co of
        None \<Rightarrow> (inputs_ready synth co, co)
      | Some syn \<Rightarrow>
          if ObservedCompositionGeneration syn \<noteq> Generation co then (inputs_ready synth co, co)
          else
            (case inputRevisionsEqual srt synth (InputRevs (comp_Status co)) (syn_InputRevisions syn) of
               (eq, a, b) \<Rightarrow>
                 let co' = set_status (\<lambda>s. s\<lparr>InputRevs := a,
                             CurrentSynthesis := Some (syn\<lparr>syn_InputRevisions := b\<rparr>)\<rparr>) co
                 in (\<not> eq \<and> Synthesized syn \<noteq> None \<and> \<not> ShouldIgnoreSideEffects co \<and>
                     inputs_ready synth co', co')))"

definition shouldBackOffPodCreation :: "Composition \<Rightarrow> bool" where
  "shouldBackOffPodCreation co =
     (case current co of None \<Rightarrow> False | Some cur \<Rightarrow> Attempts cur > 0 \<and> PodCreation cur \<noteq> None)"

definition shouldRevertStateSwap :: "Composition \<Rightarrow> bool" where
  "shouldRevertStateSwap co =
     (previous co \<noteq> None \<and>
      (case current co of None \<Rightarrow> True | Some cur \<Rightarrow> Synthesized cur = None))"

definition shouldUpdateDeletedCompositionStatus :: "Composition \<Rightarrow> bool" where
  "shouldUpdateDeletedCompositionStatus co =
     (case current co of
        None \<Rightarrow> False
      | Some cur \<Rightarrow> ObservedCompositionGeneration cur \<noteq> Generation co \<or> Synthesized cur = None)"

definition isReconciling :: "Composition \<Rightarrow> bool" where
  "isReconciling co =
     (case current co of
        None \<Rightarrow> False
      | Some cur \<Rightarrow> Reconciled cur = None \<or> ObservedCompositionGeneration cur \<noteq> Generation co)"

section \<open>Pods\<close>

definition getPodScheduledTime :: "Pod \<Rightarrow> time option" where
  "getPodScheduledTime pod =
     (case find (\<lambda>cond. cond_Type cond = ''PodScheduled'') (Conditions pod) of
        None \<Rightarrow> None
      | Some cond \<Rightarrow>
          if cond_Status cond = ''False'' then None else Some (LastTransitionTime cond))"

definition creation_timed_out :: "time \<Rightarrow> Composition \<Rightarrow> duration \<Rightarrow> bool \<Rightarrow> Pod \<Rightarrow> bool" where
  "creation_timed_out t co creationTTL onePodDeleting pod =
     (let seenByKubelet = (ContainerStatuses pod \<noteq> []);
          retryPressure = (case current co of None \<Rightarrow> False | Some cur \<Rightarrow> Attempts cur > 3)
      in \<not> onePodDeleting \<and> \<not> seenByKubelet \<and> \<not> retryPressure \<and>
         (case getPodScheduledTime pod of None \<Rightarrow> False | Some st \<Rightarrow> t - st > creationTTL))"

fun check_pods ::
  "time \<Rightarrow> Composition \<Rightarrow> Synthesizer option \<Rightarrow> duration \<Rightarrow> bool \<Rightarrow> Pod list \<Rightarrow>
   error + (Pod option \<times> bool)" where
  "check_pods t co syn creationTTL onePodDeleting [] = Inr (None, False)"
| "check_pods t co syn creationTTL onePodDeleting (pod # pods) =
     (if DeletionTimestamp pod \<noteq> None then check_pods t co syn creationTTL onePodDeleting pods
      else (case syn of
              None \<Rightarrow> Inr (Some pod, True)
            | Some s \<Rightarrow>
                if DeletionTimestamp co \<noteq> None then Inr (Some pod, True)
                else if pod_Phase pod = ''Succeeded'' then Inr (Some pod, True)
                else if \<not> podIsCurrent co pod then Inr (Some pod, True)
                else if (case current co of None \<Rightarrow> False | Some cur \<Rightarrow> Synthesized cur \<noteq> None)
                then Inr (Some pod, True)
                else if creation_timed_out t co creationTTL onePodDeleting pod
                then Inr (Some pod, True)
                else (case PodTimeout (synth_Spec s) of
                        None \<Rightarrow> Inl NilDeref
                      | Some timeout \<Rightarrow>
                          if t - CreationTimestamp pod > timeout then Inr (Some pod, True)
                          else Inr (None, True))))"

definition shouldDeletePod ::
  "time \<Rightarrow> Composition \<Rightarrow> Synthesizer option \<Rightarrow> Pod list \<Rightarrow> duration \<Rightarrow> error + (Pod option \<times> bool)" where
  "shouldDeletePod t co syn pods creationTTL =
     (let deleting = length (filter (\<lambda>p. DeletionTimestamp p \<noteq> None) pods) in
      if pods = [] then Inr (None, False)
      else if deleting > 1 then Inr (None, True)
      else check_pods t co syn creationTTL (deleting = 1) pods)"

section \<open>The handler\<close>

record lc_client =
  lc_get_comp :: "NamespacedName \<Rightarrow> api_err + Composition"
  lc_list_pods :: "string \<Rightarrow> string \<Rightarrow> api_err + Pod list"
  lc_get_synth :: "string \<Rightarrow> api_err + Synthesizer"
  lc_live_pods :: "string \<Rightarrow> api_err + Pod list"
  lc_create_pod :: "Pod \<Rightarrow> api_err + Pod"
  lc_write :: writer

fun first_live_pod :: "Pod list \<Rightarrow> Pod option" where
  "first_live_pod [] = None"
| "first_live_pod (pod # pods) =
     (if DeletionTimestamp pod \<noteq> None then first_live_pod pods else Some pod)"

definition deletePod :: "Config \<Rightarrow> lc_client \<Rightarrow> NamespacedName \<Rightarrow> request handler_out" where
  "deletePod cfg cl nn =
     (case lc_list_pods cl (PodNamespace cfg) (PodByCompIdxValueFromNamespacedName nn) of
        Inl e \<Rightarrow> ([], Inl (Wrap ''listing Pods'' e))
      | Inr pods \<Rightarrow>
          (case first_live_pod pods of
             None \<Rightarrow> ([], Inr done_result)
           | Some pod \<Rightarrow>
               ([DeletePod pod],
                case lc_write cl (DeletePod pod) of
                  None \<Rightarrow> Inr done_result
                | Some NotFound \<Rightarrow> Inr done_result
                | Some e \<Rightarrow> Inl (Wrap ''deleting Pod'' e))))"

definition revert_swap :: "Composition \<Rightarrow> Composition" where
  "revert_swap co =
     set_status (\<lambda>s. s\<lparr>CurrentSynthesis := PreviousSynthesis s, PreviousSynthesis := None\<rparr>) co"

definition deleted_status :: "time \<Rightarrow> string \<Rightarrow> Composition \<Rightarrow> Composition" where
  "deleted_status t uuid co =
     map_current (\<lambda>cur. cur\<lparr>
       ObservedCompositionGeneration := Generation co,
       Ready := None,
       UUID := uuid,
       Reconciled :=
         (if (case previous co of None \<Rightarrow> True | Some p \<Rightarrow> Synthesized p = None) \<and> Synthesized cur = None
          then Some t else None),
       Synthesized := Some t\<rparr>) co"

definition reconcileDeletedComposition ::
  "env \<Rightarrow> writer \<Rightarrow> Composition \<Rightarrow> request handler_out" where
  "reconcileDeletedComposition en wr co =
     (if shouldRevertStateSwap co then
        send wr (UpdateCompositionStatus (revert_swap co)) ''reverting swapped status for deletion'' done_result
      else if shouldUpdateDeletedCompositionStatus co then
        send wr (UpdateCompositionStatus (deleted_status (now en) (newUUID en) co))
          ''updating current composition generation'' done_result
      else if isReconciling co then ([], Inr done_result)
      else (case RemoveFinalizer co cleanup_finalizer of
              (co', True) \<Rightarrow> send wr (UpdateComposition co') ''removing finalizer'' done_result
            | (co', False) \<Rightarrow> ([], Inr done_result)))"

definition pod_created_patch :: "Synthesis \<Rightarrow> Pod \<Rightarrow> patch_op list" where
  "pod_created_patch cur pod =
     [PTest ''/status/currentSynthesis/uuid'' (JStr (UUID cur)),
      PTest ''/status/currentSynthesis/synthesized'' JNull,
      PReplace ''/status/currentSynthesis/attempts'' (JInt (Attempts cur + 1)),
      PReplace ''/status/currentSynthesis/podCreation'' (JTime (CreationTimestamp pod))]"

definition createPod :: "Config \<Rightarrow> lc_client \<Rightarrow> Composition \<Rightarrow> Synthesizer \<Rightarrow> Synthesis \<Rightarrow> request handler_out" where
  "createPod cfg cl co syn cur =
     (case lc_live_pods cl (UUID cur) of
        Inl e \<Rightarrow> ([], Inl (Wrap ''checking for existing pod'' e))
      | Inr pods \<Rightarrow>
          if list_ex (\<lambda>p. DeletionTimestamp p = None) pods then ([], Inr done_result)
          else
            (case newPod cfg co syn of
               Inl err \<Rightarrow> ([], Inl err)
             | Inr pod \<Rightarrow>
                 (case lc_create_pod cl pod of
                    Inl e \<Rightarrow> ([CreatePod pod], Inl (Wrap ''creating pod'' e))
                  | Inr pod' \<Rightarrow>
                      let p = PatchCompositionStatus (key_of co) (pod_created_patch cur pod') in
                      ([CreatePod pod, p],
                       case lc_write cl p of
                         None \<Rightarrow> Inr done_result
                       | Some e \<Rightarrow> Inl (Wrap ''updating composition status after synthesizer pod creation'' e)))))"

definition backoff_base :: duration where
  "backoff_base = 250 * millisecond"

definition synthesize :: "Config \<Rightarrow> env \<Rightarrow> lc_client \<Rightarrow> Composition \<Rightarrow> Synthesizer \<Rightarrow> request handler_out" where
  "synthesize cfg en cl co0 syn =
     (case shouldSwapStates (sort_revs en) syn co0 of
        (True, co) \<Rightarrow>
          send (lc_write cl) (UpdateCompositionStatus (SwapStates (now en) co))
            ''swapping compisition state'' requeue_result
      | (False, co) \<Rightarrow>
          (case current co of
             None \<Rightarrow> ([], Inr done_result)
           | Some cur \<Rightarrow>
               if UUID cur = [] \<or> Synthesized cur \<noteq> None \<or> DeletionTimestamp co \<noteq> None
               then ([], Inr done_result)
               else
                 let wait = backoff_base * Attempts cur in
                 if shouldBackOffPodCreation co \<and>
                    (case PodCreation cur of None \<Rightarrow> False | Some pc \<Rightarrow> now en - (pc + wait) < 0)
                 then ([], Inr (requeue_after wait))
                 else createPod cfg cl co syn cur))"

definition lc_with_pods ::
  "Config \<Rightarrow> env \<Rightarrow> lc_client \<Rightarrow> Composition \<Rightarrow> Synthesizer option \<Rightarrow> Pod list \<Rightarrow> request handler_out" where
  "lc_with_pods cfg en cl co syn pods =
     (case shouldDeletePod (now en) co syn pods (ContainerCreationTimeout cfg) of
        Inl err \<Rightarrow> ([], Inl err)
      | Inr (Some pod, _) \<Rightarrow>
          ([DeletePod pod],
           case lc_write cl (DeletePod pod) of
             None \<Rightarrow> Inr done_result
           | Some e \<Rightarrow> ignore_not_found (Wrap ''deleting pod'' e))
      | Inr (None, exists) \<Rightarrow>
          if DeletionTimestamp co \<noteq> None then reconcileDeletedComposition en (lc_write cl) co
          else if exists then
            (case syn of
               None \<Rightarrow> ([], Inl NilDeref)
             | Some s \<Rightarrow>
                 (case PodTimeout (synth_Spec s) of
                    None \<Rightarrow> ([], Inr done_result)
                  | Some timeout \<Rightarrow> ([], Inr (requeue_after timeout))))
          else
            (case syn of
               None \<Rightarrow> ([], Inr done_result)
             | Some s \<Rightarrow> synthesize cfg en cl co s))"

definition find_synth :: "lc_client \<Rightarrow> Composition \<Rightarrow> api_err + Synthesizer option" where
  "find_synth cl co =
     (case lc_get_synth cl (SynthesizerName (comp_Spec co)) of
        Inl NotFound \<Rightarrow> if current co \<noteq> None then Inr None else Inl NotFound
      | Inl e \<Rightarrow> Inl e
      | Inr s \<Rightarrow> if DeletionTimestamp s \<noteq> None \<and> current co \<noteq> None then Inr None else Inr (Some s))"

definition lc_Reconcile :: "Config \<Rightarrow> env \<Rightarrow> lc_client \<Rightarrow> NamespacedName \<Rightarrow> request handler_out" where
  "lc_Reconcile cfg en cl req =
     (case lc_get_comp cl req of
        Inl NotFound \<Rightarrow> deletePod cfg cl req
      | Inl e \<Rightarrow> ([], Inl (Wrap ''getting composition resource'' e))
      | Inr co \<Rightarrow>
          if DeletionTimestamp co = None \<and> snd (AddFinalizer co cleanup_finalizer) then
            send (lc_write cl) (UpdateComposition (fst (AddFinalizer co cleanup_finalizer)))
              ''updating composition'' done_result
          else
            (case lc_list_pods cl (PodNamespace cfg) (PodByCompIdxValueFromComp co) of
               Inl e \<Rightarrow> ([], Inl (Wrap ''listing pods'' e))
             | Inr pods \<Rightarrow>
                 (case find_synth cl co of
                    Inl e \<Rightarrow> ([], Inl (Wrap ''getting synthesizer'' e))
                  | Inr syn \<Rightarrow> lc_with_pods cfg en cl co syn pods)))"

definition backoff_elapsed :: "time \<Rightarrow> Synthesis \<Rightarrow> bool" where
  "backoff_elapsed t cur =
     (case PodCreation cur of
        None \<Rightarrow> True
      | Some pc \<Rightarrow> Attempts cur \<le> 0 \<or> pc + backoff_base * Attempts cur \<le> t)"

section \<open>Lemmas\<close>

subsection \<open>Input revisions\<close>

lemma filter_zip_all_iff:
  assumes "length xs = length ys"
  shows "length (filter P (zip xs ys)) = length xs \<longleftrightarrow> (\<forall>i < length xs. P (xs ! i, ys ! i))"
proof -
  have "length (filter P (zip xs ys)) = length (zip xs ys) \<longleftrightarrow> (\<forall>z \<in> set (zip xs ys). P z)"
    by (metis filter_id_conv filter_True length_filter_less order_less_irrefl)
  with assms show ?thesis
    by (auto simp: set_zip)
qed

lemma inputRevisionsEqual_pointwise:
  assumes "go_key_sort ir_Key srt"
  shows "fst (inputRevisionsEqual srt synth a b) \<longleftrightarrow>
     length a = length b \<and>
     (\<forall>i < length a. deferred_input synth (srt a ! i) \<or> InputRevisions_Equal (srt a ! i) (srt b ! i))"
proof (cases "length a = length b")
  case True
  then have "length (srt a) = length (srt b)"
    by (simp add: go_key_sort.key_srt_basics [OF assms])
  from filter_zip_all_iff [OF this] True show ?thesis
    by (simp add: inputRevisionsEqual_def Let_def go_key_sort.key_srt_basics [OF assms])
next
  case False
  then show ?thesis by (simp add: inputRevisionsEqual_def)
qed

lemma sorted_keys_same:
  assumes "go_key_sort ir_Key srt" "distinct (map ir_Key a)" "distinct (map ir_Key b)"
    and "ir_Key ` set a = ir_Key ` set b"
  shows "map ir_Key (srt a) = map ir_Key (srt b)"
proof (rule sorted_distinct_set_unique)
  note basics = go_key_sort.key_srt_basics [OF assms(1)]
  show "sorted (map ir_Key (srt a))" "sorted (map ir_Key (srt b))"
    by (rule go_key_sort.sorted_keys [OF assms(1)])+
  show "distinct (map ir_Key (srt a))" "distinct (map ir_Key (srt b))"
    using assms(2,3) basics(3) by (metis mset_eq_imp_distinct_iff mset_map)+
  show "set (map ir_Key (srt a)) = set (map ir_Key (srt b))"
    using assms(4) basics(1) by simp
qed



subsection \<open>Pods\<close>

lemma check_pods_Some:
  "check_pods t co syn ttl one pods = Inr (Some p, e) \<Longrightarrow>
     p \<in> set pods \<and> DeletionTimestamp p = None \<and> e"
  by (induction t co syn ttl one pods rule: check_pods.induct)
    (auto split: if_splits option.splits)

lemma check_pods_None_False:
  "check_pods t co syn ttl one pods = Inr (None, False) \<longleftrightarrow> (\<forall>p \<in> set pods. DeletionTimestamp p \<noteq> None)"
  by (induction t co syn ttl one pods rule: check_pods.induct)
    (auto split: if_splits option.splits)

lemma check_pods_None_True:
  "check_pods t co syn ttl one pods = Inr (None, True) \<Longrightarrow>
     syn \<noteq> None \<and> DeletionTimestamp co = None \<and>
     (\<exists>p \<in> set pods. DeletionTimestamp p = None \<and> podIsCurrent co p \<and> pod_Phase p \<noteq> ''Succeeded'')"
  by (induction t co syn ttl one pods rule: check_pods.induct)
    (auto split: if_splits option.splits)

lemma shouldDeletePod_idle:
  assumes "shouldDeletePod t co syn pods ttl = Inr (None, False)"
  shows "\<forall>p \<in> set pods. DeletionTimestamp p \<noteq> None" and "length pods \<le> 1"
proof -
  show all: "\<forall>p \<in> set pods. DeletionTimestamp p \<noteq> None"
    using assms by (auto simp: shouldDeletePod_def check_pods_None_False Let_def split: if_splits)
  then have "filter (\<lambda>p. DeletionTimestamp p \<noteq> None) pods = pods"
    by simp
  then show "length pods \<le> 1"
    using assms by (auto simp: shouldDeletePod_def Let_def split: if_splits)
qed

lemma shouldSwapStates_frame:
  assumes "shouldSwapStates srt synth co = (b, co')"
  shows "DeletionTimestamp co' = DeletionTimestamp co" "Name co' = Name co"
    "Namespace co' = Namespace co" "Generation co' = Generation co" "previous co' = previous co"
    "comp_Spec co' = comp_Spec co"
    "\<exists>rs. current co' = map_option (\<lambda>c. c\<lparr>syn_InputRevisions := rs\<rparr>) (current co)"
proof -
  have noop: "\<exists>rs. current co = map_option (\<lambda>c. c\<lparr>syn_InputRevisions := rs\<rparr>) (current co)"
    by (cases "current co") (auto intro: exI [of _ "syn_InputRevisions (the (current co))"])
  show "DeletionTimestamp co' = DeletionTimestamp co" "Name co' = Name co"
    "Namespace co' = Namespace co" "Generation co' = Generation co" "previous co' = previous co"
    "comp_Spec co' = comp_Spec co"
    "\<exists>rs. current co' = map_option (\<lambda>c. c\<lparr>syn_InputRevisions := rs\<rparr>) (current co)"
    using assms noop
    by (auto simp: shouldSwapStates_def Let_def split: option.splits if_splits prod.splits)
qed

lemma createPod_creates:
  assumes "CreatePod p \<in> set (fst (createPod cfg cl co syn cur))"
  obtains live where "lc_live_pods cl (UUID cur) = Inr live"
    "\<forall>q \<in> set live. DeletionTimestamp q \<noteq> None" "newPod cfg co syn = Inr p"
  using assms
  by (auto simp: createPod_def Let_def list_ex_iff split: sum.splits if_splits)

lemma synthesize_creates:
  assumes "CreatePod p \<in> set (fst (synthesize cfg en cl co syn))"
  obtains cur live where "current co = Some cur" "UUID cur \<noteq> []" "Synthesized cur = None"
    "backoff_elapsed (now en) cur" "lc_live_pods cl (UUID cur) = Inr live"
    "\<forall>q \<in> set live. DeletionTimestamp q \<noteq> None"
proof -
  obtain b co' where sw: "shouldSwapStates (sort_revs en) syn co = (b, co')"
    by (cases "shouldSwapStates (sort_revs en) syn co")
  obtain rs where rs: "current co' = map_option (\<lambda>c. c\<lparr>syn_InputRevisions := rs\<rparr>) (current co)"
    using shouldSwapStates_frame(7) [OF sw] by blast
  from assms sw have "b = False"
    by (auto simp: synthesize_def split: bool.splits)
  with assms sw obtain cur' where cur': "current co' = Some cur'" "UUID cur' \<noteq> []" "Synthesized cur' = None"
    "backoff_elapsed (now en) cur'" "CreatePod p \<in> set (fst (createPod cfg cl co' syn cur'))"
    by (auto simp: synthesize_def backoff_elapsed_def shouldBackOffPodCreation_def Let_def
        split: option.splits if_splits)
  from rs cur'(1) obtain cur where cur: "current co = Some cur" "cur' = cur\<lparr>syn_InputRevisions := rs\<rparr>"
    by (cases "current co") auto
  have "backoff_elapsed (now en) cur"
    using cur(2) cur'(4) by (auto simp: backoff_elapsed_def split: option.splits)
  with cur'(5) show thesis
    by (elim createPod_creates) (use that cur cur' in simp)
qed

lemma no_create_in_deletion [simp]:
  "CreatePod p \<notin> set (fst (reconcileDeletedComposition en wr co))"
  by (auto simp: reconcileDeletedComposition_def split: prod.splits bool.splits)

lemma no_create_in_deletePod [simp]: "CreatePod p \<notin> set (fst (deletePod cfg cl nn))"
  by (auto simp: deletePod_def split: sum.splits option.splits)

lemma lc_with_pods_creates:
  assumes "CreatePod p \<in> set (fst (lc_with_pods cfg en cl co syn pods))"
  obtains s where "syn = Some s" "DeletionTimestamp co = None"
    "shouldDeletePod (now en) co syn pods (ContainerCreationTimeout cfg) = Inr (None, False)"
    "CreatePod p \<in> set (fst (synthesize cfg en cl co s))"
  using assms
  by (auto simp: lc_with_pods_def split: sum.splits prod.splits option.splits if_splits)

text \<open>
  C2. The handler asks for a new synthesizer pod only for a composition that exists, is not being
  deleted and holds the cleanup finalizer, whose current synthesis has been dispatched and is not
  complete, whose back-off has elapsed, and for which no live pod is known: the cached list has at
  most one pod and the uncached list by synthesis UUID only terminating ones. One call never asks
  for two pods.
\<close>
theorem create_pod_guard:
  assumes "CreatePod p \<in> set (fst (lc_Reconcile cfg en cl req))"
  shows "\<exists>co cur pods live. lc_get_comp cl req = Inr co \<and> DeletionTimestamp co = None \<and>
     cleanup_finalizer \<in> set (Finalizers co) \<and> current co = Some cur \<and> UUID cur \<noteq> [] \<and>
     Synthesized cur = None \<and> backoff_elapsed (now en) cur \<and>
     lc_list_pods cl (PodNamespace cfg) (PodByCompIdxValueFromComp co) = Inr pods \<and>
     length pods \<le> 1 \<and> list_all (\<lambda>q. DeletionTimestamp q \<noteq> None) pods \<and>
     lc_live_pods cl (UUID cur) = Inr live \<and> list_all (\<lambda>q. DeletionTimestamp q \<noteq> None) live \<and>
     length (filter (\<lambda>r. \<exists>q. r = CreatePod q) (fst (lc_Reconcile cfg en cl req))) = 1"
proof -
  from assms obtain co pods syn where
    co: "lc_get_comp cl req = Inr co" and pods: "lc_list_pods cl (PodNamespace cfg) (PodByCompIdxValueFromComp co) = Inr pods"
    and fin: "DeletionTimestamp co = None \<longrightarrow> cleanup_finalizer \<in> set (Finalizers co)"
    and out: "lc_Reconcile cfg en cl req = lc_with_pods cfg en cl co syn pods"
    by (auto simp: lc_Reconcile_def AddFinalizer_def split: sum.splits api_err.splits if_splits)
  from assms out obtain s where s: "syn = Some s" "DeletionTimestamp co = None"
    "shouldDeletePod (now en) co syn pods (ContainerCreationTimeout cfg) = Inr (None, False)"
    "CreatePod p \<in> set (fst (synthesize cfg en cl co s))"
    by (metis lc_with_pods_creates)
  have once: "lc_Reconcile cfg en cl req = synthesize cfg en cl co s"
    using out s by (simp add: lc_with_pods_def)
  have one: "length (filter (\<lambda>r. \<exists>q. r = CreatePod q) (fst (synthesize cfg en cl co s))) = 1"
    using s(4)
    by (auto simp: synthesize_def createPod_def Let_def
        split: prod.splits bool.splits option.splits sum.splits if_splits)
  from s(4) obtain cur live where "current co = Some cur" "UUID cur \<noteq> []" "Synthesized cur = None"
    "backoff_elapsed (now en) cur" "lc_live_pods cl (UUID cur) = Inr live"
    "\<forall>q \<in> set live. DeletionTimestamp q \<noteq> None"
    by (rule synthesize_creates)
  with co pods fin s shouldDeletePod_idle [OF s(3)] one once show ?thesis
    by (auto simp: list_all_iff)
qed

definition sample_lc_client :: lc_client where
  "sample_lc_client =
     \<lparr>lc_get_comp = (\<lambda>_. Inr sample_comp), lc_list_pods = (\<lambda>_ _. Inr []),
      lc_get_synth = (\<lambda>_. Inr sample_synth), lc_live_pods = (\<lambda>_. Inr []),
      lc_create_pod = (\<lambda>p. Inr (p\<lparr>CreationTimestamp := 1000 * second\<rparr>)), lc_write = (\<lambda>_. None)\<rparr>"

lemma sample_creates:
  "\<exists>p. CreatePod p \<in> set (fst (lc_Reconcile sample_config sample_env sample_lc_client (key_of sample_comp)))"
  by (simp add: lc_Reconcile_def sample_lc_client_def sample_defs AddFinalizer_def find_synth_def
      lc_with_pods_def shouldDeletePod_def synthesize_def shouldSwapStates_def inputRevisionsEqual_def
      shouldBackOffPodCreation_def createPod_def newPod_def key_of_def Let_def)

theorem create_pod_guard_witness:
  "\<exists>p. CreatePod p \<in> set (fst (lc_Reconcile sample_config sample_env sample_lc_client (key_of sample_comp))) \<and>
     (\<exists>co cur. lc_get_comp sample_lc_client (key_of sample_comp) = Inr co \<and> current co = Some cur \<and> UUID cur \<noteq> [])"
proof -
  obtain p where p: "CreatePod p \<in> set (fst (lc_Reconcile sample_config sample_env sample_lc_client (key_of sample_comp)))"
    using sample_creates by blast
  show ?thesis using p create_pod_guard [OF p] by blast
qed

text \<open>
  A pod chosen for deletion is one of the composition's pods, is not already terminating, at
  most one other pod is terminating, and there is a reason: the synthesizer is gone, the
  composition is being deleted, the pod succeeded or belongs to another synthesis, the synthesis
  is complete, or one of the two timeouts has passed. So a pod still working on the current
  synthesis within its timeouts is never chosen.
\<close>
theorem deleted_pod_reason:
  assumes "shouldDeletePod t co syn pods ttl = Inr (Some p, e)"
  shows "p \<in> set pods \<and> DeletionTimestamp p = None \<and> e \<and>
     length (filter (\<lambda>q. DeletionTimestamp q \<noteq> None) pods) \<le> 1 \<and>
     (case syn of
        None \<Rightarrow> True
      | Some s \<Rightarrow>
          DeletionTimestamp co \<noteq> None \<or> pod_Phase p = ''Succeeded'' \<or> \<not> podIsCurrent co p \<or>
          (\<exists>cur. current co = Some cur \<and> Synthesized cur \<noteq> None) \<or>
          (\<exists>st. getPodScheduledTime p = Some st \<and> t - st > ttl \<and> ContainerStatuses p = [] \<and>
             length (filter (\<lambda>q. DeletionTimestamp q \<noteq> None) pods) = 0) \<or>
          (\<exists>d. PodTimeout (synth_Spec s) = Some d \<and> t - CreationTimestamp p > d))"
proof -
  define n where "n = length (filter (\<lambda>q. DeletionTimestamp q \<noteq> None) pods)"
  have "n \<le> 1" and chk: "check_pods t co syn ttl (n = 1) pods = Inr (Some p, e)"
    using assms by (auto simp: shouldDeletePod_def n_def Let_def split: if_splits)
  have "case syn of
        None \<Rightarrow> True
      | Some s \<Rightarrow>
          DeletionTimestamp co \<noteq> None \<or> pod_Phase p = ''Succeeded'' \<or> \<not> podIsCurrent co p \<or>
          (\<exists>cur. current co = Some cur \<and> Synthesized cur \<noteq> None) \<or>
          (\<exists>st. getPodScheduledTime p = Some st \<and> t - st > ttl \<and> ContainerStatuses p = [] \<and> \<not> one) \<or>
          (\<exists>d. PodTimeout (synth_Spec s) = Some d \<and> t - CreationTimestamp p > d)"
    if "check_pods t co syn ttl one pods = Inr (Some p, e)" for one
    using that
    by (induction t co syn ttl one pods rule: check_pods.induct)
      (auto simp: creation_timed_out_def Let_def split: if_splits option.splits)
  from this [OF chk] check_pods_Some [OF chk] \<open>n \<le> 1\<close> show ?thesis
    unfolding n_def [symmetric] by (cases "n = 1") (auto split: option.splits)
qed

theorem deleted_pod_reason_witness:
  "shouldDeletePod (1000 * second) sample_comp None [sample_pod] 0 = Inr (Some sample_pod, True) \<and>
   sample_pod \<in> set [sample_pod]"
proof -
  have h: "shouldDeletePod (1000 * second) sample_comp None [sample_pod] 0 = Inr (Some sample_pod, True)"
    by (simp add: shouldDeletePod_def sample_pod_def)
  from deleted_pod_reason [OF h] h show ?thesis by blast
qed

text \<open>
  C40. The handler panics when the synthesizer of a live composition is missing (or being deleted)
  while two of the composition's pods are terminating: \<open>shouldDeletePod\<close> answers that a pod exists
  without looking at the synthesizer, and \<open>Reconcile\<close> then reads \<open>syn.Spec.PodTimeout\<close> of a nil
  synthesizer.
\<close>
theorem lc_Reconcile_nil_synthesizer_panic:
  assumes "lc_get_comp cl req = Inr co" "DeletionTimestamp co = None"
    and "cleanup_finalizer \<in> set (Finalizers co)" "current co \<noteq> None"
    and "lc_list_pods cl (PodNamespace cfg) (PodByCompIdxValueFromComp co) = Inr pods"
    and "length (filter (\<lambda>q. DeletionTimestamp q \<noteq> None) pods) > 1"
    and "lc_get_synth cl (SynthesizerName (comp_Spec co)) = Inl NotFound"
  shows "lc_Reconcile cfg en cl req = ([], Inl NilDeref)"
proof -
  have "pods \<noteq> []" using assms(6) by auto
  with assms(6) have "shouldDeletePod (now en) co None pods (ContainerCreationTimeout cfg) = Inr (None, True)"
    by (simp add: shouldDeletePod_def Let_def)
  then have "lc_with_pods cfg en cl co None pods = ([], Inl NilDeref)"
    using assms(2) by (simp add: lc_with_pods_def)
  with assms show ?thesis
    by (simp add: lc_Reconcile_def AddFinalizer_def find_synth_def)
qed

theorem lc_Reconcile_nil_synthesizer_panic_witness:
  "lc_Reconcile sample_config sample_env
     (sample_lc_client\<lparr>lc_get_synth := \<lambda>_. Inl NotFound,
        lc_list_pods := \<lambda>_ _. Inr [sample_pod\<lparr>DeletionTimestamp := Some 1\<rparr>, sample_pod\<lparr>DeletionTimestamp := Some 2\<rparr>]\<rparr>)
     (key_of sample_comp) = ([], Inl NilDeref)"
  by (rule lc_Reconcile_nil_synthesizer_panic [where co = sample_comp and
        pods = "[sample_pod\<lparr>DeletionTimestamp := Some 1\<rparr>, sample_pod\<lparr>DeletionTimestamp := Some 2\<rparr>]"])
    (simp_all add: sample_lc_client_def sample_comp_def)

text \<open>
  C3. The cleanup finalizer of a composition is released only while the composition is being
  deleted, and only when nothing was ever synthesized or the current synthesis is complete, was
  made for the composition's latest generation and is reconciled, so no revert or status update is
  outstanding.
\<close>
theorem finalizer_release_guard:
  assumes "UpdateComposition co' \<in> set (fst (lc_Reconcile cfg en cl req))"
    and "cleanup_finalizer \<notin> set (Finalizers co')"
  shows "\<exists>co. lc_get_comp cl req = Inr co \<and> DeletionTimestamp co \<noteq> None \<and>
     co' = fst (RemoveFinalizer co cleanup_finalizer) \<and>
     (case current co of
        None \<Rightarrow> previous co = None
      | Some cur \<Rightarrow> Synthesized cur \<noteq> None \<and> Reconciled cur \<noteq> None \<and>
          ObservedCompositionGeneration cur = Generation co)"
proof -
  have del: "UpdateComposition co' \<in> set (fst (reconcileDeletedComposition en wr co)) \<Longrightarrow>
      co' = fst (RemoveFinalizer co cleanup_finalizer) \<and>
      (case current co of
        None \<Rightarrow> previous co = None
      | Some cur \<Rightarrow> Synthesized cur \<noteq> None \<and> Reconciled cur \<noteq> None \<and>
          ObservedCompositionGeneration cur = Generation co)" for wr co
    by (auto simp: reconcileDeletedComposition_def shouldRevertStateSwap_def
        shouldUpdateDeletedCompositionStatus_def isReconciling_def
        split: if_splits prod.splits bool.splits option.splits)
  have no_synth: "UpdateComposition co' \<notin> set (fst (synthesize cfg en cl co s))" for co s
    by (auto simp: synthesize_def createPod_def Let_def
        split: prod.splits bool.splits option.splits sum.splits)
  from assms(1) obtain co where co: "lc_get_comp cl req = Inr co"
    by (auto simp: lc_Reconcile_def deletePod_def split: sum.splits api_err.splits option.splits)
  have "\<not> (DeletionTimestamp co = None \<and> snd (AddFinalizer co cleanup_finalizer))"
    using assms co by (auto simp: lc_Reconcile_def AddFinalizer_def split: if_splits)
  with assms(1) co obtain pods syn
    where "UpdateComposition co' \<in> set (fst (lc_with_pods cfg en cl co syn pods))"
    by (auto simp: lc_Reconcile_def split: sum.splits)
  then have "DeletionTimestamp co \<noteq> None"
    and "UpdateComposition co' \<in> set (fst (reconcileDeletedComposition en (lc_write cl) co))"
    using no_synth
    by (auto simp: lc_with_pods_def split: sum.splits prod.splits option.splits if_splits)
  with co del show ?thesis by blast
qed

definition reconciled_deleted_comp :: Composition where
  "reconciled_deleted_comp = map_current (\<lambda>c. c\<lparr>Synthesized := Some 20, Reconciled := Some 30\<rparr>)
     (sample_comp\<lparr>DeletionTimestamp := Some 15\<rparr>)"

theorem finalizer_release_guard_witness:
  "\<exists>co'. UpdateComposition co' \<in> set (fst (lc_Reconcile sample_config sample_env
       (sample_lc_client\<lparr>lc_get_comp := \<lambda>_. Inr reconciled_deleted_comp\<rparr>) (key_of sample_comp))) \<and>
     cleanup_finalizer \<notin> set (Finalizers co') \<and>
     co' = fst (RemoveFinalizer reconciled_deleted_comp cleanup_finalizer)"
proof -
  define cl where "cl = sample_lc_client\<lparr>lc_get_comp := \<lambda>_. Inr reconciled_deleted_comp\<rparr>"
  have h: "UpdateComposition (fst (RemoveFinalizer reconciled_deleted_comp cleanup_finalizer)) \<in>
     set (fst (lc_Reconcile sample_config sample_env cl (key_of sample_comp)))"
    by (simp add: cl_def lc_Reconcile_def sample_lc_client_def reconciled_deleted_comp_def sample_defs
        AddFinalizer_def RemoveFinalizer_def find_synth_def lc_with_pods_def shouldDeletePod_def
        reconcileDeletedComposition_def shouldRevertStateSwap_def shouldUpdateDeletedCompositionStatus_def
        isReconciling_def send_def)
  have f: "cleanup_finalizer \<notin> set (Finalizers (fst (RemoveFinalizer reconciled_deleted_comp cleanup_finalizer)))"
    by (simp add: RemoveFinalizer_def reconciled_deleted_comp_def sample_comp_def)
  show ?thesis using h f finalizer_release_guard [OF h f] unfolding cl_def by blast
qed

end
