(* ===== verification/Rollout.thy ===== *)
theory Rollout
  imports Synthesis_Lifecycle
begin

text \<open>
  The controllers that schedule synthesis: the synthesizer rollout controller stages a
  resynthesis when a synthesizer changes (\<open>rollout/synthesizer.go\<close>), the rollout controller starts
  staged resyntheses one at a time with a cooldown (\<open>rollout/controller.go\<close>), the concurrency
  limiter dispatches pending syntheses by giving them a UUID (\<open>controllers/flowcontrol/synthesis.go\<close>),
  and the watchdog counts compositions that are stuck (\<open>watchdog/controller.go\<close>). The random choices
  of \<open>math/rand\<close> and the outcome of \<open>sort.Slice\<close> are arguments.
\<close>

section \<open>Rollout controller\<close>

text \<open>The first loop: \<open>None\<close> when an active deferred synthesis blocks the rollout.\<close>

fun last_deferred :: "time option \<Rightarrow> Composition list \<Rightarrow> time option option" where
  "last_deferred lst [] = Some lst"
| "last_deferred lst (co # others) =
     (case current co of
        None \<Rightarrow> last_deferred lst others
      | Some cur \<Rightarrow>
          if \<not> Deferred cur then last_deferred lst others
          else if Synthesized cur = None \<and> Attempts cur < 2 then None
          else if lst = None \<or> time_before lst (Synthesized cur)
          then last_deferred (Synthesized cur) others
          else last_deferred lst others)"

fun first_cancelled :: "Composition list \<Rightarrow> Composition option" where
  "first_cancelled [] = None"
| "first_cancelled (co # others) =
     (if PendingResynthesis (comp_Status co) \<noteq> None \<and> ShouldIgnoreSideEffects co then Some co
      else first_cancelled others)"

record ro_client =
  ro_list_comps :: "api_err + Composition list"
  ro_write :: writer

definition start_deferred :: "time \<Rightarrow> Composition \<Rightarrow> Composition" where
  "start_deferred t co =
     set_status (\<lambda>s. s\<lparr>CurrentSynthesis := map_option (\<lambda>c. c\<lparr>Deferred := True\<rparr>) (CurrentSynthesis s),
                       PendingResynthesis := None\<rparr>) (SwapStates t co)"

fun start_next :: "time \<Rightarrow> duration \<Rightarrow> writer \<Rightarrow> Composition list \<Rightarrow> request handler_out" where
  "start_next t cooldown wr [] = ([], Inr done_result)"
| "start_next t cooldown wr (co # others) =
     (case (PendingResynthesis (comp_Status co), current co) of
        (Some p, Some cur) \<Rightarrow>
          if Deferred cur \<and> cooldown - (t - p) > 0
          then ([], Inr (requeue_after (cooldown - (t - p))))
          else send wr (UpdateCompositionStatus (start_deferred t co)) ''initiating resynthesis'' (requeue_after cooldown)
      | _ \<Rightarrow> start_next t cooldown wr others)"

definition ro_Reconcile ::
  "(Composition list \<Rightarrow> Composition list) \<Rightarrow> time \<Rightarrow> duration \<Rightarrow> ro_client \<Rightarrow> request handler_out" where
  "ro_Reconcile srt t cooldown cl =
     (case ro_list_comps cl of
        Inl e \<Rightarrow> ([], Inl (Wrap ''listing compositions'' e))
      | Inr comps \<Rightarrow>
          (case last_deferred None comps of
             None \<Rightarrow> ([], Inr (requeue_after cooldown))
           | Some lst \<Rightarrow>
               if (case lst of None \<Rightarrow> False | Some l \<Rightarrow> cooldown - (t - l) > 0)
               then ([], Inr (requeue_after (cooldown - (t - deref_time lst))))
               else
                 (case first_cancelled comps of
                    Some co \<Rightarrow>
                      send (ro_write cl) (UpdateCompositionStatus (set_status (\<lambda>s. s\<lparr>PendingResynthesis := None\<rparr>) co))
                        ''clearing PendingResythesis field'' done_result
                  | None \<Rightarrow> start_next t cooldown (ro_write cl) (srt comps))))"

abbreviation pending_key :: "Composition \<Rightarrow> time" where
  "pending_key co \<equiv> deref_time (PendingResynthesis (comp_Status co))"

interpretation comps_sort: go_key_sort pending_key "insertion_sort (\<lambda>a b. pending_key a < pending_key b)"
  by (rule go_key_sort_insertion_sort)

section \<open>Synthesizer rollout controller\<close>

definition isInSync :: "Synthesis \<Rightarrow> Synthesizer \<Rightarrow> bool" where
  "isInSync cur syn = (ObservedSynthesizerGeneration cur \<ge> Generation syn)"

definition rollout_eligible :: "Synthesizer \<Rightarrow> Composition \<Rightarrow> bool" where
  "rollout_eligible syn co =
     (case current co of
        None \<Rightarrow> False
      | Some cur \<Rightarrow>
          \<not> (Synthesized cur = None \<or> DeletionTimestamp co \<noteq> None \<or>
             PendingResynthesis (comp_Status co) \<noteq> None \<or> isInSync cur syn \<or>
             InputsOutOfLockstep co syn \<or> ShouldIgnoreSideEffects co))"

record sr_client =
  sr_get_synth :: "NamespacedName \<Rightarrow> api_err + Synthesizer"
  sr_list_comps :: "string \<Rightarrow> api_err + Composition list"
  sr_write :: writer

definition sr_Reconcile ::
  "(Composition list \<Rightarrow> Composition list) \<Rightarrow> time \<Rightarrow> sr_client \<Rightarrow> NamespacedName \<Rightarrow> request handler_out" where
  "sr_Reconcile shuffle t cl req =
     (case sr_get_synth cl req of
        Inl e \<Rightarrow> ([], ignore_not_found (Wrap ''gettting synthesizer'' e))
      | Inr syn \<Rightarrow>
          (case sr_list_comps cl (Name syn) of
             Inl e \<Rightarrow> ([], Inl (Wrap ''listing compositions'' e))
           | Inr comps \<Rightarrow>
               (case find (rollout_eligible syn) (shuffle comps) of
                  None \<Rightarrow> ([], Inr done_result)
                | Some co \<Rightarrow>
                    send (sr_write cl) (UpdateCompositionStatus (set_status (\<lambda>s. s\<lparr>PendingResynthesis := Some t\<rparr>) co))
                      ''swapping compisition state'' requeue_result)))"

text \<open>
  The update events that wake the controller: the new and the old object, \<open>None\<close> when it is not a
  composition, to the synthesizer name that is enqueued.
\<close>

definition comp_update_event :: "Composition option \<Rightarrow> Composition option \<Rightarrow> string option" where
  "comp_update_event newObj oldObj =
     (case newObj of
        None \<Rightarrow> None
      | Some newComp \<Rightarrow>
          (case oldObj of
             None \<Rightarrow> Some (SynthesizerName (comp_Spec newComp))
           | Some oldComp \<Rightarrow>
               if SynthesizerName (comp_Spec oldComp) = SynthesizerName (comp_Spec newComp) \<and>
                  (case (current oldComp, current newComp) of
                     (Some o', Some n) \<Rightarrow> UUID o' = UUID n \<and> Synthesized o' = Synthesized n
                   | _ \<Rightarrow> False) \<and>
                  ShouldIgnoreSideEffects oldComp = ShouldIgnoreSideEffects newComp
               then None
               else Some (SynthesizerName (comp_Spec newComp))))"

section \<open>Concurrency limiter\<close>

definition is_pending :: "Composition \<Rightarrow> bool" where
  "is_pending co = (case current co of None \<Rightarrow> False | Some cur \<Rightarrow> Synthesized cur = None \<and> UUID cur = [])"

definition is_active :: "Composition \<Rightarrow> bool" where
  "is_active co = (case current co of None \<Rightarrow> False | Some cur \<Rightarrow> Synthesized cur = None \<and> UUID cur \<noteq> [])"

fun limiter_scan :: "nat \<Rightarrow> Composition list \<Rightarrow> Composition list \<Rightarrow> nat \<times> Composition list" where
  "limiter_scan active pending [] = (active, pending)"
| "limiter_scan active pending (co # others) =
     (case current co of
        None \<Rightarrow> limiter_scan active pending others
      | Some cur \<Rightarrow>
          if Synthesized cur \<noteq> None then limiter_scan active pending others
          else if UUID cur = [] then limiter_scan active (pending @ [co]) others
          else limiter_scan (Suc active) pending others)"

definition uuid_path :: string where
  "uuid_path = ''/status/currentSynthesis/uuid''"

definition dispatch_patch :: "string \<Rightarrow> patch_op list" where
  "dispatch_patch uuid = [PTest uuid_path JNull, PAdd uuid_path (JStr uuid)]"

record cl_client =
  cl_list_comps :: "api_err + Composition list"
  cl_write :: writer

definition cl_Reconcile ::
  "(nat \<Rightarrow> nat) \<Rightarrow> env \<Rightarrow> int \<Rightarrow> duration \<Rightarrow> cl_client \<Rightarrow> request handler_out" where
  "cl_Reconcile intn en limit cooldown cl =
     (case cl_list_comps cl of
        Inl e \<Rightarrow> ([], Inl (Wrap [] e))
      | Inr comps \<Rightarrow>
          (case limiter_scan 0 [] comps of
             (active, pending) \<Rightarrow>
               if int active \<ge> limit then ([], Inr done_result)
               else if pending = [] then ([], Inr done_result)
               else
                 let i = intn (length pending) in
                 if i \<ge> length pending then ([], Inl IndexOutOfRange)
                 else
                   send (cl_write cl) (PatchCompositionStatus (key_of (pending ! i)) (dispatch_patch (newUUID en)))
                     ''writing uuid to composition status'' \<lparr>Requeue = True, RequeueAfter = cooldown\<rparr>))"

section \<open>Watchdog\<close>

definition synthesisHasReconciled :: "Synthesis option \<Rightarrow> bool" where
  "synthesisHasReconciled syn = (case syn of None \<Rightarrow> False | Some s \<Rightarrow> Reconciled s \<noteq> None)"

definition synthesisIsReady :: "Synthesis option \<Rightarrow> bool" where
  "synthesisIsReady syn = (case syn of None \<Rightarrow> False | Some s \<Rightarrow> Ready s \<noteq> None)"

definition pendingInitialReconciliation :: "time \<Rightarrow> duration \<Rightarrow> Composition \<Rightarrow> bool" where
  "pendingInitialReconciliation t threshold co =
     (\<not> synthesisHasReconciled (current co) \<and> \<not> synthesisHasReconciled (previous co) \<and>
      t - CreationTimestamp co > threshold)"

definition pendingReconciliation :: "time \<Rightarrow> duration \<Rightarrow> Composition \<Rightarrow> bool" where
  "pendingReconciliation t threshold co =
     (case current co of
        None \<Rightarrow> False
      | Some cur \<Rightarrow>
          (case Initialized cur of
             None \<Rightarrow> False
           | Some i \<Rightarrow> \<not> synthesisHasReconciled (current co) \<and> t - i > threshold))"

definition timeSinceReconcilePastThreshold :: "time \<Rightarrow> duration \<Rightarrow> Composition \<Rightarrow> bool" where
  "timeSinceReconcilePastThreshold t threshold co =
     (case current co of
        None \<Rightarrow> False
      | Some cur \<Rightarrow> (case Reconciled cur of None \<Rightarrow> False | Some r \<Rightarrow> t - r > threshold))"

definition pendingReadiness :: "time \<Rightarrow> duration \<Rightarrow> Composition \<Rightarrow> bool" where
  "pendingReadiness t threshold co =
     (\<not> synthesisIsReady (current co) \<and> \<not> synthesisIsReady (previous co) \<and>
      timeSinceReconcilePastThreshold t threshold co)"

definition inTerminalError :: "Composition \<Rightarrow> bool" where
  "inTerminalError co = (case current co of None \<Rightarrow> False | Some s \<Rightarrow> Synthesized s = None \<and> Failed s)"

record gauges =
  g_pendingInit :: nat
  g_stuck :: nat
  g_unready :: nat
  g_terminal :: nat

definition wd_Reconcile :: "time \<Rightarrow> duration \<Rightarrow> api_err + Composition list \<Rightarrow> api_err + gauges" where
  "wd_Reconcile t threshold listing =
     (case listing of
        Inl e \<Rightarrow> Inl e
      | Inr comps \<Rightarrow>
          Inr (fold (\<lambda>co g. g\<lparr>
                  g_pendingInit := g_pendingInit g + of_bool (pendingInitialReconciliation t threshold co),
                  g_stuck := g_stuck g + of_bool (pendingReconciliation t threshold co),
                  g_unready := g_unready g + of_bool (pendingReadiness t threshold co),
                  g_terminal := g_terminal g + of_bool (inTerminalError co)\<rparr>)
               comps \<lparr>g_pendingInit = 0, g_stuck = 0, g_unready = 0, g_terminal = 0\<rparr>))"

section \<open>Lemmas\<close>

lemma limiter_scan_spec:
  "limiter_scan a p comps = (a + length (filter is_active comps), p @ filter is_pending comps)"
  by (induction a p comps rule: limiter_scan.induct)
    (auto simp: is_active_def is_pending_def split: option.splits)

lemma first_cancelled_find:
  "first_cancelled comps = find (\<lambda>co. PendingResynthesis (comp_Status co) \<noteq> None \<and> ShouldIgnoreSideEffects co) comps"
  by (induction comps) auto

definition deferred_done :: "time \<Rightarrow> Composition \<Rightarrow> bool" where
  "deferred_done limit co =
     (case current co of
        None \<Rightarrow> True
      | Some cur \<Rightarrow> Deferred cur \<longrightarrow>
          (case Synthesized cur of None \<Rightarrow> Attempts cur \<ge> 2 | Some s \<Rightarrow> s \<le> limit))"

lemma last_deferred_bound:
  assumes "last_deferred lst comps = Some lst'"
    and "case lst' of None \<Rightarrow> True | Some l \<Rightarrow> l \<le> limit"
  shows "(case lst of None \<Rightarrow> True | Some l \<Rightarrow> l \<le> limit) \<and> (\<forall>co \<in> set comps. deferred_done limit co)"
  using assms
proof (induction lst comps rule: last_deferred.induct)
  case (2 lst co others)
  show ?case
  proof (cases "current co")
    case None
    with 2 show ?thesis by (auto simp: deferred_done_def)
  next
    case (Some cur)
    show ?thesis
    proof (cases "Deferred cur")
      case False
      with Some 2 show ?thesis by (auto simp: deferred_done_def)
    next
      case True
      with Some 2 show ?thesis
        by (cases lst; cases "Synthesized cur") (force simp: deferred_done_def split: if_splits)+
    qed
  qed
qed auto

lemma start_next_update:
  assumes "UpdateCompositionStatus co' \<in> set (fst (start_next t cooldown wr comps))"
  shows "\<exists>xs co ys p cur. comps = xs @ co # ys \<and> PendingResynthesis (comp_Status co) = Some p \<and> current co = Some cur \<and>
     (\<forall>x \<in> set xs. PendingResynthesis (comp_Status x) = None \<or> current x = None) \<and>
     (Deferred cur \<longrightarrow> p + cooldown \<le> t) \<and> co' = start_deferred t co"
  using assms
proof (induction comps)
  case (Cons co others)
  show ?case
  proof (cases "PendingResynthesis (comp_Status co) = None \<or> current co = None")
    case True
    then have "start_next t cooldown wr (co # others) = start_next t cooldown wr others"
      by (auto split: option.splits)
    with Cons obtain xs co1 ys p cur where
      "others = xs @ co1 # ys" "PendingResynthesis (comp_Status co1) = Some p" "current co1 = Some cur"
      "\<forall>x \<in> set xs. PendingResynthesis (comp_Status x) = None \<or> current x = None"
      "Deferred cur \<longrightarrow> p + cooldown \<le> t" "co' = start_deferred t co1"
      by auto
    with True show ?thesis by (intro exI [of _ "co # xs"]) auto
  next
    case False
    with Cons.prems show ?thesis
      by (intro exI [of _ "[]"]) (auto split: if_splits)
  qed
qed simp

lemma ro_Reconcile_update:
  assumes "UpdateCompositionStatus co' \<in> set (fst (ro_Reconcile srt t cooldown cl))" "ro_list_comps cl = Inr comps"
  shows "\<exists>lst. last_deferred None comps = Some lst \<and> (case lst of None \<Rightarrow> True | Some l \<Rightarrow> l \<le> t - cooldown) \<and>
     (case first_cancelled comps of
        Some co \<Rightarrow> co' = set_status (\<lambda>s. s\<lparr>PendingResynthesis := None\<rparr>) co
      | None \<Rightarrow> UpdateCompositionStatus co' \<in> set (fst (start_next t cooldown (ro_write cl) (srt comps))))"
  using assms by (auto simp: ro_Reconcile_def split: option.splits if_splits)

definition oldest_pending :: "Composition list \<Rightarrow> Composition \<Rightarrow> bool" where
  "oldest_pending comps co =
     (\<exists>p. PendingResynthesis (comp_Status co) = Some p \<and> current co \<noteq> None \<and>
        list_all (\<lambda>x. case PendingResynthesis (comp_Status x) of
                        None \<Rightarrow> True | Some q \<Rightarrow> current x = None \<or> p \<le> q) comps)"

lemma start_next_oldest:
  assumes "go_key_sort pending_key srt"
    and "UpdateCompositionStatus co' \<in> set (fst (start_next t cooldown wr (srt comps)))"
  shows "\<exists>co \<in> set comps. oldest_pending comps co \<and> co' = start_deferred t co"
proof -
  from start_next_update [OF assms(2)] obtain xs co ys p cur where
    s: "srt comps = xs @ co # ys" "PendingResynthesis (comp_Status co) = Some p" "current co = Some cur"
       "\<forall>x \<in> set xs. PendingResynthesis (comp_Status x) = None \<or> current x = None" "co' = start_deferred t co"
    by blast
  have "set comps = set xs \<union> {co} \<union> set ys"
    using s(1) go_key_sort.key_srt_basics(1) [OF assms(1), of comps] by auto
  moreover have "\<forall>y \<in> set ys. p \<le> pending_key y"
    using go_key_sort.sorted_keys [OF assms(1), of comps] s(1,2) by (auto simp: sorted_append)
  ultimately show ?thesis
    using s(2-5) by (fastforce simp: oldest_pending_def list_all_iff split: option.splits)
qed

text \<open>
  C25. The rollout controller writes a composition only when no deferred synthesis is in its first
  two attempts and the last one that completed did so at least one cooldown ago. What it writes is
  the cancellation of a pending resynthesis of a composition that ignores side effects, or the start of
  a deferred resynthesis of the composition that has been pending longest.
\<close>
theorem rollout_cooldown_fifo:
  assumes "go_key_sort pending_key srt" and "ro_list_comps cl = Inr comps"
    and "UpdateCompositionStatus co' \<in> set (fst (ro_Reconcile srt t cooldown cl))"
  shows "list_all (deferred_done (t - cooldown)) comps \<and>
     (\<exists>co \<in> set comps.
        ShouldIgnoreSideEffects co \<and> co' = set_status (\<lambda>s. s\<lparr>PendingResynthesis := None\<rparr>) co \<or>
        oldest_pending comps co \<and> \<not> ShouldIgnoreSideEffects co \<and> co' = start_deferred t co)"
proof -
  from ro_Reconcile_update [OF assms(3,2)] obtain lst where
    lst: "last_deferred None comps = Some lst" "case lst of None \<Rightarrow> True | Some l \<Rightarrow> l \<le> t - cooldown"
      "case first_cancelled comps of
        Some co \<Rightarrow> co' = set_status (\<lambda>s. s\<lparr>PendingResynthesis := None\<rparr>) co
      | None \<Rightarrow> UpdateCompositionStatus co' \<in> set (fst (start_next t cooldown (ro_write cl) (srt comps)))"
    by blast
  have quiet: "list_all (deferred_done (t - cooldown)) comps"
    using last_deferred_bound [OF lst(1,2)] by (simp add: list_all_iff)
  show ?thesis
  proof (cases "first_cancelled comps")
    case None
    then have none: "\<forall>co \<in> set comps. PendingResynthesis (comp_Status co) = None \<or> \<not> ShouldIgnoreSideEffects co"
      by (auto simp: first_cancelled_find find_None_P)
    have "UpdateCompositionStatus co' \<in> set (fst (start_next t cooldown (ro_write cl) (srt comps)))"
      using lst(3) None by simp
    from start_next_oldest [OF assms(1) this]
    obtain co where "co \<in> set comps" "oldest_pending comps co" "co' = start_deferred t co" by blast
    with quiet none show ?thesis by (force simp: oldest_pending_def)
  next
    case (Some co)
    then have "co \<in> set comps \<and> ShouldIgnoreSideEffects co"
      using find_Some_P by (fastforce simp: first_cancelled_find)
    with quiet lst(3) Some show ?thesis by auto
  qed
qed

definition pending_comp :: "string \<Rightarrow> time \<Rightarrow> Composition" where
  "pending_comp n t = set_status (\<lambda>s. s\<lparr>PendingResynthesis := Some t\<rparr>) (sample_comp\<lparr>Name := n\<rparr>)"

definition sample_ro_client :: ro_client where
  "sample_ro_client = \<lparr>ro_list_comps = Inr [pending_comp ''a'' 20, pending_comp ''b'' 10], ro_write = (\<lambda>_. None)\<rparr>"

theorem rollout_cooldown_fifo_witness:
  "fst (ro_Reconcile (insertion_sort (\<lambda>a b. pending_key a < pending_key b)) 100 30 sample_ro_client) =
     [UpdateCompositionStatus (start_deferred 100 (pending_comp ''b'' 10))] \<and>
   list_all (deferred_done 70) [pending_comp ''a'' 20, pending_comp ''b'' 10]"
proof -
  have s: "fst (ro_Reconcile (insertion_sort (\<lambda>a b. pending_key a < pending_key b)) 100 30 sample_ro_client) =
     [UpdateCompositionStatus (start_deferred 100 (pending_comp ''b'' 10))]"
    by (simp add: ro_Reconcile_def sample_ro_client_def pending_comp_def insertion_sort_def
        ShouldIgnoreSideEffects_def sample_defs)
  then have u: "UpdateCompositionStatus (start_deferred 100 (pending_comp ''b'' 10)) \<in>
      set (fst (ro_Reconcile (insertion_sort (\<lambda>a b. pending_key a < pending_key b)) 100 30 sample_ro_client))"
    by simp
  have l: "ro_list_comps sample_ro_client = Inr [pending_comp ''a'' 20, pending_comp ''b'' 10]"
    by (simp add: sample_ro_client_def)
  from rollout_cooldown_fifo [OF comps_sort.go_key_sort_axioms l u] s show ?thesis by simp
qed

text \<open>
  The limiter dispatches exactly when it may: given a choice within range, it sends one patch
  if fewer syntheses are active than the limit and one is pending, and nothing otherwise. The patch
  goes to a pending composition, tests that it has no UUID yet and adds one.
\<close>
theorem limiter_dispatch:
  assumes "cl_list_comps cl = Inr comps"
    and "filter is_pending comps \<noteq> [] \<Longrightarrow> intn (length (filter is_pending comps)) < length (filter is_pending comps)"
  shows "fst (cl_Reconcile intn en limit cooldown cl) =
     (if int (length (filter is_active comps)) < limit \<and> list_ex is_pending comps
      then [PatchCompositionStatus (key_of (filter is_pending comps ! intn (length (filter is_pending comps))))
              [PTest uuid_path JNull, PAdd uuid_path (JStr (newUUID en))]]
      else [])"
proof (cases "filter is_pending comps = []")
  case True
  then have "\<not> list_ex is_pending comps" by (auto simp: list_ex_iff filter_empty_conv)
  with True assms(1) show ?thesis by (simp add: cl_Reconcile_def limiter_scan_spec)
next
  case False
  then have "list_ex is_pending comps" by (auto simp: list_ex_iff filter_empty_conv)
  with False assms(1) assms(2) [OF False] show ?thesis
    by (simp add: cl_Reconcile_def limiter_scan_spec Let_def dispatch_patch_def)
qed

theorem limiter_dispatch_witness:
  "fst (cl_Reconcile (\<lambda>_. 0) sample_env 1 0 \<lparr>cl_list_comps = Inr [map_current (\<lambda>s. s\<lparr>UUID := []\<rparr>) sample_comp], cl_write = (\<lambda>_. None)\<rparr>) =
     [PatchCompositionStatus (key_of sample_comp) [PTest uuid_path JNull, PAdd uuid_path (JStr ''fresh'')]]"
  using limiter_dispatch [of "\<lparr>cl_list_comps = Inr [map_current (\<lambda>s. s\<lparr>UUID := []\<rparr>) sample_comp], cl_write = (\<lambda>_. None)\<rparr>"
      "[map_current (\<lambda>s. s\<lparr>UUID := []\<rparr>) sample_comp]" "\<lambda>_. 0" sample_env 1 0]
  by (simp add: is_active_def is_pending_def key_of_def sample_defs)

lemma find_shuffled:
  assumes "set ys = set xs"
  shows "(find P ys = None) = (\<not> list_ex P xs)"
  using assms by (auto simp: find_None_P list_ex_iff)

text \<open>
  C34. The synthesizer rollout is live and staged one composition at a time: whatever the shuffle,
  if the write is accepted, the handler stages exactly one eligible composition and asks to be
  requeued while any is left, and finishes without a write when none is eligible. A staged
  composition is no longer eligible, so the requeueing ends.
\<close>
theorem synthesizer_rollout_progress:
  assumes "sr_get_synth cl req = Inr syn" "sr_list_comps cl (Name syn) = Inr comps"
    and "set (shuffle comps) = set comps" "\<And>r. sr_write cl r = None"
  shows "(if list_ex (rollout_eligible syn) comps
          then \<exists>co \<in> set comps. rollout_eligible syn co \<and>
                 sr_Reconcile shuffle t cl req =
                   ([UpdateCompositionStatus (set_status (\<lambda>s. s\<lparr>PendingResynthesis := Some t\<rparr>) co)], Inr requeue_result) \<and>
                 \<not> rollout_eligible syn (set_status (\<lambda>s. s\<lparr>PendingResynthesis := Some t\<rparr>) co)
          else sr_Reconcile shuffle t cl req = ([], Inr done_result))"
proof (cases "find (rollout_eligible syn) (shuffle comps)")
  case None
  then have "\<not> list_ex (rollout_eligible syn) comps"
    by (simp add: find_shuffled [OF assms(3)])
  with None assms(1,2) show ?thesis
    by (simp add: sr_Reconcile_def)
next
  case (Some co)
  with find_shuffled [of "shuffle comps" comps "rollout_eligible syn", OF assms(3)] have ex: "list_ex (rollout_eligible syn) comps" by simp
  have co: "co \<in> set comps" "rollout_eligible syn co"
    using find_Some_P [OF Some] assms(3) by auto
  have "\<not> rollout_eligible syn (set_status (\<lambda>s. s\<lparr>PendingResynthesis := Some t\<rparr>) co)"
    by (simp add: rollout_eligible_def split: option.splits)
  with Some co ex assms(1,2,4) show ?thesis
    by (auto simp: sr_Reconcile_def)
qed

definition sample_sr_client :: sr_client where
  "sample_sr_client =
     \<lparr>sr_get_synth = (\<lambda>_. Inr sample_synth),
      sr_list_comps = (\<lambda>_. Inr [map_current (\<lambda>s. s\<lparr>Synthesized := Some 11\<rparr>) sample_comp]),
      sr_write = (\<lambda>_. None)\<rparr>"

theorem synthesizer_rollout_progress_witness:
  "snd (sr_Reconcile rev 50 sample_sr_client (key_of sample_synth)) = Inr requeue_result"
proof -
  let ?co = "map_current (\<lambda>s. s\<lparr>Synthesized := Some 11\<rparr>) sample_comp"
  have h: "sr_get_synth sample_sr_client (key_of sample_synth) = Inr sample_synth"
    "sr_list_comps sample_sr_client (Name sample_synth) = Inr [?co]"
    "set (rev [?co]) = set [?co]" "\<And>r. sr_write sample_sr_client r = None"
    by (simp_all add: sample_sr_client_def)
  have "rollout_eligible sample_synth ?co"
    by (simp add: rollout_eligible_def isInSync_def InputsOutOfLockstep_def ShouldIgnoreSideEffects_def sample_defs)
  with synthesizer_rollout_progress [of sample_sr_client "key_of sample_synth" sample_synth "[?co]" rev 50, OF h]
  show ?thesis by simp
qed

end
