(* ===== verification/Slicing.thy ===== *)
theory Slicing
  imports Eno_Samples
begin

text \<open>
  \<open>resource.Slice\<close> (\<open>internal/resource/slicing.go\<close>): merging a synthesizer's outputs onto the previous
  resource slices. Objects are seen through the accessors the code calls; JSON encoding, decoding
  and \<open>ParseGroupVersion\<close> belong to apimachinery and are fields of the parameter \<open>codec\<close>.
\<close>

section \<open>Objects and references\<close>

record GroupVersionKind =
  gvk_Group :: string
  gvk_Version :: string
  gvk_Kind :: string

record Unstructured =
  u_GVK :: GroupVersionKind
  u_APIVersion :: string
  u_Name :: string
  u_Namespace :: string
  u_Annotations :: strmap
  u_ResourceVersion :: string
  u_DeletionTimestamp :: "time option"
  u_NestedString :: "(string list \<times> string) list"

definition NestedString :: "Unstructured \<Rightarrow> string list \<Rightarrow> string" where
  "NestedString u path = (case map_of (u_NestedString u) path of None \<Rightarrow> [] | Some v \<Rightarrow> v)"

record codec =
  MarshalJSON :: "Unstructured \<Rightarrow> string option"
  UnmarshalJSON :: "string \<Rightarrow> Unstructured option"
  ParseGroupVersion :: "string \<Rightarrow> (string \<times> string) option"

definition patchGVK :: GroupVersionKind where
  "patchGVK = \<lparr>gvk_Group = ''eno.azure.io'', gvk_Version = ''v1'', gvk_Kind = ''Patch''\<rparr>"

record resourceRef =
  r_Name :: string
  r_Namespace :: string
  r_Kind :: string
  r_Group :: string

definition newResourceRef :: "codec \<Rightarrow> Unstructured \<Rightarrow> resourceRef" where
  "newResourceRef cd obj =
     (if u_GVK obj = patchGVK then
        let apiVersion = NestedString obj [''patch'', ''apiVersion''];
            kind = NestedString obj [''patch'', ''kind''];
            group = (case ParseGroupVersion cd apiVersion of None \<Rightarrow> [] | Some (g, v) \<Rightarrow> g)
        in \<lparr>r_Name = u_Name obj, r_Namespace = u_Namespace obj, r_Kind = kind, r_Group = group\<rparr>
      else
        \<lparr>r_Name = u_Name obj, r_Namespace = u_Namespace obj, r_Kind = gvk_Kind (u_GVK obj),
         r_Group = gvk_Group (u_GVK obj)\<rparr>)"

section \<open>Manifests and tombstones\<close>

fun output_manifests :: "codec \<Rightarrow> Unstructured list \<Rightarrow> error + Manifest list" where
  "output_manifests cd [] = Inr []"
| "output_manifests cd (output # outputs) =
     (case MarshalJSON cd output of
        None \<Rightarrow> Inl (Terminal ''encoding output'')
      | Some js \<Rightarrow>
          (case output_manifests cd outputs of
             Inl e \<Rightarrow> Inl e
           | Inr ms \<Rightarrow> Inr (\<lparr>manifest = js, m_Deleted = False\<rparr> # ms)))"

text \<open>Whether the deletion of resource \<open>i\<close> is already reconciled; reading past the status panics.\<close>

definition deletion_reconciled :: "ResourceSlice \<Rightarrow> nat \<Rightarrow> Manifest \<Rightarrow> error + bool" where
  "deletion_reconciled slice i res =
     (if m_Deleted res \<or> DeletionTimestamp slice \<noteq> None then
        (case slice_Status slice of
           None \<Rightarrow> Inr False
         | Some states \<Rightarrow> if i < length states then Inr (rs_Reconciled (states ! i)) else Inl IndexOutOfRange)
      else Inr False)"

fun slice_tombstones ::
  "codec \<Rightarrow> resourceRef set \<Rightarrow> ResourceSlice \<Rightarrow> nat \<Rightarrow> Manifest list \<Rightarrow> error + Manifest list" where
  "slice_tombstones cd refs slice i [] = Inr []"
| "slice_tombstones cd refs slice i (res # rest) =
     (case UnmarshalJSON cd (manifest res) of
        None \<Rightarrow> Inl (Terminal ''decoding resource'')
      | Some obj \<Rightarrow>
          if u_GVK obj = patchGVK \<or> newResourceRef cd obj \<in> refs
          then slice_tombstones cd refs slice (Suc i) rest
          else
            (case deletion_reconciled slice i res of
               Inl e \<Rightarrow> Inl e
             | Inr True \<Rightarrow> slice_tombstones cd refs slice (Suc i) rest
             | Inr False \<Rightarrow>
                 (case slice_tombstones cd refs slice (Suc i) rest of
                    Inl e \<Rightarrow> Inl e
                  | Inr ms \<Rightarrow> Inr (res\<lparr>m_Deleted := True\<rparr> # ms))))"

fun tombstones :: "codec \<Rightarrow> resourceRef set \<Rightarrow> ResourceSlice list \<Rightarrow> error + Manifest list" where
  "tombstones cd refs [] = Inr []"
| "tombstones cd refs (slice # slices) =
     (case slice_tombstones cd refs slice 0 (Resources (slice_Spec slice)) of
        Inl e \<Rightarrow> Inl e
      | Inr ms \<Rightarrow>
          (case tombstones cd refs slices of Inl e \<Rightarrow> Inl e | Inr ms' \<Rightarrow> Inr (ms @ ms')))"

section \<open>Building the slices\<close>

fun partition_manifests :: "nat \<Rightarrow> nat \<Rightarrow> Manifest list list \<Rightarrow> Manifest list \<Rightarrow> Manifest list list" where
  "partition_manifests maxJsonBytes sliceBytes groups [] = groups"
| "partition_manifests maxJsonBytes sliceBytes groups (m # ms) =
     (if groups = [] \<or> sliceBytes \<ge> maxJsonBytes
      then partition_manifests maxJsonBytes (length (manifest m)) (groups @ [[m]]) ms
      else partition_manifests maxJsonBytes (sliceBytes + length (manifest m))
             (butlast groups @ [last groups @ [m]]) ms)"

definition new_slice :: "Composition \<Rightarrow> Manifest list \<Rightarrow> ResourceSlice" where
  "new_slice co ms =
     \<lparr>Name = [], Namespace = Namespace co, GenerateName = Name co @ ''-'', UID = [],
      ResourceVersion = [], Generation = 0, CreationTimestamp = 0, DeletionTimestamp = None,
      Labels = None, Annotations = None, Finalizers = [cleanup_finalizer],
      OwnerReferences = [\<lparr>or_Kind = ''Composition'', or_Name = Name co, or_UID = UID co, or_Controller = True\<rparr>],
      slice_Spec =
        \<lparr>CompositionGeneration = Generation co,
         SynthesisUUID = (case current co of None \<Rightarrow> [] | Some cur \<Rightarrow> UUID cur),
         Attempt = (case current co of None \<Rightarrow> 0 | Some cur \<Rightarrow> Attempts cur),
         Resources = ms\<rparr>,
      slice_Status = None\<rparr>"

definition Slice ::
  "codec \<Rightarrow> Composition \<Rightarrow> ResourceSlice list \<Rightarrow> Unstructured list \<Rightarrow> nat \<Rightarrow> error + ResourceSlice list" where
  "Slice cd co previous_slices outputs maxJsonBytes =
     (case output_manifests cd outputs of
        Inl e \<Rightarrow> Inl e
      | Inr ms \<Rightarrow>
          (case tombstones cd (newResourceRef cd ` set outputs) previous_slices of
             Inl e \<Rightarrow> Inl e
           | Inr ts \<Rightarrow> Inr (map (new_slice co) (partition_manifests maxJsonBytes 0 [] (ms @ ts)))))"

section \<open>Specification\<close>

definition manifest_bytes :: "Manifest list \<Rightarrow> nat" where
  "manifest_bytes ms = sum_list (map (length \<circ> manifest) ms)"

abbreviation slice_resources :: "ResourceSlice \<Rightarrow> Manifest list" where
  "slice_resources s \<equiv> Resources (slice_Spec s)"

text \<open>The resources of a previous slice that need a tombstone, as a filter.\<close>

definition needs_tombstone :: "codec \<Rightarrow> resourceRef set \<Rightarrow> ResourceSlice \<Rightarrow> nat \<Rightarrow> Manifest \<Rightarrow> bool" where
  "needs_tombstone cd refs slice i res =
     (case UnmarshalJSON cd (manifest res) of
        None \<Rightarrow> False
      | Some obj \<Rightarrow>
          u_GVK obj \<noteq> patchGVK \<and> newResourceRef cd obj \<notin> refs \<and>
          deletion_reconciled slice i res \<noteq> Inr True)"

definition tombstones_spec :: "codec \<Rightarrow> resourceRef set \<Rightarrow> ResourceSlice \<Rightarrow> nat \<Rightarrow> Manifest list \<Rightarrow> Manifest list" where
  "tombstones_spec cd refs slice i rs =
     map (\<lambda>(j, r). r\<lparr>m_Deleted := True\<rparr>)
       (filter (\<lambda>(j, r). needs_tombstone cd refs slice j r) (enumerate i rs))"

definition partition_ok :: "nat \<Rightarrow> Manifest list list \<Rightarrow> bool" where
  "partition_ok mx groups =
     ((\<forall>g \<in> set groups. g \<noteq> [] \<and> (length g > 1 \<longrightarrow> manifest_bytes (butlast g) < mx)) \<and>
      (\<forall>g \<in> set (butlast groups). mx \<le> manifest_bytes g))"

section \<open>Lemmas\<close>

lemma output_manifests_Inr:
  "output_manifests cd outputs = Inr ms \<longleftrightarrow>
     map (MarshalJSON cd) outputs = map (Some \<circ> manifest) ms \<and> (\<forall>m \<in> set ms. \<not> m_Deleted m)"
proof (induction cd outputs arbitrary: ms rule: output_manifests.induct)
  case (1 cd)
  then show ?case by auto
next
  case (2 cd out outs)
  then show ?case
    by (cases ms) (auto split: option.splits sum.splits)
qed

lemma tombstones_spec_simps [simp]:
  "tombstones_spec cd refs slice i [] = []"
  "tombstones_spec cd refs slice i (r # rs) =
     (if needs_tombstone cd refs slice i r then [r\<lparr>m_Deleted := True\<rparr>] else []) @
     tombstones_spec cd refs slice (Suc i) rs"
  by (simp_all add: tombstones_spec_def)

lemma slice_tombstones_spec:
  "slice_tombstones cd refs slice i rs = Inr ms \<Longrightarrow> ms = tombstones_spec cd refs slice i rs"
proof (induction cd refs slice i rs arbitrary: ms rule: slice_tombstones.induct)
  case (1 cd refs slice i)
  then show ?case by simp
next
  case (2 cd refs slice i res rest)
  from 2(4) obtain obj where obj: "UnmarshalJSON cd (manifest res) = Some obj"
    by (auto split: option.splits)
  show ?case
  proof (cases "u_GVK obj = patchGVK \<or> newResourceRef cd obj \<in> refs")
    case True
    with 2(4) obj have "slice_tombstones cd refs slice (Suc i) rest = Inr ms" by simp
    with 2(1) obj True show ?thesis by (auto simp: needs_tombstone_def)
  next
    case False
    with 2 obj show ?thesis
      by (cases "deletion_reconciled slice i res")
        (auto simp: needs_tombstone_def split: bool.splits sum.splits)
  qed
qed

lemma tombstones_Inr:
  "tombstones cd refs slices = Inr ms \<Longrightarrow>
     ms = concat (map (\<lambda>s. tombstones_spec cd refs s 0 (slice_resources s)) slices)"
  by (induction cd refs slices arbitrary: ms rule: tombstones.induct)
    (auto dest!: slice_tombstones_spec split: sum.splits)

lemma concat_snoc_last: "groups \<noteq> [] \<Longrightarrow> concat (butlast groups) @ last groups = concat groups"
  by (metis append_butlast_last_id concat_append concat.simps append_Nil2)

lemma concat_partition: "concat (partition_manifests mx b groups ms) = concat groups @ ms"
  by (induction mx b groups ms rule: partition_manifests.induct)
    (simp_all add: concat_snoc_last flip: append_assoc)

lemma manifest_bytes_snoc [simp]: "manifest_bytes (ms @ [m]) = manifest_bytes ms + length (manifest m)"
  by (simp add: manifest_bytes_def)

lemma partition_ok_partition:
  "partition_ok mx groups \<Longrightarrow> groups \<noteq> [] \<Longrightarrow> b = manifest_bytes (last groups) \<Longrightarrow>
     partition_ok mx (partition_manifests mx b groups ms)"
proof (induction mx b groups ms rule: partition_manifests.induct)
  case (1 mx b groups)
  then show ?case by simp
next
  case (2 mx b groups m ms)
  obtain gs g where groups: "groups = gs @ [g]"
    using 2(4) by (metis append_butlast_last_id)
  show ?case
  proof (cases "mx \<le> b")
    case True
    have "partition_ok mx (groups @ [[m]])"
      using 2(3,5) True groups by (auto simp: partition_ok_def butlast_append)
    then have "partition_ok mx (partition_manifests mx (length (manifest m)) (groups @ [[m]]) ms)"
      using 2(1) True by (simp add: manifest_bytes_def)
    with True show ?thesis by simp
  next
    case False
    have "partition_ok mx (gs @ [g @ [m]])"
      using 2(3,5) False groups by (auto simp: partition_ok_def butlast_append)
    then have "partition_ok mx (partition_manifests mx (b + length (manifest m)) (gs @ [g @ [m]]) ms)"
      using 2(2,4,5) False groups by simp
    with False 2(4) groups show ?thesis by simp
  qed
qed

lemma partition_ok_Slice: "partition_ok mx (partition_manifests mx 0 [] ms)"
proof (cases ms)
  case Nil
  then show ?thesis by (simp add: partition_ok_def)
next
  case (Cons m ms')
  have "partition_ok mx (partition_manifests mx (length (manifest m)) [[m]] ms')"
    by (rule partition_ok_partition) (simp_all add: partition_ok_def manifest_bytes_def)
  with Cons show ?thesis by simp
qed

lemma Slice_Inr:
  assumes "Slice cd co prev outs mx = Inr slices"
  obtains ms where "output_manifests cd outs = Inr ms"
    "slices = map (new_slice co) (partition_manifests mx 0 []
       (ms @ concat (map (\<lambda>s. tombstones_spec cd (newResourceRef cd ` set outs) s 0 (slice_resources s)) prev)))"
  using assms by (auto simp: Slice_def dest!: tombstones_Inr split: sum.splits)

lemma slice_resources_new_slice [simp]: "slice_resources (new_slice co ms) = ms"
  by (simp add: new_slice_def)

lemma concat_slices:
  "concat (map slice_resources (map (new_slice co) groups)) = concat groups"
  by (induction groups) simp_all

lemma mem_tombstones_spec:
  "t \<in> set (tombstones_spec cd refs slice i rs) \<longleftrightarrow>
     (\<exists>j < length rs. needs_tombstone cd refs slice (i + j) (rs ! j) \<and> t = (rs ! j)\<lparr>m_Deleted := True\<rparr>)"
  by (induction rs arbitrary: i) (auto simp: Ex_less_Suc2)

text \<open>
  C27. When \<open>Slice\<close> succeeds, the manifests of the new slices, read in order, are the encoded
  outputs followed by one tombstone for each resource of the previous slices that needs one: it is
  not a patch, no output has its reference, and its deletion has not been reconciled yet. Nothing
  else is added and nothing is lost or reordered by the partitioning.
\<close>
theorem Slice_contents:
  assumes "Slice cd co prev outs mx = Inr slices"
  shows "\<exists>ms. map (MarshalJSON cd) outs = map (Some \<circ> manifest) ms \<and> list_all (\<lambda>m. \<not> m_Deleted m) ms \<and>
     concat (map slice_resources slices) =
       ms @ concat (map (\<lambda>s. tombstones_spec cd (newResourceRef cd ` set outs) s 0 (slice_resources s)) prev)"
proof -
  from assms obtain ms where ms: "output_manifests cd outs = Inr ms"
    "slices = map (new_slice co) (partition_manifests mx 0 []
       (ms @ concat (map (\<lambda>s. tombstones_spec cd (newResourceRef cd ` set outs) s 0 (slice_resources s)) prev)))"
    by (rule Slice_Inr)
  then show ?thesis
    by (auto simp: output_manifests_Inr list_all_iff concat_slices concat_partition simp del: map_map)
qed

definition sample_obj :: "string \<Rightarrow> Unstructured" where
  "sample_obj n = \<lparr>u_GVK = \<lparr>gvk_Group = [], gvk_Version = ''v1'', gvk_Kind = ''ConfigMap''\<rparr>,
     u_APIVersion = ''v1'', u_Name = n, u_Namespace = ''ns'', u_Annotations = None,
     u_ResourceVersion = [], u_DeletionTimestamp = None, u_NestedString = []\<rparr>"

definition sample_codec :: codec where
  "sample_codec = \<lparr>MarshalJSON = (\<lambda>u. Some (u_Name u)), UnmarshalJSON = (\<lambda>s. Some (sample_obj s)),
     ParseGroupVersion = (\<lambda>s. Some ([], s))\<rparr>"

lemmas slicing_eval = Slice_def sample_codec_def sample_obj_def newResourceRef_def patchGVK_def
  deletion_reconciled_def sample_slice_def new_slice_def

theorem Slice_contents_witness:
  "\<exists>slices. Slice sample_codec sample_comp [sample_slice] [sample_obj ''a'', sample_obj ''bb''] 2 = Inr slices \<and>
     concat (map slice_resources slices) =
       [\<lparr>manifest = ''a'', m_Deleted = False\<rparr>, \<lparr>manifest = ''bb'', m_Deleted = False\<rparr>, \<lparr>manifest = ''m'', m_Deleted = True\<rparr>]"
proof -
  obtain slices where s: "Slice sample_codec sample_comp [sample_slice] [sample_obj ''a'', sample_obj ''bb''] 2 = Inr slices"
    by (simp add: slicing_eval)
  have "tombstones_spec sample_codec (newResourceRef sample_codec ` set [sample_obj ''a'', sample_obj ''bb'']) sample_slice 0
      (slice_resources sample_slice) = [\<lparr>manifest = ''m'', m_Deleted = True\<rparr>]"
    by (simp add: needs_tombstone_def slicing_eval)
  with Slice_contents [OF s] s show ?thesis
    by (auto simp: sample_codec_def sample_obj_def Cons_eq_map_conv)
qed

text \<open>
  C36. The partitioning respects the byte limit: no slice is empty, a slice without its last
  manifest is below the limit whenever it has more than one manifest, and every slice but the last
  has reached the limit, so slices are neither oversized by more than one manifest nor needlessly
  many.
\<close>
theorem Slice_bounds:
  assumes "Slice cd co prev outs mx = Inr slices" "i < length slices"
  shows "slice_resources (slices ! i) \<noteq> [] \<and>
     (length (slice_resources (slices ! i)) > 1 \<longrightarrow>
        manifest_bytes (butlast (slice_resources (slices ! i))) < mx) \<and>
     (Suc i < length slices \<longrightarrow> mx \<le> manifest_bytes (slice_resources (slices ! i)))"
proof -
  from assms(1) obtain groups where groups: "slices = map (new_slice co) groups" "partition_ok mx groups"
    by (rule Slice_Inr) (use partition_ok_Slice in blast)
  have "groups ! i \<in> set (butlast groups)" if "Suc i < length groups"
    using that by (metis in_set_conv_nth length_butlast less_diff_conv nth_butlast Suc_eq_plus1)
  with groups assms(2) show ?thesis
    by (auto simp: partition_ok_def)
qed

theorem Slice_bounds_witness:
  "\<exists>slices. Slice sample_codec sample_comp [] [sample_obj ''aa'', sample_obj ''b''] 2 = Inr slices \<and>
     length slices = 2 \<and> 2 \<le> manifest_bytes (slice_resources (slices ! 0))"
proof -
  obtain slices where s: "Slice sample_codec sample_comp [] [sample_obj ''aa'', sample_obj ''b''] 2 = Inr slices" "length slices = 2"
    by (simp add: slicing_eval)
  then have "0 < length slices" by simp
  from Slice_bounds [OF s(1) this] s show ?thesis by auto
qed



end
