(* ===== verification/Resource.thy ===== *)
theory Resource
  imports Slicing Go_Strconv
begin

text \<open>
  Readiness checks (\<open>internal/readiness/readiness.go\<close>) and the internal representation of one
  resource of a slice (\<open>internal/resource/resource.go\<close>). CEL programs, JSON decoding, JSON patches
  and the parsing of durations and timestamps are arguments: a check holds the function its program
  computes, and \<open>rcodec\<close> collects the decoders.
\<close>

section \<open>Readiness checks\<close>

datatype any_val = VNil | VStr string | VOther

datatype cel_elem = EMap "(string \<times> any_val) list option" | EOther

datatype cel_val = CList "cel_elem list" | CTrue | COther

datatype cel_ast = Ast string

type_synonym program = "Unstructured \<Rightarrow> cel_val option"

record Check =
  c_Name :: string
  c_program :: program

record Status =
  ReadyTime :: time
  PreciseTime :: bool

definition any_get :: "(string \<times> any_val) list \<Rightarrow> string \<Rightarrow> any_val" where
  "any_get mp k = (case map_of mp k of None \<Rightarrow> VNil | Some v \<Rightarrow> v)"

definition condition_met :: "(string \<times> any_val) list \<Rightarrow> bool" where
  "condition_met mp =
     (any_get mp ''status'' = VStr ''True'' \<and> any_get mp ''type'' \<noteq> VNil \<and> any_get mp ''reason'' \<noteq> VNil)"

definition condition_time :: "(string \<Rightarrow> time option) \<Rightarrow> time \<Rightarrow> (string \<times> any_val) list \<Rightarrow> time" where
  "condition_time parseTime t mp =
     (case any_get mp ''lastTransitionTime'' of
        VStr str \<Rightarrow> (case parseTime str of None \<Rightarrow> t | Some p \<Rightarrow> p)
      | _ \<Rightarrow> t)"

text \<open>
  \<open>PreciseTime\<close> is \<open>err == nil\<close> for the error of \<open>ContextEval\<close>, which is nil at that point: the error
  of \<open>time.Parse\<close> is a different variable, in an inner scope.
\<close>

fun match_conditions :: "(string \<Rightarrow> time option) \<Rightarrow> time \<Rightarrow> cel_elem list \<Rightarrow> Status option" where
  "match_conditions parseTime t [] = None"
| "match_conditions parseTime t (EMap (Some mp) # es) =
     (if condition_met mp
      then Some \<lparr>ReadyTime = condition_time parseTime t mp, PreciseTime = True\<rparr>
      else match_conditions parseTime t es)"
| "match_conditions parseTime t (e # es) = match_conditions parseTime t es"

definition Check_Eval :: "(string \<Rightarrow> time option) \<Rightarrow> time \<Rightarrow> Check \<Rightarrow> Unstructured option \<Rightarrow> Status option" where
  "Check_Eval parseTime t check obj =
     (case obj of
        None \<Rightarrow> None
      | Some u \<Rightarrow>
          (case c_program check u of
             None \<Rightarrow> None
           | Some (CList es) \<Rightarrow> match_conditions parseTime t es
           | Some CTrue \<Rightarrow> Some \<lparr>ReadyTime = t, PreciseTime = False\<rparr>
           | Some COther \<Rightarrow> None))"

definition Checks_Eval ::
  "(Status list \<Rightarrow> Status list) \<Rightarrow> (string \<Rightarrow> time option) \<Rightarrow> time \<Rightarrow> Check list \<Rightarrow> Unstructured option \<Rightarrow> Status option" where
  "Checks_Eval srt parseTime t checks obj =
     (let all = concat (map (\<lambda>c. case Check_Eval parseTime t c obj of None \<Rightarrow> [] | Some s \<Rightarrow> [s]) checks) in
      if all = [] \<or> length all \<noteq> length checks then None
      else (case find PreciseTime (srt all) of
              Some ready \<Rightarrow> Some ready
            | None \<Rightarrow> (case srt all of [] \<Rightarrow> None | s # _ \<Rightarrow> Some s)))"

definition EvalOptionally ::
  "(Status list \<Rightarrow> Status list) \<Rightarrow> (string \<Rightarrow> time option) \<Rightarrow> time \<Rightarrow> Check list \<Rightarrow> Unstructured option \<Rightarrow> Status option" where
  "EvalOptionally srt parseTime t checks obj =
     (if checks = [] then Some \<lparr>ReadyTime = t, PreciseTime = False\<rparr>
      else Checks_Eval srt parseTime t checks obj)"

abbreviation latest_first :: "Status \<Rightarrow> int" where
  "latest_first s \<equiv> - ReadyTime s"

interpretation status_sort: go_key_sort latest_first "insertion_sort (\<lambda>a b. latest_first a < latest_first b)"
  by (rule go_key_sort_insertion_sort)

section \<open>Resources\<close>

record ResRef =
  ref_Name :: string
  ref_Namespace :: string
  ref_Group :: string
  ref_Kind :: string

record GroupKind =
  gk_Group :: string
  gk_Kind :: string

record ManifestRef =
  mr_Slice :: NamespacedName
  mr_Index :: nat

type_synonym json_patch = "string list"

record patchMeta =
  pm_APIVersion :: string
  pm_Kind :: string
  pm_Ops :: "json_patch option"

record Res =
  res_Ref :: ResRef
  res_Manifest :: Manifest
  res_ManifestRef :: ManifestRef
  res_ReconcileInterval :: "duration option"
  res_GVK :: GroupVersionKind
  res_SliceDeleted :: bool
  res_ReadinessChecks :: "Check list"
  res_Patch :: "json_patch option"
  res_DisableUpdates :: bool
  res_ReadinessGroup :: int
  res_DefinedGroupKind :: "GroupKind option"

record rcodec = codec +
  ParsePatch :: "string \<Rightarrow> patchMeta option"
  ApplyPatch :: "json_patch \<Rightarrow> string \<Rightarrow> string option"
  UnmarshalMap :: "string \<Rightarrow> (string list \<times> string) list option"
  ParseDuration :: "string \<Rightarrow> duration"
  cel_Compile :: "string \<Rightarrow> cel_ast option"
  cel_Program :: "cel_ast \<Rightarrow> program option"
  sort_checks :: "Check list \<Rightarrow> Check list"

definition ParseCheck :: "'a rcodec_scheme \<Rightarrow> string \<Rightarrow> Check option" where
  "ParseCheck cd expr =
     (case cel_Compile cd expr of
        None \<Rightarrow> None
      | Some ast \<Rightarrow>
          (case cel_Program cd ast of
             None \<Rightarrow> None
           | Some prgm \<Rightarrow> Some \<lparr>c_Name = [], c_program = prgm\<rparr>))"

definition patch_placeholder :: string where
  "patch_placeholder =
     ''{'' @ [CHR 0x22] @ ''apiVersion'' @ [CHR 0x22] @ '': '' @ [CHR 0x22] @ ''eno.azure.io/v1'' @ [CHR 0x22] @ '', '' @
     [CHR 0x22] @ ''kind'' @ [CHR 0x22] @ '':'' @ [CHR 0x22] @ ''PatchPlaceholder'' @ [CHR 0x22] @ '', '' @
     [CHR 0x22] @ ''metadata'' @ [CHR 0x22] @ '':{}}''"

definition patchSetsDeletionTimestamp :: "'a rcodec_scheme \<Rightarrow> Res \<Rightarrow> bool" where
  "patchSetsDeletionTimestamp cd r =
     (case res_Patch r of
        None \<Rightarrow> False
      | Some ops \<Rightarrow>
          (case ApplyPatch cd ops patch_placeholder of
             None \<Rightarrow> False
           | Some js \<Rightarrow>
               (case UnmarshalMap cd js of
                  None \<Rightarrow> False
                | Some mp \<Rightarrow> (case map_of mp [''metadata'', ''deletionTimestamp''] of None \<Rightarrow> False | Some dt \<Rightarrow> dt \<noteq> []))))"

definition Res_Deleted :: "'a rcodec_scheme \<Rightarrow> Res \<Rightarrow> bool" where
  "Res_Deleted cd r =
     (res_SliceDeleted r \<or> m_Deleted (res_Manifest r) \<or>
      (res_Patch r \<noteq> None \<and> patchSetsDeletionTimestamp cd r))"

definition FindStatus :: "Res \<Rightarrow> ResourceSlice \<Rightarrow> ResourceState option" where
  "FindStatus r slice =
     (if length (slice_states slice) \<le> mr_Index (res_ManifestRef r) then None
      else Some (slice_states slice ! mr_Index (res_ManifestRef r)))"

text \<open>\<open>Semantic.DeepEqual\<close> of two objects is equality of the accessors that objects are seen through.\<close>

definition NeedsToBePatched :: "'a rcodec_scheme \<Rightarrow> Res \<Rightarrow> Unstructured option \<Rightarrow> bool" where
  "NeedsToBePatched cd r cur =
     (case (res_Patch r, cur) of
        (Some ops, Some obj) \<Rightarrow>
          (case MarshalJSON cd obj of
             None \<Rightarrow> False
           | Some curjson \<Rightarrow>
               (case ApplyPatch cd ops curjson of
                  None \<Rightarrow> False
                | Some patchedjson \<Rightarrow>
                    (case UnmarshalJSON cd patchedjson of
                       None \<Rightarrow> False
                     | Some patched \<Rightarrow> obj \<noteq> patched)))
      | _ \<Rightarrow> False)"

definition reconcileIntervalKey :: string where
  "reconcileIntervalKey = ''eno.azure.io/reconcile-interval''"

definition disableUpdatesKey :: string where
  "disableUpdatesKey = ''eno.azure.io/disable-updates''"

definition readinessGroupKey :: string where
  "readinessGroupKey = ''eno.azure.io/readiness-group''"

definition readinessPrefix :: string where
  "readinessPrefix = ''eno.azure.io/readiness''"

definition check_name :: "string \<Rightarrow> string" where
  "check_name key =
     (let name = TrimPrefix key (readinessPrefix @ ''-'') in
      if name = readinessPrefix then ''default'' else name)"

definition parse_checks :: "(string \<Rightarrow> Check option) \<Rightarrow> (string \<times> string) list \<Rightarrow> Check list" where
  "parse_checks parse anno =
     concat (map (\<lambda>(key, value).
       if \<not> HasPrefix key readinessPrefix then []
       else (case parse value of
               None \<Rightarrow> []
             | Some check \<Rightarrow> [check\<lparr>c_Name := check_name key\<rparr>])) anno)"

definition with_annotations :: "'a rcodec_scheme \<Rightarrow> (string \<times> string) list \<Rightarrow> Res \<Rightarrow> Res" where
  "with_annotations cd anno res =
     (let anno1 = AList.delete reconcileIntervalKey anno;
          anno2 = AList.delete disableUpdatesKey anno1;
          anno3 = AList.delete readinessGroupKey anno2
      in res\<lparr>res_ReconcileInterval := Some (ParseDuration cd (gomap_get (Some anno) reconcileIntervalKey)),
             res_DisableUpdates := (gomap_get (Some anno1) disableUpdatesKey = ''true''),
             res_ReadinessGroup := fst (ParseInt (gomap_get (Some anno2) readinessGroupKey)),
             res_ReadinessChecks := sort_checks cd (parse_checks (ParseCheck cd) anno3)\<rparr>)"

definition resolve_patch :: "'a rcodec_scheme \<Rightarrow> Res \<Rightarrow> error + Res" where
  "resolve_patch cd res =
     (if res_GVK res \<noteq> patchGVK then Inr res
      else (case ParsePatch cd (manifest (res_Manifest res)) of
              None \<Rightarrow> Inl (Plain ''parsing patch json'')
            | Some p \<Rightarrow>
                (case ParseGroupVersion cd (pm_APIVersion p) of
                   None \<Rightarrow> Inl (Plain ''parsing patch apiVersion'')
                 | Some (g, v) \<Rightarrow>
                     Inr (res\<lparr>res_GVK := \<lparr>gvk_Group = g, gvk_Version = v, gvk_Kind = pm_Kind p\<rparr>,
                              res_Patch := pm_Ops p\<rparr>))))"

definition define_crd :: "Unstructured \<Rightarrow> Res \<Rightarrow> Res" where
  "define_crd parsed res =
     (if gvk_Group (res_GVK res) = ''apiextensions.k8s.io'' \<and> gvk_Kind (res_GVK res) = ''CustomResourceDefinition''
      then res\<lparr>res_DefinedGroupKind := Some
             \<lparr>gk_Group = NestedString parsed [''spec'', ''group''],
              gk_Kind = NestedString parsed [''spec'', ''names'', ''kind'']\<rparr>\<rparr>
      else res)"

definition NewResource :: "'a rcodec_scheme \<Rightarrow> ResourceSlice \<Rightarrow> nat \<Rightarrow> error + Res" where
  "NewResource cd slice index =
     (if index \<ge> length (Resources (slice_Spec slice)) then Inl IndexOutOfRange
      else
        let m = Resources (slice_Spec slice) ! index in
        (case UnmarshalJSON cd (manifest m) of
           None \<Rightarrow> Inl (Plain ''invalid json'')
         | Some parsed \<Rightarrow>
             if u_Name parsed = [] \<or> gvk_Kind (u_GVK parsed) = [] \<or> u_APIVersion parsed = []
             then Inl (Plain ''missing name, kind, or apiVersion'')
             else
               (case resolve_patch cd
                   \<lparr>res_Ref = \<lparr>ref_Name = u_Name parsed, ref_Namespace = u_Namespace parsed,
                      ref_Group = gvk_Group (u_GVK parsed), ref_Kind = gvk_Kind (u_GVK parsed)\<rparr>,
                    res_Manifest = m,
                    res_ManifestRef = \<lparr>mr_Slice = key_of slice, mr_Index = index\<rparr>,
                    res_ReconcileInterval = None, res_GVK = u_GVK parsed,
                    res_SliceDeleted = (DeletionTimestamp slice \<noteq> None),
                    res_ReadinessChecks = [], res_Patch = None, res_DisableUpdates = False,
                    res_ReadinessGroup = 0, res_DefinedGroupKind = None\<rparr> of
                  Inl e \<Rightarrow> Inl e
                | Inr res \<Rightarrow>
                    (case u_Annotations parsed of
                       None \<Rightarrow> Inr (define_crd parsed res)
                     | Some anno \<Rightarrow> Inr (with_annotations cd anno (define_crd parsed res))))))"

text \<open>What the controller remembers of the last version of a resource it saw.\<close>

record lastSeenMeta =
  resourceVersion :: string

definition ObserveVersion :: "string \<Rightarrow> lastSeenMeta \<Rightarrow> lastSeenMeta" where
  "ObserveVersion rv l = l\<lparr>resourceVersion := rv\<rparr>"

definition HasBeenSeen :: "lastSeenMeta \<Rightarrow> bool" where
  "HasBeenSeen l = (resourceVersion l \<noteq> [])"

definition MatchesLastSeen :: "lastSeenMeta \<Rightarrow> string \<Rightarrow> bool" where
  "MatchesLastSeen l rv = (resourceVersion l = rv)"

text \<open>
  The time of the last reconciliation of a resource. Durations are 64-bit numbers of nanoseconds:
  \<open>time.Sub\<close> saturates and \<open>Abs\<close> maps the smallest duration to the largest.
\<close>

definition max_duration :: duration where
  "max_duration = 9223372036854775807"

definition time_Sub :: "time \<Rightarrow> time \<Rightarrow> duration" where
  "time_Sub t u = max (- max_duration - 1) (min max_duration (t - u))"

definition duration_Abs :: "duration \<Rightarrow> duration" where
  "duration_Abs d = (if d \<ge> 0 then d else if d = - max_duration - 1 then max_duration else - d)"

record lastReconciledMeta =
  lastReconciled :: "time option"

definition ObserveReconciliation :: "time \<Rightarrow> lastReconciledMeta \<Rightarrow> duration \<times> lastReconciledMeta" where
  "ObserveReconciliation t l =
     (let latency = (case lastReconciled l of None \<Rightarrow> 0 | Some u \<Rightarrow> time_Sub t u)
      in (duration_Abs latency div millisecond, l\<lparr>lastReconciled := Some t\<rparr>))"

text \<open>What the reconciliation controller reports of it: nanoseconds late relative to the interval.\<close>

definition schedule_delta :: "time \<Rightarrow> duration option \<Rightarrow> lastReconciledMeta \<Rightarrow> duration option \<times> lastReconciledMeta" where
  "schedule_delta t interval l =
     (case interval of
        None \<Rightarrow> (None, l)
      | Some d \<Rightarrow>
          (case ObserveReconciliation t l of
             (observation, l') \<Rightarrow> (if observation > 0 then Some (observation - d) else None, l')))"

definition NewInputRevisions :: "string \<Rightarrow> strmap \<Rightarrow> string \<Rightarrow> InputRevisions" where
  "NewInputRevisions rv anno refKey =
     (let r = fst (ParseInt (gomap_get anno ''eno.azure.io/revision''));
          g = fst (ParseInt (gomap_get anno ''eno.azure.io/synthesizer-generation''))
      in \<lparr>ir_Key = refKey, ir_ResourceVersion = rv,
          ir_Revision = (if r \<noteq> 0 then Some r else None),
          ir_SynthesizerGeneration = (if g \<noteq> 0 then Some g else None)\<rparr>)"

section \<open>Lemmas\<close>

lemma match_conditions_precise: "match_conditions parseTime t es = Some s \<Longrightarrow> PreciseTime s"
  by (induction parseTime t es rule: match_conditions.induct) (auto split: if_splits)

lemma concat_singletons_length:
  "length (concat (map (\<lambda>c. case f c of None \<Rightarrow> [] | Some s \<Rightarrow> [s]) cs)) = length cs \<longleftrightarrow> (\<forall>c \<in> set cs. f c \<noteq> None)"
proof (induction cs)
  case (Cons c cs)
  have "length (concat (map (\<lambda>c. case f c of None \<Rightarrow> [] | Some s \<Rightarrow> [s]) cs)) \<le> length cs"
    by (induction cs) (auto split: option.splits)
  with Cons show ?case by (cases "f c") auto
qed simp

lemma concat_singletons_set:
  "set (concat (map (\<lambda>c. case f c of None \<Rightarrow> [] | Some s \<Rightarrow> [s]) cs)) = {s. \<exists>c \<in> set cs. f c = Some s}"
  by (induction cs) (auto split: option.splits)

definition favoured :: "Status set \<Rightarrow> Status \<Rightarrow> bool" where
  "favoured all s =
     (s \<in> all \<and>
      (if PreciseTime s then \<forall>s' \<in> all. PreciseTime s' \<longrightarrow> ReadyTime s' \<le> ReadyTime s
       else \<forall>s' \<in> all. \<not> PreciseTime s' \<and> ReadyTime s' \<le> ReadyTime s))"

lemma find_sorted_precise:
  assumes "sorted (map latest_first xs)" "find PreciseTime xs = Some s"
  shows "s \<in> set xs \<and> PreciseTime s \<and> (\<forall>s' \<in> set xs. PreciseTime s' \<longrightarrow> ReadyTime s' \<le> ReadyTime s)"
  using assms by (induction xs) (auto split: if_splits)

lemma favoured_sorted:
  assumes "go_key_sort latest_first srt" "all \<noteq> []"
  shows "\<exists>s. (case find PreciseTime (srt all) of Some ready \<Rightarrow> Some ready
      | None \<Rightarrow> (case srt all of [] \<Rightarrow> None | s # _ \<Rightarrow> Some s)) = Some s \<and> favoured (set all) s"
proof -
  note basics = go_key_sort.key_srt_basics [OF assms(1), of all]
  note sorted = go_key_sort.sorted_keys [OF assms(1), of all]
  show ?thesis
  proof (cases "find PreciseTime (srt all)")
    case (Some s)
    with find_sorted_precise [OF sorted Some] basics(1) show ?thesis by (auto simp: favoured_def)
  next
    case None
    obtain s ss where s: "srt all = s # ss"
      using assms(2) basics(2) by (cases "srt all") auto
    with None sorted basics(1) show ?thesis by (auto simp: favoured_def find_None_P)
  qed
qed

text \<open>
  The evaluation of a set of readiness checks answers exactly when there is a check and all of
  them are ready. The answer is the status of one of the checks: the latest of the precise ones if
  any is precise, and the latest of all of them otherwise.
\<close>
theorem Checks_Eval_correct:
  assumes "go_key_sort latest_first srt"
  shows "(case Checks_Eval srt parseTime t checks obj of
            None \<Rightarrow> checks = [] \<or> (\<exists>c \<in> set checks. Check_Eval parseTime t c obj = None)
          | Some s \<Rightarrow> (\<forall>c \<in> set checks. Check_Eval parseTime t c obj \<noteq> None) \<and>
              favoured {s. \<exists>c \<in> set checks. Check_Eval parseTime t c obj = Some s} s)"
proof -
  let ?f = "\<lambda>c. Check_Eval parseTime t c obj"
  let ?all = "concat (map (\<lambda>c. case ?f c of None \<Rightarrow> [] | Some s \<Rightarrow> [s]) checks)"
  show ?thesis
  proof (cases "?all = [] \<or> length ?all \<noteq> length checks")
    case True
    then have "Checks_Eval srt parseTime t checks obj = None"
      unfolding Checks_Eval_def Let_def by (rule if_P)
    moreover have "checks = [] \<or> (\<exists>c \<in> set checks. ?f c = None)"
      using True concat_singletons_length [of ?f checks] by (cases checks) (auto split: option.splits)
    ultimately show ?thesis by simp
  next
    case False
    then have ready: "\<forall>c \<in> set checks. ?f c \<noteq> None"
      using concat_singletons_length [of ?f checks] by blast
    from favoured_sorted [OF assms, of ?all] False obtain s where
      s: "(case find PreciseTime (srt ?all) of Some ready \<Rightarrow> Some ready
         | None \<Rightarrow> (case srt ?all of [] \<Rightarrow> None | s # _ \<Rightarrow> Some s)) = Some s" "favoured (set ?all) s" by blast
    then have "Checks_Eval srt parseTime t checks obj = Some s"
      using False unfolding Checks_Eval_def Let_def by (simp only: if_False)
    with ready s(2) show ?thesis
      unfolding concat_singletons_set by simp
  qed
qed

definition sample_check :: "cel_val \<Rightarrow> Check" where
  "sample_check v = \<lparr>c_Name = ''default'', c_program = (\<lambda>_. Some v)\<rparr>"

definition sample_condition :: cel_elem where
  "sample_condition = EMap (Some [(''status'', VStr ''True''), (''type'', VStr ''Ready''), (''reason'', VStr ''ok''),
     (''lastTransitionTime'', VStr ''t'')])"

theorem Checks_Eval_correct_witness:
  "\<exists>s. Checks_Eval (insertion_sort (\<lambda>a b. latest_first a < latest_first b)) (\<lambda>_. Some 4) 9
      [sample_check CTrue, sample_check (CList [sample_condition])] (Some (sample_obj ''a'')) = Some s \<and>
     favoured {s. \<exists>c \<in> set [sample_check CTrue, sample_check (CList [sample_condition])].
        Check_Eval (\<lambda>_. Some 4) 9 c (Some (sample_obj ''a'')) = Some s} s"
proof -
  let ?cs = "[sample_check CTrue, sample_check (CList [sample_condition])]"
  obtain s where s: "Checks_Eval (insertion_sort (\<lambda>a b. latest_first a < latest_first b)) (\<lambda>_. Some 4) 9 ?cs
      (Some (sample_obj ''a'')) = Some s"
    by (simp add: Checks_Eval_def Check_Eval_def sample_check_def sample_condition_def condition_met_def
        condition_time_def any_get_def insertion_sort_def)
  with Checks_Eval_correct [of "insertion_sort (\<lambda>a b. latest_first a < latest_first b)" ?cs "\<lambda>_. Some 4" 9 "Some (sample_obj ''a'')",
      OF status_sort.go_key_sort_axioms]
  show ?thesis unfolding s by auto
qed

text \<open>
  A condition whose transition time is missing or does not parse is reported with the current
  time and yet as precise, although \<open>PreciseTime\<close> is documented to be true only when the time came
  from a condition.
\<close>
theorem unparsed_condition_is_precise:
  assumes "condition_met mp" "\<And>str. any_get mp ''lastTransitionTime'' = VStr str \<Longrightarrow> parseTime str = None"
    and "c_program check u = Some (CList (EMap (Some mp) # es))"
  shows "Check_Eval parseTime t check (Some u) = Some \<lparr>ReadyTime = t, PreciseTime = True\<rparr>"
  using assms by (cases "any_get mp ''lastTransitionTime''") (auto simp: Check_Eval_def condition_time_def)

theorem unparsed_condition_is_precise_witness:
  "Check_Eval (\<lambda>_. None) 9 (sample_check (CList [sample_condition])) (Some (sample_obj ''a'')) =
     Some \<lparr>ReadyTime = 9, PreciseTime = True\<rparr>"
  by (rule unparsed_condition_is_precise
        [of "[(''status'', VStr ''True''), (''type'', VStr ''Ready''), (''reason'', VStr ''ok''),
             (''lastTransitionTime'', VStr ''t'')]" "\<lambda>_. None" "sample_check (CList [sample_condition])"
            "sample_obj ''a''" "[]" 9])
    (simp_all add: condition_met_def any_get_def sample_check_def sample_condition_def)

subsection \<open>Resources\<close>

lemma NewResource_Inr:
  assumes "NewResource cd slice i = Inr r"
  shows "\<exists>obj. i < length (Resources (slice_Spec slice)) \<and>
     UnmarshalJSON cd (manifest (Resources (slice_Spec slice) ! i)) = Some obj \<and>
     u_Name obj \<noteq> [] \<and> gvk_Kind (u_GVK obj) \<noteq> [] \<and>
     res_Ref r = \<lparr>ref_Name = u_Name obj, ref_Namespace = u_Namespace obj,
        ref_Group = gvk_Group (u_GVK obj), ref_Kind = gvk_Kind (u_GVK obj)\<rparr> \<and>
     res_Manifest r = Resources (slice_Spec slice) ! i \<and>
     res_ManifestRef r = \<lparr>mr_Slice = key_of slice, mr_Index = i\<rparr> \<and>
     res_SliceDeleted r = (DeletionTimestamp slice \<noteq> None) \<and>
     (u_GVK obj \<noteq> patchGVK \<longrightarrow> res_Patch r = None \<and> res_GVK r = u_GVK obj) \<and>
     res_ReadinessGroup r = (case u_Annotations obj of None \<Rightarrow> 0
        | Some anno \<Rightarrow> fst (ParseInt (gomap_get (Some (AList.delete disableUpdatesKey (AList.delete reconcileIntervalKey anno))) readinessGroupKey))) \<and>
     res_ReadinessChecks r = (case u_Annotations obj of None \<Rightarrow> []
        | Some anno \<Rightarrow> sort_checks cd (parse_checks (ParseCheck cd)
            (AList.delete readinessGroupKey (AList.delete disableUpdatesKey (AList.delete reconcileIntervalKey anno)))))"
  using assms
  by (auto simp: NewResource_def resolve_patch_def define_crd_def with_annotations_def Let_def
      split: if_splits option.splits sum.splits)

lemma set_parse_checks:
  "set (parse_checks parse anno) = {chk\<lparr>c_Name := check_name k\<rparr> | k v chk.
        (k, v) \<in> set anno \<and> HasPrefix k readinessPrefix \<and> parse v = Some chk}"
proof (induction anno)
  case (Cons kv anno)
  obtain k v where kv: "kv = (k, v)" by force
  have "set (parse_checks parse (kv # anno)) =
      (if HasPrefix k readinessPrefix then (case parse v of None \<Rightarrow> {} | Some p \<Rightarrow> {p\<lparr>c_Name := check_name k\<rparr>}) else {}) \<union>
      set (parse_checks parse anno)"
    by (simp add: kv parse_checks_def split: option.splits)
  with Cons.IH show ?case
    by (auto simp: kv split: option.splits if_splits)
qed (simp add: parse_checks_def)

lemma ParseInt_empty: "fst (ParseInt []) = 0"
  by (simp add: ParseInt_def)

lemma annotation_keys_distinct:
  "readinessGroupKey \<noteq> disableUpdatesKey" "readinessGroupKey \<noteq> reconcileIntervalKey"
  by (simp_all add: readinessGroupKey_def disableUpdatesKey_def reconcileIntervalKey_def)

lemma gomap_get_delete [simp]:
  "gomap_get (Some (AList.delete k al)) k' = (if k = k' then [] else gomap_get (Some al) k')"
  by (simp add: gomap_get_def delete_conv')

text \<open>
  A resource built from manifest \<open>i\<close> of a slice refers back to that manifest, is identified by
  the reference under which the slicing compares it (when it is not a patch), and is deleted when
  the slice or the manifest is. Its readiness group is an \<open>int64\<close> taken from the annotation of the
  object, 0 without one.
\<close>
theorem NewResource_identity:
  assumes "NewResource cd slice i = Inr r"
  shows "\<exists>obj. i < length (Resources (slice_Spec slice)) \<and>
     UnmarshalJSON cd (manifest (Resources (slice_Spec slice) ! i)) = Some obj \<and>
     res_ManifestRef r = \<lparr>mr_Slice = key_of slice, mr_Index = i\<rparr> \<and>
     (u_GVK obj \<noteq> patchGVK \<longrightarrow>
        newResourceRef (codec.truncate cd) obj =
          \<lparr>r_Name = ref_Name (res_Ref r), r_Namespace = ref_Namespace (res_Ref r),
           r_Kind = ref_Kind (res_Ref r), r_Group = ref_Group (res_Ref r)\<rparr> \<and>
        Res_Deleted cd r = (DeletionTimestamp slice \<noteq> None \<or> m_Deleted (Resources (slice_Spec slice) ! i))) \<and>
     res_ReadinessGroup r = fst (ParseInt (gomap_get (u_Annotations obj) readinessGroupKey)) \<and>
     - int int64_cutoff \<le> res_ReadinessGroup r \<and> res_ReadinessGroup r < int int64_cutoff"
proof -
  from NewResource_Inr [OF assms] obtain obj where o: "i < length (Resources (slice_Spec slice))"
     "UnmarshalJSON cd (manifest (Resources (slice_Spec slice) ! i)) = Some obj"
     "res_Ref r = \<lparr>ref_Name = u_Name obj, ref_Namespace = u_Namespace obj,
        ref_Group = gvk_Group (u_GVK obj), ref_Kind = gvk_Kind (u_GVK obj)\<rparr>"
     "res_Manifest r = Resources (slice_Spec slice) ! i"
     "res_ManifestRef r = \<lparr>mr_Slice = key_of slice, mr_Index = i\<rparr>"
     "res_SliceDeleted r = (DeletionTimestamp slice \<noteq> None)"
     "u_GVK obj \<noteq> patchGVK \<longrightarrow> res_Patch r = None \<and> res_GVK r = u_GVK obj"
     "res_ReadinessGroup r = (case u_Annotations obj of None \<Rightarrow> 0
        | Some anno \<Rightarrow> fst (ParseInt (gomap_get (Some (AList.delete disableUpdatesKey (AList.delete reconcileIntervalKey anno))) readinessGroupKey)))"
    by blast
  have group: "res_ReadinessGroup r = fst (ParseInt (gomap_get (u_Annotations obj) readinessGroupKey))"
    using annotation_keys_distinct
    by (cases "u_Annotations obj") (simp_all add: o(8) ParseInt_empty)
  show ?thesis
    using o(1-7) group ParseInt_range [of "gomap_get (u_Annotations obj) readinessGroupKey"]
    by (auto simp: newResourceRef_def Res_Deleted_def)
qed

definition sample_rcodec :: rcodec where
  "sample_rcodec = codec.extend sample_codec
     \<lparr>ParsePatch = (\<lambda>_. None), ApplyPatch = (\<lambda>_ _. None), UnmarshalMap = (\<lambda>_. None), ParseDuration = (\<lambda>_. 0),
      cel_Compile = (\<lambda>_. None), cel_Program = (\<lambda>_. None), sort_checks = insertion_sort (\<lambda>a b. c_Name a < c_Name b)\<rparr>"

theorem NewResource_identity_witness:
  "\<exists>r. NewResource sample_rcodec sample_slice 0 = Inr r \<and>
     res_ManifestRef r = \<lparr>mr_Slice = key_of sample_slice, mr_Index = 0\<rparr>"
proof -
  obtain r where "NewResource sample_rcodec sample_slice 0 = Inr r"
    by (simp add: NewResource_def sample_rcodec_def sample_codec_def codec.extend_def sample_slice_def
        sample_obj_def resolve_patch_def patchGVK_def define_crd_def Let_def)
  with NewResource_identity [OF this] show ?thesis by blast
qed

text \<open>
  The readiness checks of a resource come from the annotations with the readiness prefix whose
  expressions compile, named after the rest of the key; the annotation that sets the readiness
  group has that prefix too but never becomes a check.
\<close>
theorem NewResource_checks:
  assumes "NewResource cd slice i = Inr r" "\<And>cs. set (sort_checks cd cs) = set cs"
    and "UnmarshalJSON cd (manifest (Resources (slice_Spec slice) ! i)) = Some obj" "u_Annotations obj = Some anno"
    and "distinct (map fst anno)"
  shows "set (res_ReadinessChecks r) =
     {chk\<lparr>c_Name := check_name k\<rparr> | k v chk.
        map_of anno k = Some v \<and> HasPrefix k readinessPrefix \<and> k \<noteq> readinessGroupKey \<and> ParseCheck cd v = Some chk}"
proof -
  let ?anno = "AList.delete readinessGroupKey (AList.delete disableUpdatesKey (AList.delete reconcileIntervalKey anno))"
  have "res_ReadinessChecks r = sort_checks cd (parse_checks (ParseCheck cd) ?anno)"
    using NewResource_Inr [OF assms(1)] assms(3,4) by auto
  then have "set (res_ReadinessChecks r) = set (parse_checks (ParseCheck cd) ?anno)"
    by (simp add: assms(2))
  also have "\<dots> = {chk\<lparr>c_Name := check_name k\<rparr> | k v chk.
        (k, v) \<in> set ?anno \<and> HasPrefix k readinessPrefix \<and> ParseCheck cd v = Some chk}"
    by (rule set_parse_checks)
  also have "\<dots> = {chk\<lparr>c_Name := check_name k\<rparr> | k v chk.
        (k, v) \<in> set anno \<and> HasPrefix k readinessPrefix \<and> k \<noteq> readinessGroupKey \<and> ParseCheck cd v = Some chk}"
  proof -
    have "\<not> HasPrefix disableUpdatesKey readinessPrefix" "\<not> HasPrefix reconcileIntervalKey readinessPrefix"
      by (simp_all add: HasPrefix_def readinessPrefix_def disableUpdatesKey_def reconcileIntervalKey_def)
    then have "(k, v) \<in> set ?anno \<longleftrightarrow> (k, v) \<in> set anno \<and> k \<noteq> readinessGroupKey" if "HasPrefix k readinessPrefix" for k v
      using that by (auto simp: AList.delete_eq)
    then show ?thesis by blast
  qed
  finally show ?thesis using assms(5) by (simp add: map_of_eq_Some_iff)
qed

definition annotated_rcodec :: rcodec where
  "annotated_rcodec = sample_rcodec\<lparr>
     UnmarshalJSON := (\<lambda>_. Some ((sample_obj ''a'')\<lparr>u_Annotations := Some
        [(readinessGroupKey, ''9223372036854775808''), (readinessPrefix, ''true'')]\<rparr>)),
     cel_Compile := (\<lambda>s. Some (Ast s)), cel_Program := (\<lambda>_. Some (\<lambda>_. Some CTrue))\<rparr>"

lemmas annotated_eval = NewResource_def annotated_rcodec_def sample_rcodec_def sample_codec_def codec.extend_def
  sample_slice_def sample_obj_def resolve_patch_def patchGVK_def define_crd_def with_annotations_def Let_def

theorem NewResource_checks_witness:
  "\<exists>r. NewResource annotated_rcodec sample_slice 0 = Inr r \<and>
     \<lparr>c_Name = check_name readinessPrefix, c_program = (\<lambda>_. Some CTrue)\<rparr> \<in> set (res_ReadinessChecks r)"
proof -
  obtain r where r: "NewResource annotated_rcodec sample_slice 0 = Inr r"
    by (simp add: annotated_eval)
  have srt: "\<And>cs. set (sort_checks annotated_rcodec cs) = set cs"
    using go_key_sort.key_srt_basics(1) [OF go_key_sort_insertion_sort [of c_Name]]
    by (simp add: annotated_rcodec_def sample_rcodec_def codec.extend_def)
  show ?thesis
    using NewResource_checks [OF r srt, of "(sample_obj ''a'')\<lparr>u_Annotations := Some
        [(readinessGroupKey, ''9223372036854775808''), (readinessPrefix, ''true'')]\<rparr>"] r
    by (auto simp: annotated_rcodec_def readinessPrefix_def readinessGroupKey_def HasPrefix_def ParseCheck_def)
qed

subsection \<open>The schedule metric\<close>

lemma observation_bounds:
  "0 \<le> fst (ObserveReconciliation t l) \<and> fst (ObserveReconciliation t l) \<le> max_duration div millisecond"
  by (auto simp: ObserveReconciliation_def duration_Abs_def time_Sub_def max_duration_def millisecond_def Let_def split: option.splits)

text \<open>
  The observation counts milliseconds but is used as nanoseconds. The next run of the loop, however late
  within a year, is reported as early by nearly the whole interval when the interval is a minute or more:
  the metric cannot show that the loop does not keep up.
\<close>
lemma late_reconciliation_reported_early:
  assumes "lastReconciled l = Some u" "0 \<le> t - u" "t - u \<le> 365 * 24 * 60 * 60 * second" "60 * second \<le> d"
    and "schedule_delta t (Some d) l = (Some delta, l')"
  shows "delta < 0"
proof -
  have "duration_Abs (time_Sub t u) \<le> 365 * 24 * 60 * 60 * second"
    using assms(2,3) by (simp add: time_Sub_def duration_Abs_def max_duration_def second_def millisecond_def)
  then have "duration_Abs (time_Sub t u) div millisecond \<le> 365 * 24 * 60 * 60 * 1000"
    by (simp add: second_def millisecond_def)
  with assms(1,4,5) show ?thesis
    by (auto simp: schedule_delta_def ObserveReconciliation_def Let_def second_def millisecond_def split: if_splits)
qed

end
