(* ===== verification/Watch.thy ===== *)
theory Watch
  imports Rollout Resource
begin

text \<open>
  The controllers that watch the inputs of compositions (\<open>controllers/watch\<close>): the watch controller
  keeps one kind watch controller running per kind of input (\<open>watch.go\<close>), a kind watch controller
  records the revisions of an input in the compositions bound to it (\<open>kind.go\<close>), and the pruning
  controller drops revisions of inputs that are no longer bound (\<open>pruning.go\<close>). The informer indices
  are asked by the components of their keys; starting a controller may fail, which is an argument.
\<close>

section \<open>Kind watch controller\<close>

definition findRefKey :: "Composition \<Rightarrow> Synthesizer \<Rightarrow> ResourceRef \<Rightarrow> ObjectMeta \<Rightarrow> string \<times> bool" where
  "findRefKey co synth gvk meta =
     (let bindingKey = (case find (\<lambda>b. rb_Name (b_Resource b) = Name meta \<and> rb_Namespace (b_Resource b) = Namespace meta)
                           (Bindings (comp_Spec co)) of
                          None \<Rightarrow> [] | Some b \<Rightarrow> b_Key b)
      in case find (\<lambda>ref. bindingKey = ref_Key ref \<and> ref_Resource ref = gvk) (Refs (synth_Spec synth)) of
           None \<Rightarrow> ([], False) | Some ref \<Rightarrow> (ref_Key ref, ref_Defer ref))"

fun set_revision :: "InputRevisions \<Rightarrow> InputRevisions list \<Rightarrow> bool \<times> InputRevisions list" where
  "set_revision revs [] = (True, [revs])"
| "set_revision revs (ir # irs) =
     (if ir_Key ir \<noteq> ir_Key revs then (case set_revision revs irs of (ch, irs') \<Rightarrow> (ch, ir # irs'))
      else if ir = revs then (False, ir # irs)
      else (True, revs # irs))"

definition setInputRevisions :: "Composition \<Rightarrow> InputRevisions \<Rightarrow> bool \<times> Composition" where
  "setInputRevisions co revs =
     (case set_revision revs (InputRevs (comp_Status co)) of
        (ch, irs) \<Rightarrow> (ch, set_status (\<lambda>s. s\<lparr>InputRevs := irs\<rparr>) co))"

record kw_client =
  kw_get_meta :: "NamespacedName \<Rightarrow> api_err + ObjectMeta"
  kw_list_synths :: "ResourceRef \<Rightarrow> api_err + Synthesizer list"
  kw_list_comps :: "string \<Rightarrow> string \<Rightarrow> string \<Rightarrow> api_err + Composition list"
  kw_write :: writer

definition record_input ::
  "time \<Rightarrow> ResourceRef \<Rightarrow> ObjectMeta \<Rightarrow> Synthesizer \<Rightarrow> Composition \<Rightarrow> Composition option" where
  "record_input t gvk meta synth co =
     (case findRefKey co synth gvk meta of
        (key, deferred) \<Rightarrow>
          if key = [] then None
          else (case setInputRevisions co (NewInputRevisions (ResourceVersion meta) (Annotations meta) key) of
                  (False, _) \<Rightarrow> None
                | (True, co') \<Rightarrow>
                    Some (if deferred \<and> PendingResynthesis (comp_Status co') = None \<and> \<not> ShouldIgnoreSideEffects co'
                          then set_status (\<lambda>s. s\<lparr>PendingResynthesis := Some t\<rparr>) co' else co')))"

fun visit_comps :: "time \<Rightarrow> ResourceRef \<Rightarrow> ObjectMeta \<Rightarrow> Synthesizer \<Rightarrow> Composition list \<Rightarrow> Composition option" where
  "visit_comps t gvk meta synth [] = None"
| "visit_comps t gvk meta synth (co # others) =
     (case record_input t gvk meta synth co of
        None \<Rightarrow> visit_comps t gvk meta synth others
      | Some co' \<Rightarrow> Some co')"

fun visit_synths :: "time \<Rightarrow> kw_client \<Rightarrow> ResourceRef \<Rightarrow> ObjectMeta \<Rightarrow> Synthesizer list \<Rightarrow> request handler_out" where
  "visit_synths t cl gvk meta [] = ([], Inr done_result)"
| "visit_synths t cl gvk meta (synth # synths) =
     (case kw_list_comps cl (Name synth) (Namespace meta) (Name meta) of
        Inl e \<Rightarrow> ([], Inl (Wrap ''listing compositions'' e))
      | Inr comps \<Rightarrow>
          (case visit_comps t gvk meta synth comps of
             None \<Rightarrow> visit_synths t cl gvk meta synths
           | Some co' \<Rightarrow> send (kw_write cl) (UpdateCompositionStatus co') ''updating input revisions'' done_result))"

definition kw_Reconcile ::
  "(Synthesizer list \<Rightarrow> Synthesizer list) \<Rightarrow> time \<Rightarrow> kw_client \<Rightarrow> ResourceRef \<Rightarrow> NamespacedName \<Rightarrow> request handler_out" where
  "kw_Reconcile shuffle t cl gvk req =
     (case kw_get_meta cl req of
        Inl e \<Rightarrow> ([], ignore_not_found (Wrap [] e))
      | Inr meta \<Rightarrow>
          (case kw_list_synths cl gvk of
             Inl e \<Rightarrow> ([], Inl (Wrap ''listing synthesizers'' e))
           | Inr synths \<Rightarrow> visit_synths t cl gvk meta (shuffle synths)))"

definition buildRequests :: "Synthesizer \<Rightarrow> Composition list \<Rightarrow> NamespacedName list" where
  "buildRequests synth comps =
     fold (\<lambda>b reqs.
        if b_Key b \<notin> ref_Key ` set (Refs (synth_Spec synth)) then reqs
        else (let nsn = \<lparr>nn_Namespace = rb_Namespace (b_Resource b), nn_Name = rb_Name (b_Resource b)\<rparr>
              in if nsn \<in> set reqs then reqs else reqs @ [nsn]))
       (concat (map (\<lambda>co. Bindings (comp_Spec co)) comps)) []"

section \<open>Pruning controller\<close>

definition hasBindingKey :: "Composition \<Rightarrow> string \<Rightarrow> bool" where
  "hasBindingKey co key = list_ex (\<lambda>b. b_Key b = key) (Bindings (comp_Spec co))"

fun prune_first :: "Composition \<Rightarrow> InputRevisions list \<Rightarrow> InputRevisions list option" where
  "prune_first co [] = None"
| "prune_first co (ir # irs) =
     (if hasBindingKey co (ir_Key ir) then map_option ((#) ir) (prune_first co irs) else Some irs)"

definition pr_Reconcile ::
  "(NamespacedName \<Rightarrow> api_err + Composition) \<Rightarrow> writer \<Rightarrow> NamespacedName \<Rightarrow> request handler_out" where
  "pr_Reconcile get wr req =
     (case get req of
        Inl e \<Rightarrow> ([], ignore_not_found (Wrap [] e))
      | Inr co \<Rightarrow>
          (case prune_first co (InputRevs (comp_Status co)) of
             None \<Rightarrow> ([], Inr done_result)
           | Some irs \<Rightarrow>
               send wr (UpdateCompositionStatus (set_status (\<lambda>s. s\<lparr>InputRevs := irs\<rparr>) co)) ''updating status'' done_result))"

section \<open>Watch controller\<close>

text \<open>The keys of \<open>refControllers\<close>, in the order in which the map is iterated.\<close>

type_synonym running = "ResourceRef list"

definition wanted_refs :: "Synthesizer list \<Rightarrow> ResourceRef list" where
  "wanted_refs synths =
     concat (map (\<lambda>syn. if DeletionTimestamp syn \<noteq> None then [] else map ref_Resource (Refs (synth_Spec syn))) synths)"

definition wc_Reconcile ::
  "(Synthesizer list \<Rightarrow> Synthesizer list) \<Rightarrow> (ResourceRef \<Rightarrow> api_err option) \<Rightarrow> api_err + Synthesizer list \<Rightarrow> running \<Rightarrow>
   running \<times> (error + ctrl_Result)" where
  "wc_Reconcile shuffle start synths running =
     (case synths of
        Inl e \<Rightarrow> (running, Inl (Wrap [] e))
      | Inr syns \<Rightarrow>
          let wanted = wanted_refs (shuffle syns) in
          (case find (\<lambda>ref. ref \<notin> set running) wanted of
             Some ref \<Rightarrow>
               (case start ref of
                  Some e \<Rightarrow> (running, Inl (Wrap [] e))
                | None \<Rightarrow> (running @ [ref], Inr requeue_result))
           | None \<Rightarrow>
               (case find (\<lambda>ref. ref \<notin> set wanted) running of
                  Some ref \<Rightarrow> (removeAll ref running, Inr requeue_result)
                | None \<Rightarrow> (running, Inr done_result))))"

text \<open>Runs of the handler while it asks to be requeued, with fuel; each run shuffles anew.\<close>

fun wc_iterate ::
  "nat \<Rightarrow> (nat \<Rightarrow> Synthesizer list \<Rightarrow> Synthesizer list) \<Rightarrow> Synthesizer list \<Rightarrow> running \<Rightarrow> running \<times> bool" where
  "wc_iterate 0 shuffle synths running = (running, False)"
| "wc_iterate (Suc n) shuffle synths running =
     (case wc_Reconcile (shuffle n) (\<lambda>_. None) (Inr synths) running of
        (running', Inr r) \<Rightarrow> if Requeue r then wc_iterate n shuffle synths running' else (running', True)
      | (running', Inl e) \<Rightarrow> (running', False))"

section \<open>Lemmas\<close>

lemma set_revision_spec:
  "set_revision revs irs = (ch, irs') \<Longrightarrow>
     find (\<lambda>ir. ir_Key ir = ir_Key revs) irs' = Some revs \<and>
     (ch \<longleftrightarrow> irs' \<noteq> irs) \<and>
     filter (\<lambda>ir. ir_Key ir \<noteq> ir_Key revs) irs' = filter (\<lambda>ir. ir_Key ir \<noteq> ir_Key revs) irs \<and>
     (distinct (map ir_Key irs) \<longrightarrow> distinct (map ir_Key irs')) \<and>
     ir_Key ` set irs' = insert (ir_Key revs) (ir_Key ` set irs)"
proof (induction irs arbitrary: irs')
  case (Cons ir irs)
  show ?case
  proof (cases "ir_Key ir = ir_Key revs")
    case True
    with Cons.prems show ?thesis by (auto split: if_splits)
  next
    case False
    with Cons.prems obtain irs1 where s: "set_revision revs irs = (ch, irs1)" "irs' = ir # irs1"
      by (auto split: prod.splits)
    from Cons.IH [OF s(1)] s(2) False show ?thesis by auto
  qed
qed auto

lemma ignore_set_status [simp]: "ShouldIgnoreSideEffects (co\<lparr>comp_Status := s\<rparr>) = ShouldIgnoreSideEffects co"
  by (simp add: ShouldIgnoreSideEffects_def)

lemma record_input_spec:
  assumes "record_input t gvk meta synth co = Some co'"
  shows "\<exists>key deferred irs. findRefKey co synth gvk meta = (key, deferred) \<and> key \<noteq> [] \<and>
     set_revision (NewInputRevisions (ResourceVersion meta) (Annotations meta) key) (InputRevs (comp_Status co)) = (True, irs) \<and>
     co' = set_status (\<lambda>s. s\<lparr>InputRevs := irs,
       PendingResynthesis := (if deferred \<and> PendingResynthesis s = None \<and> \<not> ShouldIgnoreSideEffects co
                              then Some t else PendingResynthesis s)\<rparr>) co"
proof -
  obtain key deferred where k: "findRefKey co synth gvk meta = (key, deferred)" by force
  obtain ch irs where s: "set_revision (NewInputRevisions (ResourceVersion meta) (Annotations meta) key)
      (InputRevs (comp_Status co)) = (ch, irs)" by force
  have "key \<noteq> []" "ch"
    using assms k s by (auto simp: record_input_def setInputRevisions_def split: if_splits bool.splits)
  moreover have "co' = set_status (\<lambda>s. s\<lparr>InputRevs := irs,
       PendingResynthesis := (if deferred \<and> PendingResynthesis s = None \<and> \<not> ShouldIgnoreSideEffects co
                              then Some t else PendingResynthesis s)\<rparr>) co"
    using assms k s calculation by (auto simp: record_input_def setInputRevisions_def split: if_splits)
  ultimately show ?thesis
    using k s by (intro exI [of _ key] exI [of _ deferred] exI [of _ irs] conjI) simp_all
qed

lemma visit_comps_Some: "visit_comps t gvk meta synth comps = Some co' \<Longrightarrow> \<exists>co \<in> set comps. record_input t gvk meta synth co = Some co'"
  by (induction comps) (auto split: option.splits)

lemma visit_synths_update:
  "UpdateCompositionStatus co' \<in> set (fst (visit_synths t cl gvk meta synths)) \<Longrightarrow>
     \<exists>synth \<in> set synths. \<exists>comps. kw_list_comps cl (Name synth) (Namespace meta) (Name meta) = Inr comps \<and>
       (\<exists>co \<in> set comps. record_input t gvk meta synth co = Some co')"
  by (induction synths) (auto split: sum.splits option.splits dest: visit_comps_Some)

lemma findRefKey_key:
  assumes "findRefKey co synth gvk meta = (key, deferred)" "key \<noteq> []"
  shows "(\<exists>b \<in> set (Bindings (comp_Spec co)). b_Key b = key \<and> rb_Name (b_Resource b) = Name meta \<and>
         rb_Namespace (b_Resource b) = Namespace meta) \<and>
     (\<exists>ref \<in> set (Refs (synth_Spec synth)). ref_Key ref = key \<and> ref_Resource ref = gvk \<and> ref_Defer ref = deferred)"
  using assms by (auto simp: findRefKey_def Let_def dest!: find_Some_P split: option.splits)

text \<open>
  A kind watch controller changes a composition only to record an input that it really has: the
  resource is bound under a key that the synthesizer refers to with the watched kind. The recorded
  revision is the one read from the resource, it is the first for its key, the revisions of other
  inputs stay as they were, and a resynthesis becomes pending only for a deferred input of a
  composition that does not ignore side effects and has none pending.
\<close>
theorem watch_records_input:
  assumes "UpdateCompositionStatus co' \<in> set (fst (kw_Reconcile shuffle t cl gvk req))"
  shows "\<exists>meta synth co key deferred irs. kw_get_meta cl req = Inr meta \<and>
     (\<exists>b \<in> set (Bindings (comp_Spec co)). b_Key b = key \<and> rb_Name (b_Resource b) = Name meta \<and>
         rb_Namespace (b_Resource b) = Namespace meta) \<and>
     (\<exists>ref \<in> set (Refs (synth_Spec (synth :: Synthesizer))). ref_Key ref = key \<and> ref_Resource ref = gvk \<and> ref_Defer ref = deferred) \<and>
     find (\<lambda>ir. ir_Key ir = key) irs = Some (NewInputRevisions (ResourceVersion meta) (Annotations meta) key) \<and>
     irs \<noteq> InputRevs (comp_Status co) \<and>
     filter (\<lambda>ir. ir_Key ir \<noteq> key) irs = filter (\<lambda>ir. ir_Key ir \<noteq> key) (InputRevs (comp_Status co)) \<and>
     co' = set_status (\<lambda>s. s\<lparr>InputRevs := irs,
       PendingResynthesis := (if deferred \<and> PendingResynthesis s = None \<and> \<not> ShouldIgnoreSideEffects co
                              then Some t else PendingResynthesis s)\<rparr>) co"
proof -
  from assms obtain meta synths where m: "kw_get_meta cl req = Inr meta"
    "UpdateCompositionStatus co' \<in> set (fst (visit_synths t cl gvk meta (shuffle synths)))"
    by (auto simp: kw_Reconcile_def split: sum.splits)
  from visit_synths_update [OF m(2)] obtain synth co where r: "record_input t gvk meta synth co = Some co'" by blast
  from record_input_spec [OF r] obtain key deferred irs where k: "findRefKey co synth gvk meta = (key, deferred)" "key \<noteq> []"
     "set_revision (NewInputRevisions (ResourceVersion meta) (Annotations meta) key) (InputRevs (comp_Status co)) = (True, irs)"
     "co' = set_status (\<lambda>s. s\<lparr>InputRevs := irs,
       PendingResynthesis := (if deferred \<and> PendingResynthesis s = None \<and> \<not> ShouldIgnoreSideEffects co
                              then Some t else PendingResynthesis s)\<rparr>) co" by blast
  have key: "ir_Key (NewInputRevisions (ResourceVersion meta) (Annotations meta) key) = key"
    by (simp add: NewInputRevisions_def Let_def)
  note spec = set_revision_spec [OF k(3), unfolded key]
  have irs: "find (\<lambda>ir. ir_Key ir = key) irs = Some (NewInputRevisions (ResourceVersion meta) (Annotations meta) key)"
    "irs \<noteq> InputRevs (comp_Status co)"
    "filter (\<lambda>ir. ir_Key ir \<noteq> key) irs = filter (\<lambda>ir. ir_Key ir \<noteq> key) (InputRevs (comp_Status co))"
    using spec by blast+
  show ?thesis
    using m(1) findRefKey_key [OF k(1,2)] irs k(4)
    by (intro exI [of _ meta] exI [of _ synth] exI [of _ co] exI [of _ key] exI [of _ deferred] exI [of _ irs] conjI) blast+
qed

definition input_gvk :: "string \<Rightarrow> ResourceRef" where
  "input_gvk k = \<lparr>rr_Group = [], rr_Version = ''v1'', rr_Kind = k\<rparr>"

definition input_synth :: Synthesizer where
  "input_synth = sample_synth\<lparr>synth_Spec := (synth_Spec sample_synth)\<lparr>
     Refs := [\<lparr>ref_Key = ''in'', ref_Resource = input_gvk ''ConfigMap'', ref_Defer = True\<rparr>]\<rparr>\<rparr>"

definition input_comp :: Composition where
  "input_comp = sample_comp\<lparr>comp_Spec := (comp_Spec sample_comp)\<lparr>
     Bindings := [\<lparr>b_Key = ''in'', b_Resource = \<lparr>rb_Name = ''cm'', rb_Namespace = ''ns''\<rparr>\<rparr>]\<rparr>\<rparr>"

definition input_meta :: ObjectMeta where
  "input_meta =
     \<lparr>Name = ''cm'', Namespace = ''ns'', GenerateName = [], UID = [], ResourceVersion = ''9'', Generation = 1,
      CreationTimestamp = 0, DeletionTimestamp = None, Labels = None, Annotations = None, Finalizers = [], OwnerReferences = []\<rparr>"

definition sample_kw_client :: kw_client where
  "sample_kw_client =
     \<lparr>kw_get_meta = (\<lambda>_. Inr input_meta), kw_list_synths = (\<lambda>_. Inr [input_synth]),
      kw_list_comps = (\<lambda>_ _ _. Inr [input_comp]), kw_write = (\<lambda>_. None)\<rparr>"

lemmas kw_eval = kw_Reconcile_def sample_kw_client_def input_synth_def input_comp_def input_meta_def input_gvk_def
  record_input_def findRefKey_def setInputRevisions_def NewInputRevisions_def ShouldIgnoreSideEffects_def Let_def
  ParseInt_empty sample_comp_def sample_synth_def zero_Synthesizer_def sample_synthesis_def zero_Synthesis_def

theorem watch_records_input_witness:
  "\<exists>co'. fst (kw_Reconcile (\<lambda>xs. xs) 50 sample_kw_client (input_gvk ''ConfigMap'') (key_of input_meta)) = [UpdateCompositionStatus co'] \<and>
     (\<exists>key irs. find (\<lambda>ir. ir_Key ir = key) irs = Some (NewInputRevisions ''9'' None key) \<and> InputRevs (comp_Status co') = irs)"
proof -
  obtain co' where u: "fst (kw_Reconcile (\<lambda>xs. xs) 50 sample_kw_client (input_gvk ''ConfigMap'') (key_of input_meta)) = [UpdateCompositionStatus co']"
    by (simp add: kw_eval)
  then have "UpdateCompositionStatus co' \<in> set (fst (kw_Reconcile (\<lambda>xs. xs) 50 sample_kw_client (input_gvk ''ConfigMap'') (key_of input_meta)))"
    by simp
  from watch_records_input [OF this] obtain meta key irs where w: "kw_get_meta sample_kw_client (key_of input_meta) = Inr meta"
    "find (\<lambda>ir. ir_Key ir = key) irs = Some (NewInputRevisions (ResourceVersion meta) (Annotations meta) key)"
    "InputRevs (comp_Status co') = irs"
    by auto
  have "meta = input_meta" using w(1) by (simp add: sample_kw_client_def)
  with w(2,3) u show ?thesis by (auto simp: input_meta_def)
qed

text \<open>
  Two inputs of different kinds with the same name and namespace shadow each other: when both
  are bound, a change of the second one is never recorded, because only the first binding with that
  name is compared with the references.
\<close>
theorem same_name_input_ignored:
  assumes "Bindings (comp_Spec co) = [\<lparr>b_Key = k1, b_Resource = res\<rparr>, \<lparr>b_Key = k2, b_Resource = res\<rparr>]"
    and "Refs (synth_Spec synth) = [\<lparr>ref_Key = k1, ref_Resource = g1, ref_Defer = d1\<rparr>, \<lparr>ref_Key = k2, ref_Resource = g2, ref_Defer = d2\<rparr>]"
    and "k1 \<noteq> k2" "g1 \<noteq> g2" "rb_Name res = Name meta" "rb_Namespace res = Namespace meta"
  shows "record_input t g2 meta synth co = None"
  using assms by (simp add: record_input_def findRefKey_def)

theorem same_name_input_ignored_witness:
  "record_input 5 (input_gvk ''Secret'') input_meta
     (sample_synth\<lparr>synth_Spec := (synth_Spec sample_synth)\<lparr>
        Refs := [\<lparr>ref_Key = ''a'', ref_Resource = input_gvk ''ConfigMap'', ref_Defer = False\<rparr>,
                 \<lparr>ref_Key = ''b'', ref_Resource = input_gvk ''Secret'', ref_Defer = False\<rparr>]\<rparr>\<rparr>)
     (sample_comp\<lparr>comp_Spec := (comp_Spec sample_comp)\<lparr>
        Bindings := [\<lparr>b_Key = ''a'', b_Resource = \<lparr>rb_Name = ''cm'', rb_Namespace = ''ns''\<rparr>\<rparr>,
                     \<lparr>b_Key = ''b'', b_Resource = \<lparr>rb_Name = ''cm'', rb_Namespace = ''ns''\<rparr>\<rparr>]\<rparr>\<rparr>) = None"
  by (rule same_name_input_ignored [where res = "\<lparr>rb_Name = ''cm'', rb_Namespace = ''ns''\<rparr>" and ?k1.0 = "''a''" and ?k2.0 = "''b''"
        and ?g1.0 = "input_gvk ''ConfigMap''" and ?d1.0 = False and ?d2.0 = False])
    (simp_all add: input_gvk_def input_meta_def)

subsection \<open>The watch controller converges\<close>

lemma set_wanted_refs: "set ys = set xs \<Longrightarrow> set (wanted_refs ys) = set (wanted_refs xs)"
  by (auto simp: wanted_refs_def)

definition distance :: "Synthesizer list \<Rightarrow> running \<Rightarrow> nat" where
  "distance synths running =
     card (set (wanted_refs synths) - set running) + card (set running - set (wanted_refs synths))"

lemma card_step: "finite W \<Longrightarrow> x \<in> W \<Longrightarrow> x \<notin> R \<Longrightarrow> card (W - R) = Suc (card (W - insert x R))"
  by (metis DiffI Diff_insert card_Suc_Diff1 finite_Diff)

lemma wc_Reconcile_progress:
  assumes "set (shuffle synths) = set synths"
  shows "case wc_Reconcile shuffle (\<lambda>_. None) (Inr synths) running of
     (running', Inr r) \<Rightarrow>
       if Requeue r then distance synths running = Suc (distance synths running')
       else running' = running \<and> set running = set (wanted_refs synths)
   | (running', Inl e) \<Rightarrow> False"
proof -
  let ?w = "wanted_refs (shuffle synths)"
  note w = set_wanted_refs [OF assms]
  show ?thesis
  proof (cases "find (\<lambda>ref. ref \<notin> set running) ?w")
    case (Some ref)
    from find_Some_P [OF Some] w have ref: "ref \<in> set (wanted_refs synths)" "ref \<notin> set running" by auto
    have "set running \<union> {ref} - set (wanted_refs synths) = set running - set (wanted_refs synths)"
      using ref by auto
    with card_step [OF _ ref] have "distance synths running = Suc (distance synths (running @ [ref]))"
      unfolding distance_def by simp
    with Some show ?thesis by (simp add: wc_Reconcile_def)
  next
    case None
    then have sub: "set (wanted_refs synths) \<subseteq> set running" using w by (auto simp: find_None_P)
    show ?thesis
    proof (cases "find (\<lambda>ref. ref \<notin> set ?w) running")
      case (Some ref)
      from find_Some_P [OF Some] w have ref: "ref \<in> set running" "ref \<notin> set (wanted_refs synths)" by auto
      have "set (wanted_refs synths) - (set running - {ref}) = set (wanted_refs synths) - set running"
        "set running - {ref} - set (wanted_refs synths) = set running - insert ref (set (wanted_refs synths))"
        using ref by auto
      with card_step [OF _ ref] have "distance synths running = Suc (distance synths (removeAll ref running))"
        unfolding distance_def by simp
      with None Some show ?thesis by (simp add: wc_Reconcile_def)
    next
      case None': None
      then have "set running \<subseteq> set (wanted_refs synths)" using w by (auto simp: find_None_P)
      with None None' sub show ?thesis by (simp add: wc_Reconcile_def)
    qed
  qed
qed

lemma wc_iterate_converges:
  assumes "\<And>n. set (shuffle n synths) = set synths" "distance synths running < fuel"
  shows "\<exists>running'. wc_iterate fuel shuffle synths running = (running', True) \<and> set running' = set (wanted_refs synths)"
  using assms(2)
proof (induction fuel arbitrary: running)
  case (Suc n)
  note pr = wc_Reconcile_progress [of "shuffle n", OF assms(1), of running]
  obtain running' out where r: "wc_Reconcile (shuffle n) (\<lambda>_. None) (Inr synths) running = (running', out)" by force
  with pr obtain res where res: "out = Inr res" by (cases out) auto
  show ?case
  proof (cases "Requeue res")
    case True
    with pr r res Suc.prems have "distance synths running' < n" by simp
    from Suc.IH [OF this] r res True show ?thesis by simp
  next
    case False
    with pr r res show ?thesis by simp
  qed
qed simp

text \<open>
  C33. The watch controller converges: requeued while it asks for it, and with the list of
  synthesizers unchanged, it starts and stops one controller per run and reaches, after as many runs
  as there are controllers missing or superfluous, the state in which exactly the kinds referenced by
  live synthesizers are watched; then it stops asking.
\<close>
theorem watch_converges:
  assumes "\<And>n. set (shuffle n synths) = set synths"
  shows "\<exists>running'. wc_iterate (Suc (distance synths running)) shuffle synths running = (running', True) \<and>
     set running' = set (wanted_refs synths)"
  by (rule wc_iterate_converges) (simp_all add: assms)

theorem watch_converges_witness:
  "\<exists>running'. wc_iterate (Suc (distance [input_synth] [input_gvk ''Secret''])) (\<lambda>_ xs. rev xs) [input_synth] [input_gvk ''Secret''] = (running', True) \<and>
     set running' = {input_gvk ''ConfigMap''}"
  using watch_converges [of "\<lambda>_ xs. rev xs" "[input_synth]" "[input_gvk ''Secret'']"]
  by (simp add: wanted_refs_def input_synth_def sample_synth_def zero_Synthesizer_def)

end
