(* ===== verification/Pod_Contract.thy ===== *)
theory Pod_Contract
  imports Eno_Samples
begin

text \<open>
  What the controller and the executor rely on of a synthesizer pod: the environment that
  \<open>newPod\<close> writes is the one \<open>LoadEnv\<close> reads back, and the labels it writes are those the informer
  index, the event mapping and \<open>podIsCurrent\<close> look up.
\<close>

definition reserved_label_keys :: "string list" where
  "reserved_label_keys = [CompositionNameLabelKey, CompositionNamespaceLabelKey, SynthesisUUIDLabelKey]"

definition overrides_spare_labels :: "Synthesizer \<Rightarrow> bool" where
  "overrides_spare_labels syn =
     list_all (\<lambda>k. k \<notin> fst ` set (case po_Labels (SPodOverrides (synth_Spec syn)) of None \<Rightarrow> [] | Some kvs \<Rightarrow> kvs))
       reserved_label_keys"

lemma newPod_env:
  assumes "newPod cfg co syn = Inr pod" "current co = Some cur"
  shows "Env (hd (Containers (pod_Spec pod))) =
     base_env co cur @ map (\<lambda>ev. \<lparr>ev_Name = ev_Name ev, ev_Value = ev_Value ev\<rparr>)
       (filterEnv (base_env co cur) (SynthesisEnv (comp_Spec co)))"
  using assms by (auto simp: newPod_def pod_spec_def Let_def)

lemma kubelet_env_base:
  assumes "newPod cfg co syn = Inr pod" "current co = Some cur"
    and "kubelet_env (Env (hd (Containers (pod_Spec pod)))) getenv" "e \<in> set (base_env co cur)"
  shows "getenv (ev_Name e) = ev_Value e"
  using assms base_env_once [OF assms(4)]
  by (auto simp: kubelet_env_def newPod_env list_all_iff)

text \<open>
  Inside the pod that \<open>newPod\<close> builds, \<open>LoadEnv\<close> gives back the composition's name and
  namespace, the UUID of the current synthesis and the number of the next attempt, whatever
  variables the composition itself asks for: \<open>filterEnv\<close> keeps it from overriding them.
\<close>
lemma LoadEnv_newPod:
  assumes "newPod cfg co syn = Inr pod" "current co = Some cur"
    and "kubelet_env (Env (hd (Containers (pod_Spec pod)))) getenv"
    and "- int int64_cutoff \<le> Attempts cur + 1" "Attempts cur + 1 < int int64_cutoff"
  shows "LoadEnv getenv =
     \<lparr>CompositionName = Name co, CompositionNamespace = Namespace co,
      ee_SynthesisUUID = UUID cur, SynthesisAttempt = Attempts cur + 1\<rparr>"
proof -
  have "list_all (\<lambda>e. getenv (ev_Name e) = ev_Value e) (base_env co cur)"
    using kubelet_env_base [OF assms(1,2,3)] by (simp add: list_all_iff)
  then have "getenv ''COMPOSITION_NAME'' = Name co" "getenv ''COMPOSITION_NAMESPACE'' = Namespace co"
    "getenv ''SYNTHESIS_UUID'' = UUID cur" "getenv ''SYNTHESIS_ATTEMPT'' = Itoa (Attempts cur + 1)"
    by (simp_all add: base_env_def)
  then show ?thesis
    by (simp add: LoadEnv_def ParseInt_Itoa [OF assms(4,5)])
qed

definition hijack_comp :: Composition where
  "hijack_comp = sample_comp\<lparr>comp_Spec := (comp_Spec sample_comp)\<lparr>SynthesisEnv :=
     [\<lparr>ev_Name = ''SYNTHESIS_UUID'', ev_Value = ''evil''\<rparr>]\<rparr>\<rparr>"

definition hijack_getenv :: "string \<Rightarrow> string" where
  "hijack_getenv n = (case map_of (map (\<lambda>e. (ev_Name e, ev_Value e)) (base_env hijack_comp sample_synthesis)) n of
     None \<Rightarrow> [] | Some v \<Rightarrow> v)"

lemma hijack_env:
  assumes "newPod sample_config hijack_comp sample_synth = Inr pod"
  shows "current hijack_comp = Some sample_synthesis"
    and "kubelet_env (Env (hd (Containers (pod_Spec pod)))) hijack_getenv"
proof -
  show cur: "current hijack_comp = Some sample_synthesis"
    by (simp add: hijack_comp_def sample_comp_def)
  have "filterEnv (base_env hijack_comp sample_synthesis) (SynthesisEnv (comp_Spec hijack_comp)) = []"
    by (simp add: filterEnv_def base_env_def hijack_comp_def sample_comp_def)
  then show "kubelet_env (Env (hd (Containers (pod_Spec pod)))) hijack_getenv"
    using newPod_env [OF assms cur] by (simp add: kubelet_env_def hijack_getenv_def base_env_def)
qed

text \<open>
  Unless the synthesizer's pod overrides replace the label keys Eno uses, a pod built for a
  composition is found by the composition's index value, counts as current for the synthesis it
  was built for, and its events are mapped back to the composition.
\<close>
theorem newPod_indexed:
  assumes "newPod cfg co syn = Inr pod" "overrides_spare_labels syn"
    and "Name co \<noteq> []" "Namespace co \<noteq> []"
  shows "PodByCompIdxValueFromPod pod = PodByCompIdxValueFromComp co \<and>
     PodByCompIdxValueFromPod pod = PodByCompIdxValueFromNamespacedName (key_of co) \<and>
     podIsCurrent co pod \<and> PodToCompMapFunc pod = [key_of co]"
proof -
  obtain cur where cur: "current co = Some cur"
    using assms(1) by (auto simp: newPod_def split: option.splits)
  have get: "gomap_get (Labels pod) CompositionNameLabelKey = Name co"
    "gomap_get (Labels pod) CompositionNamespaceLabelKey = Namespace co"
    "gomap_get (Labels pod) SynthesisUUIDLabelKey = UUID cur"
    using assms(2) newPod_labels [OF assms(1) cur]
    by (simp_all add: overrides_spare_labels_def reserved_label_keys_def gomap_get_def pod_label_keys)
  have "Labels pod \<noteq> None"
    using assms(1) cur by (auto simp: newPod_def Let_def)
  with get cur assms(3,4) show ?thesis
    by (auto simp: PodByCompIdxValueFromPod_def PodByCompIdxValueFromComp_def
        PodByCompIdxValueFromNamespacedName_def key_of_def podIsCurrent_def PodToCompMapFunc_def
        PodReferencesComposition_def)
qed

theorem newPod_indexed_witness:
  "\<exists>pod. newPod sample_config sample_comp sample_synth = Inr pod \<and> podIsCurrent sample_comp pod \<and>
     PodByCompIdxValueFromPod pod = ''comp/ns''"
proof -
  obtain pod where pod: "newPod sample_config sample_comp sample_synth = Inr pod"
    by (simp add: newPod_def sample_comp_def Let_def)
  have "overrides_spare_labels sample_synth" "Name sample_comp \<noteq> []" "Namespace sample_comp \<noteq> []"
    by (simp_all add: overrides_spare_labels_def reserved_label_keys_def sample_synth_def
        zero_Synthesizer_def sample_comp_def)
  from newPod_indexed [OF pod this] pod show ?thesis
    by (auto simp: PodByCompIdxValueFromComp_def sample_comp_def)
qed

end
