(* ===== verification/Executor.thy ===== *)
theory Executor
  imports Resource Pod_Contract
begin

text \<open>
  The executor that runs inside a synthesizer pod (\<open>internal/execution/executor.go\<close>): it reads the
  composition and its inputs, calls the synthesizer, writes the resulting slices and completes the
  synthesis. The synthesizer process and client-go's retry loop are arguments; the answers to the
  reads and writes of a retried step depend on the attempt.
\<close>

section \<open>Retrying\<close>

text \<open>
  \<open>retry retriable outcome\<close> is the index of the last attempt that client-go runs when attempt
  \<open>n\<close> ends with \<open>outcome n\<close>: it goes on after retriable errors only, and for a limited number of steps.
\<close>

type_synonym retrier = "(api_err \<Rightarrow> bool) \<Rightarrow> (nat \<Rightarrow> api_err option) \<Rightarrow> nat"

locale client_retry =
  fixes retry :: retrier and steps :: nat
  assumes retried: "m < retry r oc \<Longrightarrow> \<exists>e. oc m = Some e \<and> r e"
    and bounded: "retry r oc < steps"
    and stops: "oc (retry r oc) = Some e \<Longrightarrow> r e \<Longrightarrow> Suc (retry r oc) = steps"
begin

lemma eventually_succeeds:
  assumes "oc n = None" "n < steps" "\<And>m. m < n \<Longrightarrow> \<exists>e. oc m = Some e \<and> r e"
  shows "retry r oc = n"
proof (rule ccontr)
  assume ne: "retry r oc \<noteq> n"
  show False
  proof (cases "retry r oc < n")
    case True
    with assms(3) [OF True] stops [of oc r] assms(2) show False by force
  next
    case False
    with ne retried [of n r oc] assms(1) show False by auto
  qed
qed

end

fun retry_from :: "nat \<Rightarrow> nat \<Rightarrow> (api_err \<Rightarrow> bool) \<Rightarrow> (nat \<Rightarrow> api_err option) \<Rightarrow> nat" where
  "retry_from 0 n r oc = n"
| "retry_from (Suc k) n r oc =
     (case oc n of
        None \<Rightarrow> n
      | Some e \<Rightarrow> if r e then retry_from k (Suc n) r oc else n)"

lemma retry_from_spec:
  "n \<le> retry_from k n r oc \<and> retry_from k n r oc \<le> n + k \<and>
   (\<forall>m. n \<le> m \<and> m < retry_from k n r oc \<longrightarrow> (\<exists>e. oc m = Some e \<and> r e)) \<and>
   (\<forall>e. oc (retry_from k n r oc) = Some e \<and> r e \<longrightarrow> retry_from k n r oc = n + k)"
proof (induction k arbitrary: n)
  case (Suc k)
  show ?case
  proof (cases "oc n")
    case (Some e)
    show ?thesis
    proof (cases "r e")
      case True
      have "\<exists>e. oc m = Some e \<and> r e" if "n \<le> m" "m < retry_from k (Suc n) r oc" for m
        using Suc.IH [of "Suc n"] that Some True by (cases "m = n") auto
      with Suc.IH [of "Suc n"] Some True show ?thesis by simp
    qed (use Some in auto)
  qed auto
qed auto

lemma retry_from_numeral [simp]:
  "retry_from (numeral k) n r oc =
     (case oc n of None \<Rightarrow> n | Some e \<Rightarrow> if r e then retry_from (pred_numeral k) (Suc n) r oc else n)"
  by (simp add: numeral_eq_Suc)

lemma client_retry_loop: "client_retry (retry_from k 0) (Suc k)"
proof
  fix r oc m and e :: api_err
  note spec = retry_from_spec [of 0 k r oc]
  show "m < retry_from k 0 r oc \<Longrightarrow> \<exists>e. oc m = Some e \<and> r e"
    using spec by blast
  show "retry_from k 0 r oc < Suc k"
    using spec by simp
  show "oc (retry_from k 0 r oc) = Some e \<Longrightarrow> r e \<Longrightarrow> Suc (retry_from k 0 r oc) = Suc k"
    using spec by simp
qed

interpretation slice_retry: client_retry "retry_from 4 0" 5
  using client_retry_loop [of 4] by simp

interpretation status_retry: client_retry "retry_from 3 0" 4
  using client_retry_loop [of 3] by simp

section \<open>The executor\<close>

record ResourceList =
  rl_Items :: "Unstructured list"
  rl_Results :: "Result list"

record executor =
  ex_get_comp :: "nat \<Rightarrow> NamespacedName \<Rightarrow> api_err + Composition"
  ex_get_synth :: "string \<Rightarrow> api_err + Synthesizer"
  ex_get_obj :: "ResourceRef \<Rightarrow> NamespacedName \<Rightarrow> api_err + Unstructured"
  ex_get_slice :: "NamespacedName \<Rightarrow> api_err + ResourceSlice"
  ex_create :: "nat \<Rightarrow> ResourceSlice \<Rightarrow> api_err + ResourceSlice"
  ex_update :: "nat \<Rightarrow> Composition \<Rightarrow> api_err option"
  ex_Handler :: "Synthesizer \<Rightarrow> Unstructured list \<Rightarrow> string + ResourceList"
  ex_codec :: codec
  ex_retry_slice :: retrier
  ex_retry_status :: retrier
  ex_now :: time

definition maxSliceJsonBytes :: nat where
  "maxSliceJsonBytes = 1024 * 512"

definition skipSynthesis :: "Composition \<Rightarrow> ExecEnv \<Rightarrow> string option" where
  "skipSynthesis co env =
     (case current co of
        None \<Rightarrow> Some ''MissingSynthesis''
      | Some syn \<Rightarrow>
          if Synthesized syn \<noteq> None then Some ''AlreadySynthesized''
          else if UUID syn \<noteq> ee_SynthesisUUID env then Some ''UUIDMismatch''
          else if Attempts syn > 0 \<and> Attempts syn > SynthesisAttempt env then Some ''StaleAttempt''
          else None)"

definition bindingsByKey :: "Composition \<Rightarrow> string \<Rightarrow> Binding option" where
  "bindingsByKey co = map_of (rev (map (\<lambda>b. (b_Key b, b)) (Bindings (comp_Spec co))))"

definition annotate_input :: "string \<Rightarrow> Unstructured \<Rightarrow> Unstructured" where
  "annotate_input key obj =
     obj\<lparr>u_Annotations := Some (AList.update ''eno.azure.io/input-key'' key
            (case u_Annotations obj of None \<Rightarrow> [] | Some anno \<Rightarrow> anno))\<rparr>"

fun build_inputs ::
  "executor \<Rightarrow> (string \<Rightarrow> Binding option) \<Rightarrow> Ref list \<Rightarrow> error + (Unstructured list \<times> InputRevisions list)" where
  "build_inputs e bindings [] = Inr ([], [])"
| "build_inputs e bindings (r # rs) =
     (case bindings (ref_Key r) of
        None \<Rightarrow> Inl (Plain ''input is referenced, but not bound'')
      | Some b \<Rightarrow>
          (case ex_get_obj e (ref_Resource r)
                  \<lparr>nn_Namespace = rb_Namespace (b_Resource b), nn_Name = rb_Name (b_Resource b)\<rparr> of
             Inl err \<Rightarrow> Inl (Wrap ''getting resource for ref'' err)
           | Inr obj0 \<Rightarrow>
               let obj = annotate_input (ref_Key r) obj0 in
               (case build_inputs e bindings rs of
                  Inl err \<Rightarrow> Inl err
                | Inr (objs, revs) \<Rightarrow>
                    Inr (obj # objs, NewInputRevisions (u_ResourceVersion obj) (u_Annotations obj) (ref_Key r) # revs))))"

definition buildPodInput ::
  "executor \<Rightarrow> Composition \<Rightarrow> Synthesizer \<Rightarrow> error + (Unstructured list \<times> InputRevisions list)" where
  "buildPodInput e co syn = build_inputs e (bindingsByKey co) (Refs (synth_Spec syn))"

fun fetch_slices :: "executor \<Rightarrow> string \<Rightarrow> string list \<Rightarrow> error + ResourceSlice list" where
  "fetch_slices e ns [] = Inr []"
| "fetch_slices e ns (ref # refs) =
     (case ex_get_slice e \<lparr>nn_Namespace = ns, nn_Name = ref\<rparr> of
        Inl NotFound \<Rightarrow> fetch_slices e ns refs
      | Inl err \<Rightarrow> Inl (Wrap ''fetching current resource slice'' err)
      | Inr slice \<Rightarrow> (case fetch_slices e ns refs of Inl err \<Rightarrow> Inl err | Inr ss \<Rightarrow> Inr (slice # ss)))"

definition fetchPreviousSlices :: "executor \<Rightarrow> Composition \<Rightarrow> error + ResourceSlice list" where
  "fetchPreviousSlices e co =
     (case previous co of
        None \<Rightarrow> Inr []
      | Some p \<Rightarrow> fetch_slices e (Namespace co) (ResourceSlices p))"

abbreviation left_of :: "'a + 'b \<Rightarrow> 'a option" where
  "left_of x \<equiv> (case x of Inl a \<Rightarrow> Some a | Inr _ \<Rightarrow> None)"

definition writeResourceSlice :: "executor \<Rightarrow> ResourceSlice \<Rightarrow> request list \<times> (api_err + ResourceSlice)" where
  "writeResourceSlice e slice =
     (let n = ex_retry_slice e (\<lambda>err. err = ServerTimeout) (\<lambda>n. left_of (ex_create e n slice))
      in (replicate (Suc n) (CreateSlice slice), ex_create e n slice))"

fun write_all :: "executor \<Rightarrow> ResourceSlice list \<Rightarrow> request list \<times> (error + string list)" where
  "write_all e [] = ([], Inr [])"
| "write_all e (slice # slices) =
     (case writeResourceSlice e slice of
        (rs, Inl err) \<Rightarrow> (rs, Inl (Wrap ''creating resource slice'' err))
      | (rs, Inr created) \<Rightarrow>
          (case write_all e slices of
             (rs', Inl err) \<Rightarrow> (rs @ rs', Inl err)
           | (rs', Inr names) \<Rightarrow> (rs @ rs', Inr (Name created # names))))"

definition writeSlices :: "executor \<Rightarrow> Composition \<Rightarrow> ResourceList \<Rightarrow> request list \<times> (error + string list)" where
  "writeSlices e co rl =
     (case fetchPreviousSlices e co of
        Inl err \<Rightarrow> ([], Inl err)
      | Inr prev \<Rightarrow>
          (case Slice (ex_codec e) co prev (rl_Items rl) maxSliceJsonBytes of
             Inl err \<Rightarrow> ([], Inl err)
           | Inr slices \<Rightarrow> write_all e slices))"

definition complete_synthesis ::
  "time \<Rightarrow> Synthesizer \<Rightarrow> string list \<Rightarrow> InputRevisions list \<Rightarrow> Result list \<Rightarrow> Composition \<Rightarrow> Composition" where
  "complete_synthesis t syn refs revs results co =
     map_current (\<lambda>cur. cur\<lparr>Synthesized := Some t, ResourceSlices := refs,
       ObservedSynthesizerGeneration := Generation syn, syn_InputRevisions := revs,
       Results := Results cur @ results\<rparr>) co"

text \<open>Attempt \<open>n\<close> of the status update; the composition was read once before, so this is read \<open>n + 1\<close>.\<close>

definition update_attempt ::
  "executor \<Rightarrow> ExecEnv \<Rightarrow> Composition \<Rightarrow> (Composition \<Rightarrow> Composition) \<Rightarrow> nat \<Rightarrow> request list \<times> api_err option" where
  "update_attempt e env oldComp f n =
     (case ex_get_comp e (Suc n) (key_of oldComp) of
        Inl err \<Rightarrow> ([], Some err)
      | Inr co \<Rightarrow>
          if skipSynthesis co env \<noteq> None then ([], None)
          else ([UpdateCompositionStatus (f co)], ex_update e n (f co)))"

definition updateComposition ::
  "executor \<Rightarrow> ExecEnv \<Rightarrow> Composition \<Rightarrow> (Composition \<Rightarrow> Composition) \<Rightarrow> request list \<times> error option" where
  "updateComposition e env oldComp f =
     (let n = ex_retry_status e (\<lambda>err. err = Conflict) (\<lambda>n. snd (update_attempt e env oldComp f n))
      in (concat (map (\<lambda>m. fst (update_attempt e env oldComp f m)) [0 ..< Suc n]),
          map_option (Wrap []) (snd (update_attempt e env oldComp f n))))"

definition Synthesize :: "executor \<Rightarrow> ExecEnv \<Rightarrow> request list \<times> error option" where
  "Synthesize e env =
     (case ex_get_comp e 0 \<lparr>nn_Namespace = CompositionNamespace env, nn_Name = CompositionName env\<rparr> of
        Inl err \<Rightarrow> ([], Some (Wrap ''fetching composition'' err))
      | Inr co \<Rightarrow>
          if skipSynthesis co env \<noteq> None then ([], None)
          else
            (case ex_get_synth e (SynthesizerName (comp_Spec co)) of
               Inl err \<Rightarrow> ([], Some (Wrap ''fetching synthesizer'' err))
             | Inr syn \<Rightarrow>
                 (case buildPodInput e co syn of
                    Inl err \<Rightarrow> ([], Some err)
                  | Inr (input, revs) \<Rightarrow>
                      (case ex_Handler e syn input of
                         Inl msg \<Rightarrow> ([], Some (Plain ''executing synthesizer''))
                       | Inr out \<Rightarrow>
                           (case writeSlices e co out of
                              (rs, Inl err) \<Rightarrow> (rs, Some err)
                            | (rs, Inr refs) \<Rightarrow>
                                (case updateComposition e env co
                                        (complete_synthesis (ex_now e) syn refs revs (rl_Results out)) of
                                   (us, res) \<Rightarrow> (rs @ us, res)))))))"

section \<open>Lemmas\<close>

lemma build_inputs_keys:
  "build_inputs e bindings rs = Inr (objs, revs) \<Longrightarrow>
     map ir_Key revs = map ref_Key rs \<and> length objs = length rs \<and>
     (\<forall>r \<in> set rs. bindings (ref_Key r) \<noteq> None)"
  by (induction rs arbitrary: objs revs)
    (auto simp: NewInputRevisions_def Let_def split: option.splits sum.splits)

lemma write_all_requests: "set (fst (write_all e slices)) \<subseteq> CreateSlice ` set slices"
  by (induction slices)
    (auto simp: writeResourceSlice_def Let_def split: sum.splits prod.splits if_splits)

lemma writeSlices_requests: "UpdateCompositionStatus co \<notin> set (fst (writeSlices e c rl))"
proof -
  have "r \<in> range CreateSlice" if "r \<in> set (fst (writeSlices e c rl))" for r
    using that write_all_requests by (fastforce simp: writeSlices_def split: sum.splits)
  then show ?thesis by blast
qed

lemma write_all_names:
  "write_all e slices = (rs, Inr names) \<Longrightarrow>
     \<exists>created. names = map Name created \<and> length created = length slices \<and>
       (\<forall>i < length slices. \<exists>n. ex_create e n (slices ! i) = Inr (created ! i))"
proof (induction slices arbitrary: rs names)
  case (Cons slice slices)
  from Cons.prems obtain c rs' names' where c: "snd (writeResourceSlice e slice) = Inr c"
    "write_all e slices = (rs', Inr names')" "names = Name c # names'"
    by (auto split: prod.splits sum.splits)
  from Cons.IH [OF c(2)] obtain created where
    "names' = map Name created" "length created = length slices"
    "\<forall>i < length slices. \<exists>n. ex_create e n (slices ! i) = Inr (created ! i)" by blast
  moreover have "\<exists>n. ex_create e n slice = Inr c"
    using c(1) by (auto simp: writeResourceSlice_def Let_def)
  ultimately show ?case
    using c(3) by (intro exI [of _ "c # created"]) (auto simp: nth_Cons split: nat.splits)
qed simp

lemma update_attempt_request:
  assumes "UpdateCompositionStatus co' \<in> set (fst (update_attempt e env old f n))"
  shows "\<exists>co. ex_get_comp e (Suc n) (key_of old) = Inr co \<and> skipSynthesis co env = None \<and> co' = f co"
  using assms by (auto simp: update_attempt_def split: sum.splits if_splits)

lemma skipSynthesis_None:
  "skipSynthesis co env = None \<longleftrightarrow>
     (\<exists>cur. current co = Some cur \<and> Synthesized cur = None \<and> UUID cur = ee_SynthesisUUID env \<and>
        (Attempts cur \<le> 0 \<or> Attempts cur \<le> SynthesisAttempt env))"
  by (auto simp: skipSynthesis_def split: option.splits)

lemma Synthesize_update:
  assumes "UpdateCompositionStatus co' \<in> set (fst (Synthesize e env))"
  shows "\<exists>co0 syn input revs out rs refs n co.
     ex_get_comp e 0 \<lparr>nn_Namespace = CompositionNamespace env, nn_Name = CompositionName env\<rparr> = Inr co0 \<and>
     ex_get_synth e (SynthesizerName (comp_Spec co0)) = Inr syn \<and>
     buildPodInput e co0 syn = Inr (input, revs) \<and> ex_Handler e syn input = Inr out \<and>
     writeSlices e co0 out = (rs, Inr refs) \<and>
     ex_get_comp e (Suc n) (key_of co0) = Inr co \<and> skipSynthesis co env = None \<and>
     co' = complete_synthesis (ex_now e) syn refs revs (rl_Results out) co"
proof -
  from assms obtain co0 syn input revs out rs refs where s:
    "ex_get_comp e 0 \<lparr>nn_Namespace = CompositionNamespace env, nn_Name = CompositionName env\<rparr> = Inr co0"
    "ex_get_synth e (SynthesizerName (comp_Spec co0)) = Inr syn"
    "buildPodInput e co0 syn = Inr (input, revs)" "ex_Handler e syn input = Inr out"
    "writeSlices e co0 out = (rs, Inr refs)"
    "UpdateCompositionStatus co' \<in> set rs \<or>
     UpdateCompositionStatus co' \<in> set (fst (updateComposition e env co0
        (complete_synthesis (ex_now e) syn refs revs (rl_Results out))))"
    using writeSlices_requests [of co' e]
    by (auto simp: Synthesize_def split: sum.splits if_splits prod.splits) (metis fst_conv)
  have "UpdateCompositionStatus co' \<notin> set rs"
    using writeSlices_requests [of co' e co0 out] s(5) by simp
  with s(6) obtain n where
    "UpdateCompositionStatus co' \<in> set (fst (update_attempt e env co0
        (complete_synthesis (ex_now e) syn refs revs (rl_Results out)) n))"
    by (auto simp: updateComposition_def Let_def)
  from update_attempt_request [OF this] s(1-5) show ?thesis by blast
qed

text \<open>
  C4. The executor completes a synthesis only on the composition as it is when the result is
  written: the composition read just before still has this pod's synthesis, not yet completed and
  not superseded by a later attempt. What it writes changes the current synthesis only: the
  completion time, the synthesizer's generation, one recorded revision per input reference, in
  order, the results of the run, and as slices exactly the names under which the slices cut from the
  run's output were created.
\<close>
theorem executor_completion:
  assumes "UpdateCompositionStatus co' \<in> set (fst (Synthesize e env))"
  shows "\<exists>n co0 co cur syn input revs out slices created.
     ex_get_comp e (Suc n) (key_of co0) = Inr co \<and> current co = Some cur \<and> Synthesized cur = None \<and>
     UUID cur = ee_SynthesisUUID env \<and> (Attempts cur \<le> 0 \<or> Attempts cur \<le> SynthesisAttempt env) \<and>
     ex_Handler e syn input = Inr out \<and> map ir_Key revs = map ref_Key (Refs (synth_Spec syn)) \<and>
     (\<exists>prev. Slice (ex_codec e) co0 prev (rl_Items out) maxSliceJsonBytes = Inr slices) \<and>
     length created = length slices \<and>
     list_all2 (\<lambda>s c. \<exists>n. ex_create e n s = Inr c) slices created \<and>
     co' = set_status (\<lambda>s. s\<lparr>CurrentSynthesis := Some (cur\<lparr>Synthesized := Some (ex_now e),
        ResourceSlices := map Name created, ObservedSynthesizerGeneration := Generation syn,
        syn_InputRevisions := revs, Results := Results cur @ rl_Results out\<rparr>)\<rparr>) co"
proof -
  from Synthesize_update [OF assms] obtain co0 syn input revs out rs refs n co where s:
    "buildPodInput e co0 syn = Inr (input, revs)" "ex_Handler e syn input = Inr out"
    "writeSlices e co0 out = (rs, Inr refs)"
    "ex_get_comp e (Suc n) (key_of co0) = Inr co" "skipSynthesis co env = None"
    "co' = complete_synthesis (ex_now e) syn refs revs (rl_Results out) co" by blast
  from s(5) obtain cur where cur: "current co = Some cur" "Synthesized cur = None"
    "UUID cur = ee_SynthesisUUID env" "Attempts cur \<le> 0 \<or> Attempts cur \<le> SynthesisAttempt env"
    by (auto simp: skipSynthesis_None)
  from s(3) obtain prev slices where sl: "Slice (ex_codec e) co0 prev (rl_Items out) maxSliceJsonBytes = Inr slices"
    "write_all e slices = (rs, Inr refs)"
    by (auto simp: writeSlices_def split: sum.splits)
  from write_all_names [OF sl(2)] obtain created where c: "refs = map Name created" "length created = length slices"
    "\<forall>i < length slices. \<exists>n. ex_create e n (slices ! i) = Inr (created ! i)" by blast
  have keys: "map ir_Key revs = map ref_Key (Refs (synth_Spec syn))"
    using s(1) build_inputs_keys by (simp add: buildPodInput_def)
  have created: "list_all2 (\<lambda>s c. \<exists>n. ex_create e n s = Inr c) slices created"
    using c(2,3) by (simp add: list_all2_conv_all_nth)
  have co': "co' = set_status (\<lambda>s. s\<lparr>CurrentSynthesis := Some (cur\<lparr>Synthesized := Some (ex_now e),
        ResourceSlices := map Name created, ObservedSynthesizerGeneration := Generation syn,
        syn_InputRevisions := revs, Results := Results cur @ rl_Results out\<rparr>)\<rparr>) co"
    using s(6) cur(1) c(1) by (simp add: complete_synthesis_def)
  show ?thesis
    using s(2,4) cur keys sl(1) c(2) created co' by blast
qed

definition sample_executor :: executor where
  "sample_executor =
     \<lparr>ex_get_comp = (\<lambda>_ _. Inr sample_comp), ex_get_synth = (\<lambda>_. Inr sample_synth),
      ex_get_obj = (\<lambda>_ _. Inl NotFound), ex_get_slice = (\<lambda>_. Inl NotFound),
      ex_create = (\<lambda>n s. if n = 0 then Inl ServerTimeout else Inr (s\<lparr>Name := ''comp-x''\<rparr>)),
      ex_update = (\<lambda>n _. if n = 0 then Some Conflict else None),
      ex_Handler = (\<lambda>_ _. Inr \<lparr>rl_Items = [sample_obj ''a''], rl_Results = []\<rparr>),
      ex_codec = sample_codec, ex_retry_slice = retry_from 4 0, ex_retry_status = retry_from 3 0, ex_now = 50\<rparr>"

definition sample_exec_env :: ExecEnv where
  "sample_exec_env = \<lparr>CompositionName = ''comp'', CompositionNamespace = ''ns'', ee_SynthesisUUID = ''u1'', SynthesisAttempt = 1\<rparr>"

definition completed_comp :: Composition where
  "completed_comp = complete_synthesis 50 sample_synth [''comp-x''] [] [] sample_comp"

lemmas exec_eval = Synthesize_def sample_executor_def sample_exec_env_def skipSynthesis_def buildPodInput_def
  writeSlices_def fetchPreviousSlices_def slicing_eval writeResourceSlice_def updateComposition_def
  update_attempt_def Let_def maxSliceJsonBytes_def

theorem executor_completion_witness:
  "UpdateCompositionStatus completed_comp \<in> set (fst (Synthesize sample_executor sample_exec_env)) \<and>
   (\<exists>cur. current sample_comp = Some cur \<and> UUID cur = ee_SynthesisUUID sample_exec_env)"
proof -
  have "UpdateCompositionStatus completed_comp \<in> set (fst (Synthesize sample_executor sample_exec_env))"
    by (simp add: exec_eval completed_comp_def sample_comp_def sample_synth_def sample_synthesis_def
        zero_Synthesizer_def zero_Synthesis_def complete_synthesis_def)
  with executor_completion [OF this] show ?thesis
    by (auto simp: sample_executor_def)
qed

lemma updateComposition_retries:
  assumes "client_retry (ex_retry_status e) steps" "k < steps"
    and "\<And>n. n \<le> k \<Longrightarrow> ex_get_comp e (Suc n) (key_of old) = Inr (read_at n) \<and> skipSynthesis (read_at n) env = None"
    and "\<And>n. n < k \<Longrightarrow> ex_update e n (f (read_at n)) = Some Conflict" and "ex_update e k (f (read_at k)) = None"
  shows "updateComposition e env old f = (map (\<lambda>n. UpdateCompositionStatus (f (read_at n))) [0 ..< Suc k], None)"
proof -
  have at: "update_attempt e env old f n = ([UpdateCompositionStatus (f (read_at n))], ex_update e n (f (read_at n)))" if "n \<le> k" for n
    using assms(3) [OF that] by (simp add: update_attempt_def)
  have last: "ex_retry_status e (\<lambda>err. err = Conflict) (\<lambda>n. snd (update_attempt e env old f n)) = k"
  proof (rule client_retry.eventually_succeeds [OF assms(1)])
    show "snd (update_attempt e env old f k) = None" by (simp add: at assms(5))
    show "\<exists>e'. snd (update_attempt e env old f m) = Some e' \<and> e' = Conflict" if "m < k" for m
      using that by (simp add: at assms(4))
  qed (rule assms(2))
  have "concat (map (\<lambda>m. fst (update_attempt e env old f m)) [0 ..< Suc k]) =
      concat (map (\<lambda>m. [UpdateCompositionStatus (f (read_at m))]) [0 ..< Suc k])"
    by (rule arg_cong [where f = concat], rule map_cong) (auto simp: at)
  then show ?thesis
    unfolding updateComposition_def Let_def last by (simp add: at assms(5) concat_map_singleton)
qed

text \<open>
  A completed run is not lost to concurrent updates: when the first \<open>k\<close> status updates meet a
  conflict and the next one is accepted, with \<open>k\<close> below the number of steps of the retry loop and the
  synthesis still current at each read, the executor sends \<open>k + 1\<close> updates and reports success.
\<close>
theorem executor_retries_conflicts:
  assumes "client_retry (ex_retry_status e) steps" "k < steps"
    and "\<And>n. n \<le> k \<Longrightarrow> ex_get_comp e (Suc n) (key_of old) = Inr (read_at n) \<and> skipSynthesis (read_at n) env = None"
    and "\<And>n. n < k \<Longrightarrow> ex_update e n (f (read_at n)) = Some Conflict" and "ex_update e k (f (read_at k)) = None"
  shows "updateComposition e env old f = (map (\<lambda>n. UpdateCompositionStatus (f (read_at n))) [0 ..< Suc k], None)"
  using updateComposition_retries [OF assms] .

theorem executor_retries_conflicts_witness:
  "snd (updateComposition sample_executor sample_exec_env sample_comp (complete_synthesis 50 sample_synth [] [] [])) = None"
proof -
  let ?f = "complete_synthesis 50 sample_synth [] [] []"
  have r: "client_retry (ex_retry_status sample_executor) 4"
    using status_retry.client_retry_axioms by (simp add: sample_executor_def)
  have reads: "ex_get_comp sample_executor (Suc n) (key_of sample_comp) = Inr sample_comp \<and>
      skipSynthesis sample_comp sample_exec_env = None" for n
    by (simp add: sample_executor_def skipSynthesis_def sample_exec_env_def sample_defs)
  have w: "n < 1 \<Longrightarrow> ex_update sample_executor n (?f sample_comp) = Some Conflict"
    "ex_update sample_executor 1 (?f sample_comp) = None" for n
    by (simp_all add: sample_executor_def)
  from executor_retries_conflicts [of sample_executor 4 1 sample_comp "\<lambda>_. sample_comp" sample_exec_env ?f, OF r _ reads w]
  show ?thesis by simp
qed

end
