(* ===== verification/Aggregation.thy ===== *)
theory Aggregation
  imports Eno_Samples
begin

text \<open>
  The status aggregation controllers (\<open>controllers/aggregation\<close>): the states of the resources of
  a composition's slices become the composition's \<open>Reconciled\<close> and \<open>Ready\<close> times (\<open>slice.go\<close>), a
  composition's status becomes its one-word summary (\<open>composition.go\<close>), and the times of a
  symphony's compositions become the symphony's (\<open>symphony.go\<close>).
\<close>

section \<open>slice.go\<close>

definition resourceNotReconciled :: "Composition \<Rightarrow> ResourceState \<Rightarrow> bool" where
  "resourceNotReconciled co state =
     (\<not> rs_Reconciled state \<or>
      (\<not> rs_Deleted state \<and> \<not> deletion_strategy_orphan co \<and> DeletionTimestamp co \<noteq> None))"

definition compositionStatusTerminal :: "Composition \<Rightarrow> bool" where
  "compositionStatusTerminal co =
     (case current co of
        None \<Rightarrow> True
      | Some cur \<Rightarrow> Synthesized cur = None \<or> (Ready cur \<noteq> None \<and> Reconciled cur \<noteq> None))"

definition compositionStatusInSync :: "Synthesis \<Rightarrow> bool \<Rightarrow> bool \<Rightarrow> bool" where
  "compositionStatusInSync cur reconciled ready =
     (((Reconciled cur \<noteq> None) = reconciled) \<and> ((Ready cur \<noteq> None) = ready))"

record agg =
  maxReadyTime :: "time option"
  a_ready :: bool
  a_reconciled :: bool

definition agg_state :: "Composition \<Rightarrow> ResourceState \<Rightarrow> agg \<Rightarrow> agg" where
  "agg_state co state a =
     \<lparr>maxReadyTime =
        (if rs_Ready state \<noteq> None \<and> (maxReadyTime a = None \<or> time_before (maxReadyTime a) (rs_Ready state))
         then rs_Ready state else maxReadyTime a),
      a_ready = (a_ready a \<and> rs_Ready state \<noteq> None),
      a_reconciled = (a_reconciled a \<and> \<not> resourceNotReconciled co state)\<rparr>"

type_synonym slice_reader = "NamespacedName \<Rightarrow> api_err + ResourceSlice"

text \<open>The loop over the references; \<open>Inl\<close> is an early return of the handler.\<close>

fun agg_slices ::
  "slice_reader \<Rightarrow> Composition \<Rightarrow> string list \<Rightarrow> agg \<Rightarrow> (error + ctrl_Result) + agg" where
  "agg_slices get co [] a = Inr a"
| "agg_slices get co (ref # refs) a =
     (case get \<lparr>nn_Namespace = Namespace co, nn_Name = ref\<rparr> of
        Inl e \<Rightarrow>
          if DeletionTimestamp co \<noteq> None \<and> e = NotFound then agg_slices get co refs a
          else Inl (ignore_not_found (Wrap ''getting resource slice'' e))
      | Inr slice \<Rightarrow>
          if slice_states slice = [] \<and> Resources (slice_Spec slice) \<noteq> []
          then Inr (a\<lparr>a_ready := False, a_reconciled := False\<rparr>)
          else agg_slices get co refs (fold (agg_state co) (slice_states slice) a))"

record sa_client =
  sa_get_comp :: "NamespacedName \<Rightarrow> api_err + Composition"
  sa_get_slice :: slice_reader
  sa_write :: writer

definition agg_zero :: agg where
  "agg_zero = \<lparr>maxReadyTime = None, a_ready = True, a_reconciled = True\<rparr>"

definition agg_update :: "time \<Rightarrow> agg \<Rightarrow> Synthesis \<Rightarrow> Synthesis" where
  "agg_update t a cur =
     (let mx = (if ResourceSlices cur = [] then Reconciled cur else maxReadyTime a)
      in cur\<lparr>Ready := (if a_ready a \<and> mx \<noteq> None then mx else None),
             Reconciled := (if a_reconciled a then Some t else None)\<rparr>)"

definition sa_Reconcile :: "time \<Rightarrow> sa_client \<Rightarrow> NamespacedName \<Rightarrow> request handler_out" where
  "sa_Reconcile t cl req =
     (case sa_get_comp cl req of
        Inl e \<Rightarrow> ([], ignore_not_found (Wrap ''getting composition'' e))
      | Inr co \<Rightarrow>
          if compositionStatusTerminal co then ([], Inr done_result)
          else
            (case current co of
               None \<Rightarrow> ([], Inl NilDeref)
             | Some cur \<Rightarrow>
                 (case agg_slices (sa_get_slice cl) co (ResourceSlices cur) agg_zero of
                    Inl res \<Rightarrow> ([], res)
                  | Inr a \<Rightarrow>
                      if compositionStatusInSync cur (a_reconciled a) (a_ready a) then ([], Inr done_result)
                      else send (sa_write cl)
                             (UpdateCompositionStatus (map_current (agg_update t a) co))
                             ''updating composition status'' done_result)))"

section \<open>composition.go\<close>

definition first_message :: "string \<Rightarrow> Result list \<Rightarrow> string" where
  "first_message sev rs = (case find (\<lambda>r. Severity r = sev) rs of None \<Rightarrow> [] | Some r \<Rightarrow> Message r)"

definition aggregate_error :: "Synthesis \<Rightarrow> string" where
  "aggregate_error cur =
     (let err = first_message ''error'' (Results cur) in
      if err = [] then first_message ''warning'' (Results cur) else err)"

definition aggregate :: "Synthesizer \<Rightarrow> Composition \<Rightarrow> SimplifiedStatus" where
  "aggregate synth co =
     (let cp = (case Simplified (comp_Status co) of None \<Rightarrow> \<lparr>ss_Status = [], ss_Error = []\<rparr> | Some s \<Rightarrow> s) in
      if DeletionTimestamp co \<noteq> None then cp\<lparr>ss_Status := ''Deleting''\<rparr>
      else
        (case current co of
           None \<Rightarrow>
             \<lparr>ss_Status = (if \<not> InputsExist co synth then ''MissingInputs'' else ''PendingSynthesis''), ss_Error = []\<rparr>
         | Some cur \<Rightarrow>
             if UUID cur = [] then \<lparr>ss_Status = ''WaitingForDispatch'', ss_Error = []\<rparr>
             else
               let s0 = ''Synthesizing'';
                   s1 = (if \<not> InputsExist co synth then ''MissingInputs'' else s0);
                   s2 = (if Synthesized cur \<noteq> None then ''Reconciling'' else s1);
                   s3 = (if Reconciled cur \<noteq> None then ''NotReady'' else s2);
                   s4 = (if Ready cur \<noteq> None then ''Ready'' else s3);
                   s5 = (if PendingResynthesis (comp_Status co) \<noteq> None then ''WaitingForCooldown'' else s4);
                   s6 = (if InputsOutOfLockstep co synth then ''MismatchedInputs'' else s5)
               in \<lparr>ss_Status = s6, ss_Error = aggregate_error cur\<rparr>))"

record ca_client =
  ca_get_comp :: "NamespacedName \<Rightarrow> api_err + Composition"
  ca_get_synth :: "string \<Rightarrow> api_err + Synthesizer"
  ca_write :: writer

definition ca_Reconcile :: "ca_client \<Rightarrow> NamespacedName \<Rightarrow> request handler_out" where
  "ca_Reconcile cl req =
     (case ca_get_comp cl req of
        Inl e \<Rightarrow> ([], ignore_not_found (Wrap [] e))
      | Inr co \<Rightarrow>
          (case (case ca_get_synth cl (SynthesizerName (comp_Spec co)) of
                   Inl NotFound \<Rightarrow> Inr zero_Synthesizer | r \<Rightarrow> r) of
             Inl e \<Rightarrow> ([], Inl (Wrap [] e))
           | Inr synth \<Rightarrow>
               let next = aggregate synth co in
               if Some next = Simplified (comp_Status co) then ([], Inr done_result)
               else send (ca_write cl)
                      (MergePatchCompositionStatus (set_status (\<lambda>s. s\<lparr>Simplified := Some next\<rparr>) co))
                      ''updating status'' done_result))"

section \<open>symphony.go\<close>

definition later :: "time option \<Rightarrow> time option \<Rightarrow> time option" where
  "later t u = (if time_before t u \<or> t = None then u else t)"

definition max_times :: "Composition \<Rightarrow> SymphonyStatus \<Rightarrow> SymphonyStatus" where
  "max_times co st =
     (case current co of
        None \<Rightarrow> st
      | Some cur \<Rightarrow> st\<lparr>symph_Ready := later (symph_Ready st) (Ready cur),
                     symph_Reconciled := later (symph_Reconciled st) (Reconciled cur),
                     symph_Synthesized := later (symph_Synthesized st) (Synthesized cur)\<rparr>)"

definition clear_times :: "SymphonyStatus \<Rightarrow> SymphonyStatus" where
  "clear_times st = st\<lparr>symph_Ready := None, symph_Reconciled := None, symph_Synthesized := None\<rparr>"

text \<open>The second loop; the flag is false when it returned early.\<close>

fun filter_times :: "Composition list \<Rightarrow> SymphonyStatus \<Rightarrow> SymphonyStatus \<times> bool" where
  "filter_times [] st = (st, True)"
| "filter_times (co # others) st =
     (case current co of
        None \<Rightarrow> (clear_times st, False)
      | Some cur \<Rightarrow>
          if ObservedCompositionGeneration cur \<noteq> Generation co \<or> DeletionTimestamp co \<noteq> None
          then (clear_times st, False)
          else filter_times others
                 (st\<lparr>symph_Ready := (if Ready cur = None then None else symph_Ready st),
                     symph_Reconciled := (if Reconciled cur = None then None else symph_Reconciled st),
                     symph_Synthesized := (if Synthesized cur = None then None else symph_Synthesized st)\<rparr>))"

definition buildStatus :: "Symphony \<Rightarrow> Composition list \<Rightarrow> SymphonyStatus \<times> bool" where
  "buildStatus symph comps =
     (let st0 = \<lparr>ObservedGeneration = Generation symph, symph_Synthesized = None, symph_Reconciled = None,
                 symph_Ready = None, Synthesizers = Synthesizers (symph_Status symph)\<rparr>;
          synthMap = (\<lambda>co. SynthesizerName (comp_Spec co)) ` set comps
      in (case filter_times comps (fold max_times comps st0) of
            (st, False) \<Rightarrow> (st, False)
          | (st, True) \<Rightarrow>
              if list_ex (\<lambda>v. v_Synthesizer v \<notin> synthMap) (Variations (symph_Spec symph)) then (st, False)
              else (st, st \<noteq> symph_Status symph)))"

record ya_client =
  ya_get_symph :: "NamespacedName \<Rightarrow> api_err + Symphony"
  ya_list_comps :: "string \<Rightarrow> string \<Rightarrow> api_err + Composition list"
  ya_write :: writer

definition ya_Reconcile :: "ya_client \<Rightarrow> NamespacedName \<Rightarrow> request handler_out" where
  "ya_Reconcile cl req =
     (case ya_get_symph cl req of
        Inl e \<Rightarrow> ([], ignore_not_found (Wrap [] e))
      | Inr symph \<Rightarrow>
          (case ya_list_comps cl (Namespace symph) (Name symph) of
             Inl e \<Rightarrow> ([], Inl (Wrap ''listing existing compositions'' e))
           | Inr existing \<Rightarrow>
               (case buildStatus symph existing of
                  (st, False) \<Rightarrow> ([], Inr done_result)
                | (st, True) \<Rightarrow>
                    send (ya_write cl) (MergePatchSymphonyStatus (symph\<lparr>symph_Status := st\<rparr>))
                      ''updating status'' done_result)))"

section \<open>Lemmas\<close>

definition lagging :: "ResourceSlice \<Rightarrow> bool" where
  "lagging slice = (slice_states slice = [] \<and> Resources (slice_Spec slice) \<noteq> [])"

definition found_slices :: "slice_reader \<Rightarrow> Composition \<Rightarrow> string list \<Rightarrow> ResourceSlice list" where
  "found_slices get co refs =
     concat (map (\<lambda>ref. case get \<lparr>nn_Namespace = Namespace co, nn_Name = ref\<rparr> of
                          Inl e \<Rightarrow> [] | Inr s \<Rightarrow> [s]) refs)"

definition agg_reconciled :: "slice_reader \<Rightarrow> Composition \<Rightarrow> string list \<Rightarrow> bool" where
  "agg_reconciled get co refs =
     list_all (\<lambda>s. \<not> lagging s \<and> list_all (\<lambda>st. \<not> resourceNotReconciled co st) (slice_states s))
       (found_slices get co refs)"

definition agg_readied :: "slice_reader \<Rightarrow> Composition \<Rightarrow> string list \<Rightarrow> bool" where
  "agg_readied get co refs =
     list_all (\<lambda>s. \<not> lagging s \<and> list_all (\<lambda>st. rs_Ready st \<noteq> None) (slice_states s))
       (found_slices get co refs)"

definition ready_times :: "slice_reader \<Rightarrow> Composition \<Rightarrow> string list \<Rightarrow> time list" where
  "ready_times get co refs =
     map (\<lambda>st. deref_time (rs_Ready st)) (concat (map slice_states (found_slices get co refs)))"

lemma found_slices_simps [simp]:
  "found_slices get co [] = []"
  "found_slices get co (ref # refs) =
     (case get \<lparr>nn_Namespace = Namespace co, nn_Name = ref\<rparr> of Inl e \<Rightarrow> [] | Inr s \<Rightarrow> [s]) @ found_slices get co refs"
  by (simp_all add: found_slices_def)

lemma fold_agg_flags:
  "a_ready (fold (agg_state co) sts a) \<longleftrightarrow> a_ready a \<and> (\<forall>st \<in> set sts. rs_Ready st \<noteq> None)"
  "a_reconciled (fold (agg_state co) sts a) \<longleftrightarrow> a_reconciled a \<and> (\<forall>st \<in> set sts. \<not> resourceNotReconciled co st)"
  by (induction sts arbitrary: a) (auto simp: agg_state_def)

lemma fold_agg_max:
  assumes "\<forall>st \<in> set sts. rs_Ready st \<noteq> None"
  shows "maxReadyTime (fold (agg_state co) sts a) =
     fold (\<lambda>st m. Some (case m of None \<Rightarrow> deref_time (rs_Ready st) | Some x \<Rightarrow> max x (deref_time (rs_Ready st)))) sts (maxReadyTime a)"
  using assms
  by (induction sts arbitrary: a) (auto simp: agg_state_def split: option.splits)

lemma fold_max_Some:
  "fold (\<lambda>st m. Some (case m of None \<Rightarrow> f st | Some x \<Rightarrow> max x (f st))) xs (Some (y :: int)) =
     Some (Max (insert y (f ` set xs)))"
proof (induction xs arbitrary: y)
  case Nil
  then show ?case by simp
next
  case (Cons x xs)
  have "Max (insert (max y (f x)) (f ` set xs)) = Max (insert y (insert (f x) (f ` set xs)))"
    by (cases "xs = []") (simp_all add: max.assoc)
  with Cons show ?case by simp
qed

lemma fold_max_None:
  "xs \<noteq> [] \<Longrightarrow> fold (\<lambda>st m. Some (case m of None \<Rightarrow> f st | Some x \<Rightarrow> max x (f st))) xs None =
     Some (Max (f ` set xs) :: int)"
  by (cases xs) (simp_all add: fold_max_Some)

lemma agg_slices_Inr:
  assumes "agg_slices get co refs a = Inr a'"
  shows "(if list_ex lagging (found_slices get co refs) then \<not> a_ready a' \<and> \<not> a_reconciled a'
          else a' = fold (agg_state co) (concat (map slice_states (found_slices get co refs))) a)"
  using assms
proof (induction refs arbitrary: a)
  case (Cons ref refs)
  then show ?case
    by (auto simp: lagging_def split: sum.splits if_splits)
qed simp

lemma agg_slices_missing:
  assumes "agg_slices get co refs a = Inr a'" "\<not> list_ex lagging (found_slices get co refs)" "ref \<in> set refs"
  shows "(\<exists>s. get \<lparr>nn_Namespace = Namespace co, nn_Name = ref\<rparr> = Inr s) \<or>
     DeletionTimestamp co \<noteq> None \<and> get \<lparr>nn_Namespace = Namespace co, nn_Name = ref\<rparr> = Inl NotFound"
  using assms
  by (induction refs arbitrary: a) (auto simp: lagging_def split: sum.splits if_splits)

lemma agg_slices_flags:
  assumes "agg_slices get co refs agg_zero = Inr a"
  shows "a_reconciled a \<longleftrightarrow> agg_reconciled get co refs" "a_ready a \<longleftrightarrow> agg_readied get co refs"
  using agg_slices_Inr [OF assms]
  by (auto simp: agg_reconciled_def agg_readied_def list_all_iff list_ex_iff fold_agg_flags agg_zero_def split: if_splits)

lemma agg_slices_max:
  assumes "agg_slices get co refs agg_zero = Inr a" "agg_readied get co refs"
  shows "maxReadyTime a = (if ready_times get co refs = [] then None else Some (Max (set (ready_times get co refs))))"
proof -
  let ?sts = "concat (map slice_states (found_slices get co refs))"
  have a: "a = fold (agg_state co) ?sts agg_zero" and rdy: "\<forall>st \<in> set ?sts. rs_Ready st \<noteq> None"
    using agg_slices_Inr [OF assms(1)] assms(2)
    by (auto simp: agg_readied_def list_all_iff list_ex_iff split: if_splits)
  show ?thesis
  proof (cases "?sts = []")
    case True
    then show ?thesis by (simp add: a ready_times_def agg_zero_def del: concat_eq_Nil_conv)
  next
    case False
    then have "maxReadyTime a = Some (Max ((\<lambda>st. deref_time (rs_Ready st)) ` set ?sts))"
      unfolding a fold_agg_max [OF rdy] by (simp add: agg_zero_def fold_max_None del: set_concat concat_eq_Nil_conv)
    with False show ?thesis by (simp add: ready_times_def del: set_concat concat_eq_Nil_conv)
  qed
qed

lemma sa_Reconcile_update:
  assumes "UpdateCompositionStatus co' \<in> set (fst (sa_Reconcile t cl req))"
  shows "\<exists>co cur a. sa_get_comp cl req = Inr co \<and> current co = Some cur \<and> Synthesized cur \<noteq> None \<and>
     agg_slices (sa_get_slice cl) co (ResourceSlices cur) agg_zero = Inr a \<and>
     \<not> compositionStatusInSync cur (a_reconciled a) (a_ready a) \<and>
     co' = map_current (agg_update t a) co"
  using assms
  by (auto simp: sa_Reconcile_def compositionStatusTerminal_def split: sum.splits if_splits option.splits)

text \<open>
  C24. When the slice aggregation writes a composition's status, only \<open>Ready\<close> and \<open>Reconciled\<close> of
  the current synthesis change, that synthesis is complete, and every referenced slice was read or
  has vanished while the composition is being deleted. \<open>Reconciled\<close> is set exactly when no slice's
  status lags behind its spec and each resource is reconciled (and deleted or orphaned, if the
  composition is being deleted); \<open>Ready\<close> is the latest of the resources' ready times, or the
  reconciliation time of a composition without slices, and is set only when every resource is ready.
\<close>
theorem slice_aggregation_correct:
  assumes "UpdateCompositionStatus co' \<in> set (fst (sa_Reconcile t cl req))"
  shows "\<exists>co cur. sa_get_comp cl req = Inr co \<and> current co = Some cur \<and> Synthesized cur \<noteq> None \<and>
     (let get = sa_get_slice cl; refs = ResourceSlices cur; rt = ready_times get co refs in
      co' = map_current (\<lambda>s. s\<lparr>
         Reconciled := (if agg_reconciled get co refs then Some t else None),
         Ready := (if refs = [] then Reconciled cur
                   else if agg_readied get co refs \<and> rt \<noteq> [] then Some (Max (set rt)) else None)\<rparr>) co \<and>
      (agg_reconciled get co refs \<longrightarrow> list_all (\<lambda>ref. case get \<lparr>nn_Namespace = Namespace co, nn_Name = ref\<rparr> of
          Inr _ \<Rightarrow> True | Inl e \<Rightarrow> e = NotFound \<and> DeletionTimestamp co \<noteq> None) refs))"
proof -
  from sa_Reconcile_update [OF assms] obtain co cur a where
    u: "sa_get_comp cl req = Inr co" "current co = Some cur" "Synthesized cur \<noteq> None"
       "agg_slices (sa_get_slice cl) co (ResourceSlices cur) agg_zero = Inr a"
       "co' = map_current (agg_update t a) co" by blast
  let ?get = "sa_get_slice cl" and ?refs = "ResourceSlices cur"
  note flags = agg_slices_flags [OF u(4)]
  have upd: "agg_update t a cur = cur\<lparr>
         Reconciled := (if agg_reconciled ?get co ?refs then Some t else None),
         Ready := (if ?refs = [] then Reconciled cur
                   else if agg_readied ?get co ?refs \<and> ready_times ?get co ?refs \<noteq> []
                   then Some (Max (set (ready_times ?get co ?refs))) else None)\<rparr>"
    using agg_slices_max [OF u(4)] by (auto simp: agg_update_def flags Let_def agg_readied_def)
  have seen: "agg_reconciled ?get co ?refs \<Longrightarrow> list_all (\<lambda>ref. case ?get \<lparr>nn_Namespace = Namespace co, nn_Name = ref\<rparr> of
          Inr _ \<Rightarrow> True | Inl e \<Rightarrow> e = NotFound \<and> DeletionTimestamp co \<noteq> None) ?refs"
    using agg_slices_missing [OF u(4)]
    by (fastforce simp: list_all_iff agg_reconciled_def list_ex_iff split: sum.splits)
  have "co' = map_current (\<lambda>s. s\<lparr>
         Reconciled := (if agg_reconciled ?get co ?refs then Some t else None),
         Ready := (if ?refs = [] then Reconciled cur
                   else if agg_readied ?get co ?refs \<and> ready_times ?get co ?refs \<noteq> []
                   then Some (Max (set (ready_times ?get co ?refs))) else None)\<rparr>) co"
    using u(2,5) upd by simp
  with u(1,2,3) seen show ?thesis unfolding Let_def by blast
qed

definition agg_slice :: ResourceSlice where
  "agg_slice = sample_slice\<lparr>slice_Status := Some [\<lparr>rs_Reconciled = True, rs_Ready = Some 7, rs_Deleted = False\<rparr>]\<rparr>"

definition synthesized_comp :: Composition where
  "synthesized_comp = map_current (\<lambda>s. s\<lparr>Synthesized := Some 6, ResourceSlices := [''slice'']\<rparr>) sample_comp"

definition sample_sa_client :: sa_client where
  "sample_sa_client = \<lparr>sa_get_comp = (\<lambda>_. Inr synthesized_comp), sa_get_slice = (\<lambda>_. Inr agg_slice), sa_write = (\<lambda>_. None)\<rparr>"

lemmas sa_eval = sa_Reconcile_def sample_sa_client_def synthesized_comp_def agg_slice_def agg_zero_def
  compositionStatusTerminal_def compositionStatusInSync_def agg_state_def resourceNotReconciled_def
  agg_update_def Let_def sample_defs

theorem slice_aggregation_correct_witness:
  "\<exists>co'. fst (sa_Reconcile 9 sample_sa_client (key_of sample_comp)) = [UpdateCompositionStatus co'] \<and>
     co' = map_current (\<lambda>s. s\<lparr>Reconciled := Some 9, Ready := Some 7\<rparr>) synthesized_comp"
proof -
  obtain co' where co': "fst (sa_Reconcile 9 sample_sa_client (key_of sample_comp)) = [UpdateCompositionStatus co']"
    by (simp add: sa_eval)
  then have "UpdateCompositionStatus co' \<in> set (fst (sa_Reconcile 9 sample_sa_client (key_of sample_comp)))" by simp
  from slice_aggregation_correct [OF this] co' show ?thesis
    by (auto simp: Let_def agg_reconciled_def agg_readied_def ready_times_def lagging_def sa_eval split: if_splits)
qed

lemma aggregate_Deleting: "(ss_Status (aggregate synth co) = ''Deleting'') = (DeletionTimestamp co \<noteq> None)"
  by (cases "current co") (simp_all add: aggregate_def Let_def)

lemma aggregate_Ready:
  "(ss_Status (aggregate synth co) = ''Ready'') =
     (DeletionTimestamp co = None \<and> PendingResynthesis (comp_Status co) = None \<and>
      \<not> InputsOutOfLockstep co synth \<and>
      (\<exists>cur. current co = Some cur \<and> UUID cur \<noteq> [] \<and> Ready cur \<noteq> None))"
  by (cases "current co") (simp_all add: aggregate_def Let_def)

lemma inputs_Simplified [simp]:
  "InputsExist (set_status (\<lambda>s. s\<lparr>Simplified := x\<rparr>) co) synth = InputsExist co synth"
  "InputsOutOfLockstep (set_status (\<lambda>s. s\<lparr>Simplified := x\<rparr>) co) synth = InputsOutOfLockstep co synth"
  by (simp_all add: InputsExist_def InputsOutOfLockstep_def cong: option.case_cong)

lemma aggregate_live:
  "DeletionTimestamp co = None \<Longrightarrow> aggregate synth (set_status (\<lambda>s. s\<lparr>Simplified := x\<rparr>) co) = aggregate synth co"
  by (cases "current co") (simp_all add: aggregate_def)

lemma aggregate_fixpoint:
  "aggregate synth (set_status (\<lambda>s. s\<lparr>Simplified := Some (aggregate synth co)\<rparr>) co) = aggregate synth co"
proof (cases "DeletionTimestamp co")
  case None
  then show ?thesis by (rule aggregate_live)
next
  case (Some t)
  then show ?thesis by (simp add: aggregate_def Let_def)
qed

text \<open>
  The summary of a composition follows the order in which its states are checked: it is
  \<open>Deleting\<close> exactly for a composition being deleted, and \<open>Ready\<close> exactly when a dispatched
  synthesis is ready, no resynthesis is pending and the inputs are in lockstep. Writing the summary
  reaches a fixed point: computed again on the updated composition, it is unchanged.
\<close>
theorem aggregate_summary:
  "(ss_Status (aggregate synth co) = ''Deleting'') = (DeletionTimestamp co \<noteq> None) \<and>
   (ss_Status (aggregate synth co) = ''Ready'') =
     (DeletionTimestamp co = None \<and> PendingResynthesis (comp_Status co) = None \<and>
      \<not> InputsOutOfLockstep co synth \<and>
      (\<exists>cur. current co = Some cur \<and> UUID cur \<noteq> [] \<and> Ready cur \<noteq> None)) \<and>
   aggregate synth (set_status (\<lambda>s. s\<lparr>Simplified := Some (aggregate synth co)\<rparr>) co) = aggregate synth co"
  by (intro conjI aggregate_Deleting aggregate_Ready aggregate_fixpoint)

subsection \<open>Symphonies\<close>

definition symph_time :: "(Synthesis \<Rightarrow> time option) \<Rightarrow> Composition list \<Rightarrow> time option" where
  "symph_time f comps =
     (if comps \<noteq> [] \<and> list_all (\<lambda>co. case current co of None \<Rightarrow> False | Some cur \<Rightarrow> f cur \<noteq> None) comps
      then Some (Max ((\<lambda>co. case current co of None \<Rightarrow> 0 | Some cur \<Rightarrow> deref_time (f cur)) ` set comps))
      else None)"

definition settled :: "Composition \<Rightarrow> bool" where
  "settled co = (DeletionTimestamp co = None \<and>
     (case current co of None \<Rightarrow> False | Some cur \<Rightarrow> ObservedCompositionGeneration cur = Generation co))"

abbreviation later_all :: "(Synthesis \<Rightarrow> time option) \<Rightarrow> Composition list \<Rightarrow> time option \<Rightarrow> time option" where
  "later_all f comps t \<equiv> fold (\<lambda>co t. case current co of None \<Rightarrow> t | Some cur \<Rightarrow> later t (f cur)) comps t"

lemma fold_max_times:
  "symph_Ready (fold max_times comps st) = later_all Ready comps (symph_Ready st)"
  "symph_Reconciled (fold max_times comps st) = later_all Reconciled comps (symph_Reconciled st)"
  "symph_Synthesized (fold max_times comps st) = later_all Synthesized comps (symph_Synthesized st)"
  "Synthesizers (fold max_times comps st) = Synthesizers st"
  "ObservedGeneration (fold max_times comps st) = ObservedGeneration st"
  by (induction comps arbitrary: st) (auto simp: max_times_def split: option.splits)

lemma later_all_max:
  assumes "list_all (\<lambda>co. case current co of None \<Rightarrow> False | Some cur \<Rightarrow> f cur \<noteq> None) comps"
  shows "later_all f comps t =
    fold (\<lambda>co m. Some (case m of None \<Rightarrow> (case current co of None \<Rightarrow> 0 | Some cur \<Rightarrow> deref_time (f cur))
       | Some x \<Rightarrow> max x (case current co of None \<Rightarrow> 0 | Some cur \<Rightarrow> deref_time (f cur)))) comps t"
  using assms
  by (induction comps arbitrary: t) (auto simp: later_def split: option.splits)

lemma filter_times_ok:
  "filter_times comps st = (st', ok) \<Longrightarrow> ok \<longleftrightarrow> list_all settled comps"
  by (induction comps st arbitrary: st' ok rule: filter_times.induct)
    (auto simp: settled_def split: option.splits if_splits)

abbreviation all_set :: "(Synthesis \<Rightarrow> time option) \<Rightarrow> Composition list \<Rightarrow> bool" where
  "all_set f comps \<equiv> list_all (\<lambda>co. case current co of None \<Rightarrow> False | Some cur \<Rightarrow> f cur \<noteq> None) comps"

lemma filter_times_fields:
  "filter_times comps st = (st', True) \<Longrightarrow>
     symph_Ready st' = (if all_set Ready comps then symph_Ready st else None) \<and>
     symph_Reconciled st' = (if all_set Reconciled comps then symph_Reconciled st else None) \<and>
     symph_Synthesized st' = (if all_set Synthesized comps then symph_Synthesized st else None) \<and>
     Synthesizers st' = Synthesizers st \<and> ObservedGeneration st' = ObservedGeneration st"
proof (induction comps arbitrary: st)
  case (Cons co others)
  from Cons.prems obtain cur where cur: "current co = Some cur"
    by (auto split: option.splits)
  let ?st = "st\<lparr>symph_Ready := (if Ready cur = None then None else symph_Ready st),
                 symph_Reconciled := (if Reconciled cur = None then None else symph_Reconciled st),
                 symph_Synthesized := (if Synthesized cur = None then None else symph_Synthesized st)\<rparr>"
  have "filter_times others ?st = (st', True)"
    using Cons.prems cur by (cases "ObservedCompositionGeneration cur \<noteq> Generation co \<or> DeletionTimestamp co \<noteq> None") simp_all
  from Cons.IH [OF this] cur show ?case
    by (cases "Ready cur"; cases "Reconciled cur"; cases "Synthesized cur"; simp)
qed simp

lemma symph_time_fold:
  "symph_time f comps = (if all_set f comps then later_all f comps None else None)"
  using later_all_max [of f comps None]
  by (cases "comps = []") (auto simp: symph_time_def fold_max_None)

text \<open>
  \<open>buildStatus\<close> asks for a status write only when every composition of the symphony has a
  synthesis of its own generation and is not being deleted, every variation's synthesizer has a
  composition, and the status would change. Each of the three times it computes is the latest of
  the compositions' times when all of them have reached that state, and unset otherwise.
\<close>
theorem buildStatus_correct:
  assumes "buildStatus symph comps = (st, True)"
  shows "list_all settled comps \<and>
     (\<forall>v \<in> set (Variations (symph_Spec symph)). \<exists>co \<in> set comps. SynthesizerName (comp_Spec co) = v_Synthesizer v) \<and>
     st \<noteq> symph_Status symph \<and>
     st = \<lparr>ObservedGeneration = Generation symph, symph_Synthesized = symph_time Synthesized comps,
           symph_Reconciled = symph_time Reconciled comps, symph_Ready = symph_time Ready comps,
           Synthesizers = Synthesizers (symph_Status symph)\<rparr>"
proof -
  let ?st0 = "\<lparr>ObservedGeneration = Generation symph, symph_Synthesized = None, symph_Reconciled = None,
                 symph_Ready = None, Synthesizers = Synthesizers (symph_Status symph)\<rparr>"
  have f: "filter_times comps (fold max_times comps ?st0) = (st, True)"
    and c: "\<forall>v \<in> set (Variations (symph_Spec symph)). v_Synthesizer v \<in> (\<lambda>co. SynthesizerName (comp_Spec co)) ` set comps"
    and n: "st \<noteq> symph_Status symph"
    using assms by (auto simp: buildStatus_def Let_def list_ex_iff split: prod.splits bool.splits if_splits)
  have "st = \<lparr>ObservedGeneration = Generation symph, symph_Synthesized = symph_time Synthesized comps,
           symph_Reconciled = symph_time Reconciled comps, symph_Ready = symph_time Ready comps,
           Synthesizers = Synthesizers (symph_Status symph)\<rparr>"
    by (rule SymphonyStatus.equality) (simp_all add: filter_times_fields [OF f] fold_max_times symph_time_fold cong: if_cong)
  with filter_times_ok [OF f] c n show ?thesis by fastforce
qed

definition sample_symph :: Symphony where
  "sample_symph =
     \<lparr>Name = ''symph'', Namespace = ''ns'', GenerateName = [], UID = ''suid'', ResourceVersion = ''1'',
      Generation = 1, CreationTimestamp = 5, DeletionTimestamp = None, Labels = None,
      Annotations = None, Finalizers = [cleanup_finalizer], OwnerReferences = [],
      symph_Spec = \<lparr>Variations = [\<lparr>v_Labels = None, v_Annotations = None, v_Synthesizer = ''syn'', v_Bindings = []\<rparr>],
        symph_Bindings = [], symph_SynthesisEnv = []\<rparr>,
      symph_Status = \<lparr>ObservedGeneration = 0, symph_Synthesized = None, symph_Reconciled = None,
        symph_Ready = None, Synthesizers = []\<rparr>\<rparr>"

theorem buildStatus_correct_witness:
  "\<exists>st. buildStatus sample_symph [synthesized_comp] = (st, True) \<and>
     symph_Synthesized st = symph_time Synthesized [synthesized_comp] \<and> list_all settled [synthesized_comp]"
proof -
  obtain st where "buildStatus sample_symph [synthesized_comp] = (st, True)"
    by (simp add: buildStatus_def sample_symph_def synthesized_comp_def max_times_def sample_defs)
  with buildStatus_correct [OF this] show ?thesis by simp
qed

end
