(* ===== verification/Symphony_Replication.thy ===== *)
theory Symphony_Replication
  imports Aggregation
begin

text \<open>
  The symphony replication controller (\<open>controllers/replication/symphony.go\<close>): one composition per
  variation of a symphony. The outcome of \<open>sort.Slice\<close> and the iteration order of the Go map of
  compositions by synthesizer are arguments.
\<close>

section \<open>Bindings and metadata\<close>

fun put_binding :: "Binding \<Rightarrow> Binding list \<Rightarrow> Binding list" where
  "put_binding bnd [] = [bnd]"
| "put_binding bnd (b # bs) = (if b_Key b = b_Key bnd then bnd # bs else b # put_binding bnd bs)"

fun dedup_bindings :: "string set \<Rightarrow> Binding list \<Rightarrow> Binding list" where
  "dedup_bindings seen [] = []"
| "dedup_bindings seen (b # bs) =
     (if b_Key b \<in> seen then dedup_bindings seen bs
      else b # dedup_bindings (insert (b_Key b) seen) bs)"

definition getBindings :: "Symphony \<Rightarrow> Variation \<Rightarrow> Binding list" where
  "getBindings symph vrn =
     dedup_bindings {} (fold put_binding (v_Bindings vrn) (symph_Bindings (symph_Spec symph)))"

definition coalesce :: "strmap \<Rightarrow> strmap \<Rightarrow> bool \<times> (string \<times> string) list" where
  "coalesce vars existing =
     fold (\<lambda>(k, v) (ch, al). (ch \<or> gomap_get (Some al) k \<noteq> v, AList.update k v al))
       (case vars of None \<Rightarrow> [] | Some kvs \<Rightarrow> kvs)
       (False, case existing of None \<Rightarrow> [] | Some al \<Rightarrow> al)"

definition coalesceMetadata :: "Variation \<Rightarrow> Composition \<Rightarrow> bool \<times> Composition" where
  "coalesceMetadata v existing =
     (case coalesce (v_Labels v) (Labels existing) of
        (ch1, ls) \<Rightarrow>
          (case coalesce (v_Annotations v) (Annotations existing) of
             (ch2, as) \<Rightarrow> (ch1 \<or> ch2, existing\<lparr>Labels := Some ls, Annotations := Some as\<rparr>)))"

section \<open>Reverse: deleting compositions\<close>

definition group_by_synth :: "Composition list \<Rightarrow> (string \<times> Composition list) list" where
  "group_by_synth comps =
     map (\<lambda>n. (n, filter (\<lambda>co. SynthesizerName (comp_Spec co) = n) comps))
       (remdups (map (\<lambda>co. SynthesizerName (comp_Spec co)) comps))"

fun first_unexpected :: "Symphony \<Rightarrow> Composition list \<Rightarrow> Composition option" where
  "first_unexpected symph [] = None"
| "first_unexpected symph (co # others) =
     (if SynthesizerName (comp_Spec co) \<in> v_Synthesizer ` set (Variations (symph_Spec symph)) \<and>
         DeletionTimestamp symph = None then first_unexpected symph others
      else if DeletionTimestamp co \<noteq> None then first_unexpected symph others
      else Some co)"

record yr_env =
  yr_sort_comps :: "Composition list \<Rightarrow> Composition list"
  yr_sort_names :: "string list \<Rightarrow> string list"
  yr_map_order :: "(string \<times> Composition list) list \<Rightarrow> (string \<times> Composition list) list"

abbreviation created :: "Composition \<Rightarrow> time" where
  "created co \<equiv> CreationTimestamp co"

interpretation by_creation: go_key_sort created "insertion_sort (\<lambda>a b. created a < created b)"
  by (rule go_key_sort_insertion_sort)

interpretation names_sort: go_key_sort "\<lambda>n :: string. n" "insertion_sort (\<lambda>a b. a < b)"
  by (rule go_key_sort_insertion_sort)

text \<open>The requests, and an error or whether something was modified.\<close>

definition reconcileReverse :: "yr_env \<Rightarrow> writer \<Rightarrow> Symphony \<Rightarrow> Composition list \<Rightarrow> request list \<times> (error + bool)" where
  "reconcileReverse env wr symph comps =
     (case first_unexpected symph comps of
        Some co \<Rightarrow>
          ([DeleteComposition co],
           case wr (DeleteComposition co) of
             None \<Rightarrow> Inr True | Some e \<Rightarrow> Inl (Wrap ''cleaning up composition'' e))
      | None \<Rightarrow>
          (case find (\<lambda>(n, cs). length cs \<ge> 2) (yr_map_order env (group_by_synth comps)) of
             None \<Rightarrow> ([], Inr False)
           | Some (n, cs) \<Rightarrow>
               (case yr_sort_comps env cs of
                  [] \<Rightarrow> ([], Inl IndexOutOfRange)
                | co # _ \<Rightarrow>
                    ([DeleteComposition co],
                     case wr (DeleteComposition co) of
                       None \<Rightarrow> Inr True | Some e \<Rightarrow> Inl (Wrap ''deleting duplicate composition'' e)))))"

section \<open>Forward: creating and updating compositions\<close>

record yr_client =
  yr_get_symph :: "NamespacedName \<Rightarrow> api_err + Symphony"
  yr_list_comps :: "string \<Rightarrow> string \<Rightarrow> api_err + Composition list"
  yr_ns_phase :: "string \<Rightarrow> api_err + string"
  yr_write :: writer

definition variation_comp :: "Symphony \<Rightarrow> Variation \<Rightarrow> Composition" where
  "variation_comp symph v =
     \<lparr>Name = [], Namespace = Namespace symph, GenerateName = v_Synthesizer v @ ''-'', UID = [],
      ResourceVersion = [], Generation = 0, CreationTimestamp = 0, DeletionTimestamp = None,
      Labels = v_Labels v, Annotations = v_Annotations v, Finalizers = [],
      OwnerReferences = [\<lparr>or_Kind = ''Symphony'', or_Name = Name symph, or_UID = UID symph, or_Controller = True\<rparr>],
      comp_Spec = \<lparr>SynthesizerName = v_Synthesizer v, Bindings = getBindings symph v,
        SynthesisEnv = symph_SynthesisEnv (symph_Spec symph)\<rparr>,
      comp_Status = \<lparr>Simplified = None, CurrentSynthesis = None, PreviousSynthesis = None,
        PendingResynthesis = None, InputRevs = []\<rparr>\<rparr>"

definition create_for ::
  "yr_env \<Rightarrow> yr_client \<Rightarrow> Symphony \<Rightarrow> Variation \<Rightarrow> request list \<times> (error + bool)" where
  "create_for env cl symph v =
     (let co = variation_comp symph v in
      case yr_ns_phase cl (Namespace symph) of
        Inl e \<Rightarrow> if e = NotFound then ([], Inr True) else ([], Inl (Wrap ''getting namespace'' e))
      | Inr phase \<Rightarrow>
          if phase = ''Terminating'' then ([], Inr True)
          else
            let st = UpdateSymphonyStatus (symph\<lparr>symph_Status := (symph_Status symph)\<lparr>Synthesizers :=
                       yr_sort_names env (Synthesizers (symph_Status symph) @ [Name co])\<rparr>\<rparr>)
            in (case yr_write cl st of
                  Some e \<Rightarrow> ([st], Inl (Wrap ''adding synthesizer to status'' e))
                | None \<Rightarrow>
                    ([st, CreateComposition co],
                     case yr_write cl (CreateComposition co) of
                       None \<Rightarrow> Inr True
                     | Some NamespaceTerminating \<Rightarrow> Inr False
                     | Some e \<Rightarrow> Inl (Wrap ''creating composition'' e))))"

text \<open>The comparison short-circuits, so metadata is merged only when the specs are equal.\<close>

definition update_existing :: "Symphony \<Rightarrow> Variation \<Rightarrow> Composition \<Rightarrow> Composition option" where
  "update_existing symph v existing =
     (let spec = comp_Spec (variation_comp symph v) in
      if spec = comp_Spec existing then
        (case coalesceMetadata v existing of
           (False, _) \<Rightarrow> None
         | (True, existing') \<Rightarrow> Some existing')
      else Some (existing\<lparr>comp_Spec := spec\<rparr>))"

fun reconcileForward ::
  "yr_env \<Rightarrow> yr_client \<Rightarrow> Symphony \<Rightarrow> (string \<Rightarrow> Composition list) \<Rightarrow> Variation list \<Rightarrow> request list \<times> (error + bool)" where
  "reconcileForward env cl symph existing [] = ([], Inr False)"
| "reconcileForward env cl symph existing (v # vs) =
     (case existing (v_Synthesizer v) of
        [] \<Rightarrow> create_for env cl symph v
      | co # _ \<Rightarrow>
          (case update_existing symph v co of
             None \<Rightarrow> reconcileForward env cl symph existing vs
           | Some co' \<Rightarrow>
               ([UpdateComposition co'],
                case yr_write cl (UpdateComposition co') of
                  None \<Rightarrow> Inr True | Some e \<Rightarrow> Inl (Wrap ''updating existing composition'' e))))"

section \<open>The handler\<close>

definition syncStatus :: "yr_env \<Rightarrow> writer \<Rightarrow> Symphony \<Rightarrow> Composition list \<Rightarrow> request list \<times> (error + bool)" where
  "syncStatus env wr symph comps =
     (let refs = yr_sort_names env (map (\<lambda>co. SynthesizerName (comp_Spec co)) comps) in
      if refs = Synthesizers (symph_Status symph) then ([], Inr False)
      else
        let r = UpdateSymphonyStatus (symph\<lparr>symph_Status := (symph_Status symph)\<lparr>Synthesizers := refs\<rparr>\<rparr>)
        in ([r], case wr r of None \<Rightarrow> Inr True | Some e \<Rightarrow> Inl (Wrap ''syncing status'' e)))"

text \<open>A stage that sent something or failed ends the handler, otherwise the next one runs.\<close>

definition stage :: "request list \<times> (error + bool) \<Rightarrow> request handler_out \<Rightarrow> request handler_out" where
  "stage x next =
     (case x of
        (rs, Inl e) \<Rightarrow> (rs, Inl e)
      | (rs, Inr True) \<Rightarrow> (rs, Inr done_result)
      | (rs, Inr False) \<Rightarrow> (rs @ fst next, snd next))"

definition release_symphony :: "writer \<Rightarrow> Symphony \<Rightarrow> Composition list \<Rightarrow> request handler_out" where
  "release_symphony wr symph existing =
     (if DeletionTimestamp symph = None then ([], Inr done_result)
      else if existing \<noteq> [] then ([], Inr done_result)
      else if ContainsFinalizer symph cleanup_finalizer
      then send wr (MergePatchSymphony (fst (RemoveFinalizer symph cleanup_finalizer))) ''removing finalizer'' done_result
      else ([], Inr done_result))"

definition yr_Reconcile :: "yr_env \<Rightarrow> yr_client \<Rightarrow> NamespacedName \<Rightarrow> request handler_out" where
  "yr_Reconcile env cl req =
     (case yr_get_symph cl req of
        Inl e \<Rightarrow> ([], ignore_not_found (Wrap [] e))
      | Inr symph \<Rightarrow>
          (case yr_list_comps cl (Namespace symph) (Name symph) of
             Inl e \<Rightarrow> ([], Inl (Wrap ''listing existing compositions'' e))
           | Inr comps \<Rightarrow>
               stage (syncStatus env (yr_write cl) symph comps)
                 (if \<not> ContainsFinalizer symph cleanup_finalizer then
                    send (yr_write cl) (MergePatchSymphony (symph\<lparr>Finalizers := Finalizers symph @ [cleanup_finalizer]\<rparr>))
                      ''adding finalizer'' done_result
                  else
                    stage (reconcileReverse env (yr_write cl) symph comps)
                      (if DeletionTimestamp symph = None then
                         stage (reconcileForward env cl symph
                                  (\<lambda>n. filter (\<lambda>co. SynthesizerName (comp_Spec co) = n) comps)
                                  (Variations (symph_Spec symph)))
                           (release_symphony (yr_write cl) symph comps)
                       else release_symphony (yr_write cl) symph comps))))"

section \<open>Lemmas\<close>

definition binding_of :: "Binding list \<Rightarrow> string \<Rightarrow> Binding option" where
  "binding_of bs k = find (\<lambda>b. b_Key b = k) bs"

lemma put_binding_of: "binding_of (put_binding bnd bs) k = (if k = b_Key bnd then Some bnd else binding_of bs k)"
  by (induction bs) (auto simp: binding_of_def)

lemma fold_put_binding:
  "binding_of (fold put_binding vs bs) k =
     (case binding_of (rev vs) k of Some b \<Rightarrow> Some b | None \<Rightarrow> binding_of bs k)"
proof (induction vs rule: rev_induct)
  case (snoc v vs)
  then show ?case by (auto simp: put_binding_of) (auto simp: binding_of_def)
qed (simp add: binding_of_def)

lemma dedup_bindings_of:
  "k \<notin> seen \<Longrightarrow> binding_of (dedup_bindings seen bs) k = binding_of bs k"
  by (induction seen bs rule: dedup_bindings.induct) (auto simp: binding_of_def)

lemma dedup_bindings_keys:
  "distinct (map b_Key (dedup_bindings seen bs)) \<and> b_Key ` set (dedup_bindings seen bs) \<inter> seen = {}"
  by (induction seen bs rule: dedup_bindings.induct) auto

text \<open>
  The bindings of a variation's composition have distinct keys, and for each key the binding is
  the last one that the variation gives, or else the first one of the symphony: the variation takes
  precedence.
\<close>
theorem getBindings_precedence:
  "distinct (map b_Key (getBindings symph v)) \<and>
   (\<forall>k. binding_of (getBindings symph v) k =
      (case binding_of (rev (v_Bindings v)) k of
         Some b \<Rightarrow> Some b | None \<Rightarrow> binding_of (symph_Bindings (symph_Spec symph)) k))"
  by (simp add: getBindings_def dedup_bindings_keys dedup_bindings_of fold_put_binding)

lemma stage_mem: "r \<in> set (fst (stage x next)) \<Longrightarrow> r \<in> set (fst x) \<or> r \<in> set (fst next)"
  by (auto simp: stage_def split: prod.splits sum.splits bool.splits)

lemma no_reverse: "MergePatchSymphony s \<notin> set (fst (reconcileReverse env wr symph comps))"
  by (auto simp: reconcileReverse_def split: option.splits list.splits)

lemma no_forward: "MergePatchSymphony s \<notin> set (fst (reconcileForward env cl symph existing vs))"
  by (induction vs) (auto simp: create_for_def Let_def split: option.splits list.splits sum.splits if_splits)

lemma no_sync: "MergePatchSymphony s \<notin> set (fst (syncStatus env wr symph comps))"
  by (auto simp: syncStatus_def Let_def)

lemma release_requests:
  "r \<in> set (fst (release_symphony wr symph existing)) \<Longrightarrow>
     DeletionTimestamp symph \<noteq> None \<and> existing = [] \<and> r = MergePatchSymphony (fst (RemoveFinalizer symph cleanup_finalizer))"
  by (auto simp: release_symphony_def split: if_splits)

text \<open>
  A symphony's finalizer is released only when the symphony is being deleted and no composition
  of it is left; the only other patch of the symphony's metadata is the one that adds the finalizer.
\<close>
theorem symphony_finalizer_guard:
  assumes "MergePatchSymphony symph' \<in> set (fst (yr_Reconcile env cl req))"
  shows "\<exists>symph comps. yr_get_symph cl req = Inr symph \<and> yr_list_comps cl (Namespace symph) (Name symph) = Inr comps \<and>
     (if cleanup_finalizer \<in> set (Finalizers symph')
      then symph' = symph\<lparr>Finalizers := Finalizers symph @ [cleanup_finalizer]\<rparr>
      else DeletionTimestamp symph \<noteq> None \<and> comps = [] \<and>
        symph' = symph\<lparr>Finalizers := removeAll cleanup_finalizer (Finalizers symph)\<rparr>)"
proof -
  from assms obtain symph comps where sc: "yr_get_symph cl req = Inr symph" "yr_list_comps cl (Namespace symph) (Name symph) = Inr comps"
    by (auto simp: yr_Reconcile_def split: sum.splits)
  let ?fwd = "reconcileForward env cl symph (\<lambda>n. filter (\<lambda>co. SynthesizerName (comp_Spec co) = n) comps) (Variations (symph_Spec symph))"
  let ?rel = "release_symphony (yr_write cl) symph comps"
  let ?add = "send (yr_write cl) (MergePatchSymphony (symph\<lparr>Finalizers := Finalizers symph @ [cleanup_finalizer]\<rparr>)) ''adding finalizer'' done_result"
  note no = no_reverse no_forward no_sync
  have "MergePatchSymphony symph' \<in> set (fst ?rel) \<or>
      (\<not> ContainsFinalizer symph cleanup_finalizer \<and> MergePatchSymphony symph' \<in> set (fst ?add))"
    using assms unfolding yr_Reconcile_def sc sum.case
    by (auto simp: no dest!: stage_mem split: if_splits)
  then show ?thesis
  proof
    assume "MergePatchSymphony symph' \<in> set (fst ?rel)"
    from release_requests [OF this] sc show ?thesis
      by (auto simp: RemoveFinalizer_def release_symphony_def ContainsFinalizer_def split: if_splits)
  qed (use sc in \<open>auto simp: ContainsFinalizer_def\<close>)
qed

definition sample_yr_env :: yr_env where
  "sample_yr_env =
     \<lparr>yr_sort_comps = insertion_sort (\<lambda>a b. created a < created b),
      yr_sort_names = insertion_sort (\<lambda>a b. a < b), yr_map_order = (\<lambda>m. m)\<rparr>"

definition sample_yr_client :: "Symphony \<Rightarrow> Composition list \<Rightarrow> yr_client" where
  "sample_yr_client symph comps =
     \<lparr>yr_get_symph = (\<lambda>_. Inr symph), yr_list_comps = (\<lambda>_ _. Inr comps),
      yr_ns_phase = (\<lambda>_. Inr ''Active''), yr_write = (\<lambda>_. None)\<rparr>"

lemmas yr_sample_defs = sample_yr_env_def sample_yr_client_def sample_symph_def sample_defs

theorem symphony_finalizer_guard_witness:
  "let symph = sample_symph\<lparr>DeletionTimestamp := Some 9\<rparr> in
   fst (yr_Reconcile sample_yr_env (sample_yr_client symph []) (key_of sample_symph)) =
     [MergePatchSymphony (symph\<lparr>Finalizers := []\<rparr>)] \<and>
   DeletionTimestamp symph \<noteq> None \<and> yr_list_comps (sample_yr_client symph []) ''ns'' ''symph'' = Inr []"
proof -
  let ?symph = "sample_symph\<lparr>DeletionTimestamp := Some 9\<rparr>"
  let ?cl = "sample_yr_client ?symph []"
  have r: "fst (yr_Reconcile sample_yr_env ?cl (key_of sample_symph)) = [MergePatchSymphony (?symph\<lparr>Finalizers := []\<rparr>)]"
    by (simp add: yr_Reconcile_def syncStatus_def Let_def insertion_sort_def stage_def reconcileReverse_def group_by_synth_def
        release_symphony_def ContainsFinalizer_def RemoveFinalizer_def yr_sample_defs)
  then have "MergePatchSymphony (?symph\<lparr>Finalizers := []\<rparr>) \<in> set (fst (yr_Reconcile sample_yr_env ?cl (key_of sample_symph)))"
    by simp
  from symphony_finalizer_guard [OF this] r show ?thesis
    by (simp add: Let_def sample_yr_client_def)
qed

section \<open>Quiescence\<close>

lemma stage_empty:
  "fst (stage x next) = [] \<longleftrightarrow> fst x = [] \<and> (snd x = Inr False \<longrightarrow> fst next = [])"
  by (auto simp: stage_def split: prod.splits sum.splits bool.splits)

lemma first_unexpected_None:
  "DeletionTimestamp symph = None \<Longrightarrow>
   first_unexpected symph comps = None \<longleftrightarrow>
     (\<forall>co \<in> set comps. DeletionTimestamp co = None \<longrightarrow>
        SynthesizerName (comp_Spec co) \<in> v_Synthesizer ` set (Variations (symph_Spec symph)))"
  by (induction comps) auto

lemma distinct_by_groups:
  "distinct (map f xs) \<longleftrightarrow> (\<forall>n. length (filter (\<lambda>x. f x = n) xs) < 2)"
proof (induction xs)
  case (Cons x xs)
  have "f x \<notin> f ` set xs \<longleftrightarrow> length (filter (\<lambda>y. f y = f x) xs) = 0"
    by (auto simp: filter_empty_conv image_iff)
  moreover have "(\<forall>n. length (filter (\<lambda>y. f y = n) (x # xs)) < 2) \<longleftrightarrow>
      length (filter (\<lambda>y. f y = f x) xs) = 0 \<and> (\<forall>n. length (filter (\<lambda>y. f y = n) xs) < 2)"
    (is "(\<forall>n. ?l n < 2) \<longleftrightarrow> ?z \<and> ?r")
  proof
    assume l: "\<forall>n. ?l n < 2"
    have "length (filter (\<lambda>y. f y = n) xs) < 2" for n
      using spec [OF l, of n] by (simp split: if_splits)
    moreover from spec [OF l, of "f x"] have ?z by simp
    ultimately show "?z \<and> ?r" by blast
  next
    assume "?z \<and> ?r"
    then show "\<forall>n. ?l n < 2" by simp
  qed
  ultimately show ?case using Cons.IH by simp
qed simp

lemma no_duplicate_groups:
  "(\<forall>g \<in> set (group_by_synth comps). length (snd g) < 2) \<longleftrightarrow>
   distinct (map (\<lambda>co. SynthesizerName (comp_Spec co)) comps)"
proof -
  have "length (filter (\<lambda>co. SynthesizerName (comp_Spec co) = n) comps) < 2"
    if "n \<notin> (\<lambda>co. SynthesizerName (comp_Spec co)) ` set comps" for n
    using that by (subst filter_False) auto
  then show ?thesis
    unfolding distinct_by_groups group_by_synth_def by (simp add: image_iff) metis
qed

lemma reverse_empty:
  assumes "set (yr_map_order env (group_by_synth comps)) = set (group_by_synth comps)"
    and "\<And>cs. mset (yr_sort_comps env cs) = mset cs"
  shows "fst (reconcileReverse env wr symph comps) = [] \<longleftrightarrow>
     first_unexpected symph comps = None \<and> distinct (map (\<lambda>co. SynthesizerName (comp_Spec co)) comps)"
    and "fst (reconcileReverse env wr symph comps) = [] \<Longrightarrow> snd (reconcileReverse env wr symph comps) = Inr False"
proof -
  have ne: "yr_sort_comps env (snd g) \<noteq> []"
    if "find (\<lambda>(n, cs). 2 \<le> length cs) (yr_map_order env (group_by_synth comps)) = Some g" for g
    using that assms(2) [of "snd g"]
    by (cases g, cases "yr_sort_comps env (snd g)") (auto simp: find_Some_iff)
  have dup: "find (\<lambda>(n, cs). 2 \<le> length cs) (yr_map_order env (group_by_synth comps)) = None \<longleftrightarrow>
      distinct (map (\<lambda>co. SynthesizerName (comp_Spec co)) comps)"
    using assms(1) unfolding find_None_iff no_duplicate_groups [symmetric] by (auto simp: not_le)
  show "fst (reconcileReverse env wr symph comps) = [] \<longleftrightarrow>
     first_unexpected symph comps = None \<and> distinct (map (\<lambda>co. SynthesizerName (comp_Spec co)) comps)"
    "fst (reconcileReverse env wr symph comps) = [] \<Longrightarrow> snd (reconcileReverse env wr symph comps) = Inr False"
    using ne by (auto simp: reconcileReverse_def dup [symmetric] split: option.splits list.splits)
qed

abbreviation comps_for :: "Composition list \<Rightarrow> string \<Rightarrow> Composition list" where
  "comps_for comps n \<equiv> filter (\<lambda>co. SynthesizerName (comp_Spec co) = n) comps"

definition matched :: "Symphony \<Rightarrow> Composition list \<Rightarrow> Variation \<Rightarrow> bool" where
  "matched symph comps v \<longleftrightarrow>
     (\<exists>co \<in> set comps. comp_Spec co = comp_Spec (variation_comp symph v) \<and> \<not> fst (coalesceMetadata v co))"

lemma update_existing_None:
  "update_existing symph v co = None \<longleftrightarrow>
     comp_Spec co = comp_Spec (variation_comp symph v) \<and> \<not> fst (coalesceMetadata v co)"
  by (auto simp: update_existing_def Let_def split: prod.splits bool.splits)

lemma create_for_sends:
  "yr_ns_phase cl (Namespace symph) = Inr phase \<Longrightarrow> phase \<noteq> ''Terminating'' \<Longrightarrow>
   fst (create_for env cl symph v) \<noteq> []"
  by (auto simp: create_for_def Let_def split: option.splits)

lemma comps_for_unique:
  assumes "distinct (map (\<lambda>co. SynthesizerName (comp_Spec co)) comps)" and "comps_for comps n = co # others"
  shows "x \<in> set comps \<and> SynthesizerName (comp_Spec x) = n \<longleftrightarrow> x = co"
proof -
  from assms(1) have "length (comps_for comps n) < 2" by (simp add: distinct_by_groups)
  with assms(2) have "set (comps_for comps n) = {co}" by simp
  then show ?thesis by (auto simp: set_eq_iff)
qed

lemma forward_empty:
  assumes "distinct (map (\<lambda>co. SynthesizerName (comp_Spec co)) comps)"
    and "yr_ns_phase cl (Namespace symph) = Inr phase" "phase \<noteq> ''Terminating''"
  shows "fst (reconcileForward env cl symph (comps_for comps) vs) = [] \<longleftrightarrow> (\<forall>v \<in> set vs. matched symph comps v)"
proof (induction vs)
  case (Cons v vs)
  have name: "SynthesizerName (comp_Spec (variation_comp symph v)) = v_Synthesizer v"
    by (simp add: variation_comp_def)
  show ?case
  proof (cases "comps_for comps (v_Synthesizer v)")
    case Nil
    then have "\<not> matched symph comps v"
      using name by (auto simp: matched_def filter_empty_conv)
    with Nil show ?thesis using create_for_sends [OF assms(2,3)] by simp
  next
    case (Cons co others)
    with comps_for_unique [OF assms(1) Cons] name
    have "matched symph comps v \<longleftrightarrow> update_existing symph v co = None"
      unfolding matched_def update_existing_None by metis
    with Cons Cons.IH show ?thesis by (auto split: option.splits)
  qed
qed simp

lemma release_live: "DeletionTimestamp symph = None \<Longrightarrow> fst (release_symphony wr symph comps) = []"
  by (simp add: release_symphony_def)

text \<open>
  C23. Convergence of a symphony that is not being deleted: the controller sends nothing exactly when
  the status lists the synthesizers of its compositions, the finalizer is held, every composition
  that is not going away belongs to a variation, no synthesizer has two compositions, and every
  variation has a composition with its spec, labels and annotations.
\<close>
theorem symphony_quiescent:
  assumes "yr_get_symph cl req = Inr symph" "yr_list_comps cl (Namespace symph) (Name symph) = Inr comps"
    and live: "DeletionTimestamp symph = None"
    and ns: "yr_ns_phase cl (Namespace symph) = Inr phase" "phase \<noteq> ''Terminating''"
    and ord: "set (yr_map_order env (group_by_synth comps)) = set (group_by_synth comps)"
    and srt: "go_key_sort created (yr_sort_comps env)"
  shows "fst (yr_Reconcile env cl req) = [] \<longleftrightarrow>
     Synthesizers (symph_Status symph) = yr_sort_names env (map (\<lambda>co. SynthesizerName (comp_Spec co)) comps) \<and>
     cleanup_finalizer \<in> set (Finalizers symph) \<and>
     (\<forall>co \<in> set comps. DeletionTimestamp co = None \<longrightarrow>
        SynthesizerName (comp_Spec co) \<in> v_Synthesizer ` set (Variations (symph_Spec symph))) \<and>
     distinct (map (\<lambda>co. SynthesizerName (comp_Spec co)) comps) \<and>
     (\<forall>v \<in> set (Variations (symph_Spec symph)). matched symph comps v)"
proof -
  note rev = reverse_empty [where env = env and comps = comps, OF ord go_key_sort.key_srt_basics(3) [OF srt]]
  have sync: "fst (syncStatus env wr symph comps) = [] \<longleftrightarrow>
      Synthesizers (symph_Status symph) = yr_sort_names env (map (\<lambda>co. SynthesizerName (comp_Spec co)) comps)"
    "fst (syncStatus env wr symph comps) = [] \<Longrightarrow> snd (syncStatus env wr symph comps) = Inr False" for wr
    by (auto simp: syncStatus_def Let_def)
  have fwd: "fst (stage (reconcileForward env cl symph (comps_for comps) (Variations (symph_Spec symph)))
        (release_symphony (yr_write cl) symph comps)) = [] \<longleftrightarrow>
      (\<forall>v \<in> set (Variations (symph_Spec symph)). matched symph comps v)"
    if "distinct (map (\<lambda>co. SynthesizerName (comp_Spec co)) comps)"
    using forward_empty [OF that ns] by (auto simp: stage_empty release_live live)
  show ?thesis
    using assms(1,2) live rev sync fwd first_unexpected_None [OF live, of comps]
    by (auto simp: yr_Reconcile_def stage_empty ContainsFinalizer_def)
qed

definition variant_comp :: "time \<Rightarrow> Composition" where
  "variant_comp t = sample_comp\<lparr>CreationTimestamp := t,
     comp_Spec := comp_Spec (variation_comp sample_symph (hd (Variations (symph_Spec sample_symph))))\<rparr>"

lemma variant_comp_sel:
  "SynthesizerName (comp_Spec (variant_comp t)) = ''syn''" "DeletionTimestamp (variant_comp t) = None"
  "created (variant_comp t) = t"
  by (simp_all add: variant_comp_def variation_comp_def sample_symph_def sample_comp_def)

definition synced_symph :: Symphony where
  "synced_symph = sample_symph\<lparr>symph_Status := (symph_Status sample_symph)\<lparr>Synthesizers := [''syn'']\<rparr>\<rparr>"

lemma variant_matched: "matched synced_symph [variant_comp t] (hd (Variations (symph_Spec sample_symph)))"
  by (simp add: matched_def variant_comp_def variation_comp_def synced_symph_def getBindings_def
      coalesceMetadata_def coalesce_def sample_symph_def sample_comp_def)

lemma synced_symph_sel:
  "Variations (symph_Spec synced_symph) = [hd (Variations (symph_Spec sample_symph))]"
  "v_Synthesizer (hd (Variations (symph_Spec sample_symph))) = ''syn''"
  "Synthesizers (symph_Status synced_symph) = [''syn'']" "Finalizers synced_symph = [cleanup_finalizer]"
  "DeletionTimestamp synced_symph = None"
  by (simp_all add: synced_symph_def sample_symph_def)

theorem symphony_quiescent_witness:
  "fst (yr_Reconcile sample_yr_env (sample_yr_client synced_symph [variant_comp 5]) (key_of sample_symph)) = []"
proof -
  let ?cl = "sample_yr_client synced_symph [variant_comp 5]"
  have "go_key_sort created (yr_sort_comps sample_yr_env)"
    by (simp add: sample_yr_env_def go_key_sort_insertion_sort)
  then show ?thesis
    using symphony_quiescent [of ?cl "key_of sample_symph" synced_symph "[variant_comp 5]" "''Active''" sample_yr_env]
      variant_matched [of 5]
    by (simp add: sample_yr_client_def sample_yr_env_def synced_symph_sel variant_comp_sel insertion_sort_def)
qed

section \<open>Duplicates and the status entry of a new composition\<close>

text \<open>
  When the unexpected compositions are gone and a synthesizer has several compositions, the one
  that is deleted is an oldest of them, whatever the map order and the sort: the code deletes the
  first element in order of creation although its comment says that the oldest one is left.
\<close>
theorem duplicate_removal_takes_oldest:
  assumes "first_unexpected symph comps = None"
    and ord: "set (yr_map_order env (group_by_synth comps)) = set (group_by_synth comps)"
    and srt: "go_key_sort created (yr_sort_comps env)"
    and del: "DeleteComposition co \<in> set (fst (reconcileReverse env wr symph comps))"
  shows "co \<in> set comps \<and> 2 \<le> length (comps_for comps (SynthesizerName (comp_Spec co))) \<and>
     (\<forall>co' \<in> set (comps_for comps (SynthesizerName (comp_Spec co))). created co \<le> created co')"
proof -
  from assms(1) del obtain n cs others
    where f: "find (\<lambda>(n, cs). 2 \<le> length cs) (yr_map_order env (group_by_synth comps)) = Some (n, cs)"
      and s: "yr_sort_comps env cs = co # others"
    by (auto simp: reconcileReverse_def split: option.splits list.splits)
  from f have "(n, cs) \<in> set (group_by_synth comps)" and two: "2 \<le> length cs"
    unfolding ord [symmetric] by (auto simp: find_Some_iff in_set_conv_nth)
  then have cs: "cs = comps_for comps n" by (auto simp: group_by_synth_def)
  have "set (co # others) = set cs" "sorted (map created (co # others))"
    using go_key_sort.key_srt_basics(1) [OF srt, of cs] go_key_sort.sorted_keys [OF srt, of cs] s by simp_all
  then have "co \<in> set cs" "\<forall>co' \<in> set cs. created co \<le> created co'" by auto
  with cs two show ?thesis by auto
qed

theorem duplicate_removal_takes_oldest_witness:
  "fst (reconcileReverse sample_yr_env (\<lambda>_. None) synced_symph [variant_comp 7, variant_comp 5]) =
     [DeleteComposition (variant_comp 5)] \<and>
   created (variant_comp 5) \<le> created (variant_comp 7)"
proof -
  let ?cs = "[variant_comp 7, variant_comp 5]"
  have run: "fst (reconcileReverse sample_yr_env (\<lambda>_. None) synced_symph ?cs) = [DeleteComposition (variant_comp 5)]"
    and unexp: "first_unexpected synced_symph ?cs = None"
    by (simp_all add: reconcileReverse_def group_by_synth_def sample_yr_env_def insertion_sort_def
        synced_symph_sel variant_comp_sel)
  have "go_key_sort created (yr_sort_comps sample_yr_env)"
    by (simp add: sample_yr_env_def go_key_sort_insertion_sort)
  from duplicate_removal_takes_oldest [OF unexp _ this, of "variant_comp 5" "\<lambda>_. None"] run
  show ?thesis by (simp add: sample_yr_env_def variant_comp_sel)
qed

text \<open>
  The status entry that serialises creation is the name of the composition about to be created, which
  is empty: only its \<open>GenerateName\<close> is set.
\<close>

lemma created_status_entry_empty:
  assumes "UpdateSymphonyStatus symph' \<in> set (fst (create_for env cl symph v))"
  shows "Synthesizers (symph_Status symph') = yr_sort_names env (Synthesizers (symph_Status symph) @ [[]])"
  using assms by (auto simp: create_for_def Let_def variation_comp_def split: sum.splits option.splits if_splits)

end
