(* ===== verification/Status_Machine.thy ===== *)
theory Status_Machine
  imports Watch Executor Symphony_Replication
begin

text \<open>
  What the controllers together may do to the status of a composition. \<open>status_step\<close> is the abstract
  specification: the transitions of the status with their guards. \<open>controller_write\<close> collects the
  requests that any controller sends when its reads of compositions answer with versions out of a
  given set, which may be stale: the informer caches promise no more. The lemmas show, handler by
  handler, that every write of a status is one of the transitions.
\<close>

section \<open>The transitions of a composition's status\<close>

inductive status_step :: "Composition \<Rightarrow> Composition \<Rightarrow> bool" where
  swap: "shouldSwapStates srt syn co = (True, co1) \<Longrightarrow> status_step co (SwapStates t co1)"
| resynthesize: "current co = Some cur \<Longrightarrow> PendingResynthesis (comp_Status co) = Some p \<Longrightarrow>
    status_step co (start_deferred t co)"
| revert: "DeletionTimestamp co \<noteq> None \<Longrightarrow> shouldRevertStateSwap co \<Longrightarrow> status_step co (revert_swap co)"
| finish_deleted: "DeletionTimestamp co \<noteq> None \<Longrightarrow> \<not> shouldRevertStateSwap co \<Longrightarrow>
    shouldUpdateDeletedCompositionStatus co \<Longrightarrow> u \<noteq> [] \<Longrightarrow> status_step co (deleted_status t u co)"
| complete: "current co = Some cur \<Longrightarrow> Synthesized cur = None \<Longrightarrow> UUID cur \<noteq> [] \<Longrightarrow>
    status_step co (complete_synthesis t syn refs revs results co)"
| summarise: "current co = Some cur \<Longrightarrow> Synthesized cur \<noteq> None \<Longrightarrow> status_step co (map_current (agg_update t a) co)"
| observe: "status_step co (set_status (\<lambda>s. s\<lparr>InputRevs := irs\<rparr>) co)"
| pend: "status_step co (set_status (\<lambda>s. s\<lparr>PendingResynthesis := p\<rparr>) co)"
| observe_pend: "status_step co (set_status (\<lambda>s. s\<lparr>InputRevs := irs, PendingResynthesis := p\<rparr>) co)"

section \<open>What the controllers send\<close>

definition reads_from :: "Composition set \<Rightarrow> (NamespacedName \<Rightarrow> api_err + Composition) \<Rightarrow> bool" where
  "reads_from V get \<longleftrightarrow> (\<forall>nn co. get nn = Inr co \<longrightarrow> co \<in> V)"

definition lists_from :: "Composition set \<Rightarrow> api_err + Composition list \<Rightarrow> bool" where
  "lists_from V l \<longleftrightarrow> (\<forall>comps. l = Inr comps \<longrightarrow> set comps \<subseteq> V)"

definition reorders :: "('a list \<Rightarrow> 'a list) \<Rightarrow> bool" where
  "reorders f \<longleftrightarrow> (\<forall>xs. set (f xs) = set xs)"

text \<open>\<open>L\<close> says which lists the concurrency limiter may read, \<open>limit\<close> is its limit.\<close>

inductive controller_write :: "(Composition list \<Rightarrow> bool) \<Rightarrow> int \<Rightarrow> Composition set \<Rightarrow> request \<Rightarrow> bool"
  for L :: "Composition list \<Rightarrow> bool" and limit :: int and V :: "Composition set" where
  lifecycle: "newUUID en \<noteq> [] \<Longrightarrow> reads_from V (lc_get_comp cl) \<Longrightarrow>
    r \<in> set (fst (lc_Reconcile cfg en cl req)) \<Longrightarrow> controller_write L limit V r"
| rollout: "reorders srt \<Longrightarrow> lists_from V (ro_list_comps cl) \<Longrightarrow>
    r \<in> set (fst (ro_Reconcile srt t cooldown cl)) \<Longrightarrow> controller_write L limit V r"
| synth_rollout: "reorders shuffle \<Longrightarrow> (\<And>n. lists_from V (sr_list_comps cl n)) \<Longrightarrow>
    r \<in> set (fst (sr_Reconcile shuffle t cl req)) \<Longrightarrow> controller_write L limit V r"
| limiter: "newUUID en \<noteq> [] \<Longrightarrow> cl_list_comps cl = Inr comps \<Longrightarrow> L comps \<Longrightarrow>
    r \<in> set (fst (cl_Reconcile intn en limit cooldown cl)) \<Longrightarrow> controller_write L limit V r"
| execution: "ee_SynthesisUUID ev \<noteq> [] \<Longrightarrow> (\<And>n. reads_from V (ex_get_comp e n)) \<Longrightarrow>
    r \<in> set (fst (Synthesize e ev)) \<Longrightarrow> controller_write L limit V r"
| slice_aggregation: "reads_from V (sa_get_comp cl) \<Longrightarrow>
    r \<in> set (fst (sa_Reconcile t cl req)) \<Longrightarrow> controller_write L limit V r"
| comp_aggregation: "reads_from V (ca_get_comp cl) \<Longrightarrow>
    r \<in> set (fst (ca_Reconcile cl req)) \<Longrightarrow> controller_write L limit V r"
| kind_watch: "(\<And>a b n. lists_from V (kw_list_comps cl a b n)) \<Longrightarrow>
    r \<in> set (fst (kw_Reconcile shuffle t cl gvk req)) \<Longrightarrow> controller_write L limit V r"
| pruning: "reads_from V get \<Longrightarrow> r \<in> set (fst (pr_Reconcile get wr req)) \<Longrightarrow> controller_write L limit V r"
| replication: "(\<And>ns n. lists_from V (yr_list_comps cl ns n)) \<Longrightarrow>
    r \<in> set (fst (yr_Reconcile env cl req)) \<Longrightarrow> controller_write L limit V r"

section \<open>Handlers refine the transitions\<close>

lemma lc_status:
  assumes "UpdateCompositionStatus co' \<in> set (fst (lc_Reconcile cfg en cl req))" "newUUID en \<noteq> []"
    and "reads_from V (lc_get_comp cl)"
  shows "\<exists>co \<in> V. status_step co co'"
proof -
  from assms(1) obtain co syn pods where co: "lc_get_comp cl req = Inr co"
    and w: "UpdateCompositionStatus co' \<in> set (fst (lc_with_pods cfg en cl co syn pods))"
    by (auto simp: lc_Reconcile_def deletePod_def split: sum.splits api_err.splits option.splits if_splits)
  have "status_step co co'"
  proof (cases "DeletionTimestamp co = None")
    case True
    with w obtain s where "UpdateCompositionStatus co' \<in> set (fst (synthesize cfg en cl co s))"
      by (auto simp: lc_with_pods_def split: sum.splits option.splits if_splits)
    moreover obtain b co1 where sw: "shouldSwapStates (sort_revs en) s co = (b, co1)" by fastforce
    ultimately have "b" "co' = SwapStates (now en) co1"
      by (auto simp: synthesize_def createPod_def Let_def split: bool.splits option.splits sum.splits if_splits)
    with sw show ?thesis by (auto intro: status_step.swap)
  next
    case False
    with w have "UpdateCompositionStatus co' \<in> set (fst (reconcileDeletedComposition en (lc_write cl) co))"
      by (auto simp: lc_with_pods_def split: sum.splits option.splits if_splits)
    with False assms(2) show ?thesis
      by (auto simp: reconcileDeletedComposition_def intro: status_step.intros split: if_splits prod.splits bool.splits)
  qed
  with co assms(3) show ?thesis by (auto simp: reads_from_def)
qed

lemma ro_status:
  assumes "UpdateCompositionStatus co' \<in> set (fst (ro_Reconcile srt t cooldown cl))" "reorders srt"
    and "lists_from V (ro_list_comps cl)"
  shows "\<exists>co \<in> V. status_step co co'"
proof -
  from assms(1) obtain comps where comps: "ro_list_comps cl = Inr comps"
    by (auto simp: ro_Reconcile_def split: sum.splits)
  then have V: "set comps \<subseteq> V" using assms(3) by (simp add: lists_from_def)
  from ro_Reconcile_update [OF assms(1) comps] show ?thesis
  proof (elim exE conjE)
    assume upd: "case first_cancelled comps of
        Some co \<Rightarrow> co' = set_status (\<lambda>s. s\<lparr>PendingResynthesis := None\<rparr>) co
      | None \<Rightarrow> UpdateCompositionStatus co' \<in> set (fst (start_next t cooldown (ro_write cl) (srt comps)))"
    show ?thesis
    proof (cases "first_cancelled comps")
      case None
      with upd have "UpdateCompositionStatus co' \<in> set (fst (start_next t cooldown (ro_write cl) (srt comps)))" by simp
      from start_next_update [OF this] obtain xs co ys p cur where "srt comps = xs @ co # ys"
        "PendingResynthesis (comp_Status co) = Some p" "current co = Some cur" "co' = start_deferred t co"
        by blast
      moreover from this assms(2) have "co \<in> set comps"
        unfolding reorders_def by (metis in_set_conv_decomp)
      ultimately show ?thesis using V by (auto intro: status_step.resynthesize)
    next
      case (Some co)
      then have "co \<in> set comps" by (simp add: first_cancelled_find find_Some_iff) (metis nth_mem)
      with Some upd V show ?thesis by (auto intro: status_step.pend)
    qed
  qed
qed

lemma sr_status:
  assumes "UpdateCompositionStatus co' \<in> set (fst (sr_Reconcile shuffle t cl req))" "reorders shuffle"
    and "\<And>n. lists_from V (sr_list_comps cl n)"
  shows "\<exists>co \<in> V. status_step co co'"
proof -
  from assms(1) obtain syn comps co where l: "sr_list_comps cl (Name syn) = Inr comps"
    and f: "find (rollout_eligible syn) (shuffle comps) = Some co"
    and co': "co' = set_status (\<lambda>s. s\<lparr>PendingResynthesis := Some t\<rparr>) co"
    by (auto simp: sr_Reconcile_def split: sum.splits option.splits)
  from f assms(2) have "co \<in> set comps"
    unfolding reorders_def by (metis find_Some_iff nth_mem)
  with l assms(3) co' show ?thesis
    by (auto simp: lists_from_def intro!: bexI [of _ co] status_step.pend)
qed

lemma sa_status:
  assumes "UpdateCompositionStatus co' \<in> set (fst (sa_Reconcile t cl req))" and "reads_from V (sa_get_comp cl)"
  shows "\<exists>co \<in> V. status_step co co'"
proof -
  from assms(1) obtain co cur a where co: "sa_get_comp cl req = Inr co" and cur: "current co = Some cur"
    and live: "\<not> compositionStatusTerminal co" and co': "co' = map_current (agg_update t a) co"
    by (auto simp: sa_Reconcile_def split: sum.splits option.splits if_splits)
  from live cur have "Synthesized cur \<noteq> None" by (simp add: compositionStatusTerminal_def)
  from status_step.summarise [OF cur this] co co' assms(2) show ?thesis
    unfolding reads_from_def by blast
qed

lemma ex_status:
  assumes "UpdateCompositionStatus co' \<in> set (fst (Synthesize e ev))" "ee_SynthesisUUID ev \<noteq> []"
    and "\<And>n. reads_from V (ex_get_comp e n)"
  shows "\<exists>co \<in> V. status_step co co'"
proof -
  from Synthesize_update [OF assms(1)] obtain co0 syn input revs out refs n co where
    "ex_Handler e syn input = Inr out" "buildPodInput e co0 syn = Inr (input, revs)" and co: "ex_get_comp e (Suc n) (key_of co0) = Inr co" and skip: "skipSynthesis co ev = None"
    and co': "co' = complete_synthesis (ex_now e) syn refs revs (rl_Results out) co"
    by blast
  from skip obtain cur where "current co = Some cur" "Synthesized cur = None" "UUID cur \<noteq> []"
    using assms(2) by (auto simp: skipSynthesis_None)
  with co co' assms(3) show ?thesis
    by (auto simp: reads_from_def intro!: bexI [of _ co] status_step.complete)
qed

lemma visit_comps_member:
  "visit_comps t gvk meta synth comps = Some co' \<Longrightarrow> \<exists>co \<in> set comps. record_input t gvk meta synth co = Some co'"
  by (induction comps) (auto split: option.splits)

lemma record_input_step: "record_input t gvk meta synth co = Some co' \<Longrightarrow> status_step co co'"
  by (auto simp: record_input_def setInputRevisions_def intro: status_step.observe
      intro!: status_step.observe_pend split: prod.splits if_splits bool.splits)

lemma kw_status:
  assumes "UpdateCompositionStatus co' \<in> set (fst (kw_Reconcile shuffle t cl gvk req))"
    and "\<And>a b n. lists_from V (kw_list_comps cl a b n)"
  shows "\<exists>co \<in> V. status_step co co'"
proof -
  have visit: "\<exists>co \<in> V. status_step co co'"
    if "UpdateCompositionStatus co' \<in> set (fst (visit_synths t cl gvk meta synths))" for meta synths
    using that
  proof (induction synths)
    case (Cons synth synths)
    then obtain comps where comps: "kw_list_comps cl (Name synth) (Namespace meta) (Name meta) = Inr comps"
      by (auto split: sum.splits)
    show ?case
    proof (cases "visit_comps t gvk meta synth comps")
      case None
      with Cons comps show ?thesis by simp
    next
      case (Some co1)
      with Cons.prems comps have "co' = co1" by simp
      with visit_comps_member [OF Some] record_input_step comps assms(2) show ?thesis
        unfolding lists_from_def by blast
    qed
  qed simp
  from assms(1) show ?thesis
    by (auto simp: kw_Reconcile_def intro: visit split: sum.splits)
qed

lemma pr_status:
  assumes "UpdateCompositionStatus co' \<in> set (fst (pr_Reconcile get wr req))" and "reads_from V get"
  shows "\<exists>co \<in> V. status_step co co'"
  using assms
  by (auto simp: pr_Reconcile_def reads_from_def intro: status_step.observe split: sum.splits option.splits)

lemma no_status_elsewhere:
  "UpdateCompositionStatus co' \<notin> set (fst (cl_Reconcile intn en limit cooldown cl))"
  "UpdateCompositionStatus co' \<notin> set (fst (ca_Reconcile ccl req))"
  by (auto simp: cl_Reconcile_def ca_Reconcile_def Let_def split: sum.splits prod.splits if_splits)

lemma no_status_replication: "UpdateCompositionStatus co' \<notin> set (fst (yr_Reconcile env cl req))"
proof -
  have rvs: "UpdateCompositionStatus co' \<notin> set (fst (reconcileReverse env wr symph comps))" for wr symph comps
    by (auto simp: reconcileReverse_def split: option.splits list.splits)
  have fwd: "UpdateCompositionStatus co' \<notin> set (fst (reconcileForward env cl symph existing vs))" for symph existing vs
    by (induction vs) (auto simp: create_for_def Let_def split: option.splits list.splits sum.splits if_splits)
  have syn: "UpdateCompositionStatus co' \<notin> set (fst (syncStatus env wr symph comps))" for wr symph comps
    by (auto simp: syncStatus_def Let_def)
  show ?thesis
    by (auto simp: yr_Reconcile_def rvs fwd syn dest!: stage_mem release_requests split: sum.splits if_splits)
qed

lemma status_step_written:
  assumes "controller_write L limit V (UpdateCompositionStatus co')"
  shows "\<exists>co \<in> V. status_step co co'"
  using assms
  by (cases rule: controller_write.cases)
    (auto simp: no_status_elsewhere no_status_replication
      intro: lc_status ro_status sr_status sa_status ex_status kw_status pr_status)


definition unbound_comp :: Composition where
  "unbound_comp = set_status (\<lambda>s. s\<lparr>InputRevs := [\<lparr>ir_Key = ''gone'', ir_ResourceVersion = ''1'', ir_Revision = None,
     ir_SynthesizerGeneration = None\<rparr>]\<rparr>) sample_comp"


section \<open>The other writes to compositions\<close>

text \<open>A patch after the creation of a pod, and the patch that dispatches a synthesis.\<close>

lemma lc_patch:
  assumes "PatchCompositionStatus nn ops \<in> set (fst (lc_Reconcile cfg en cl req))"
  shows "\<exists>cur pod. ops = pod_created_patch cur pod \<and> UUID cur \<noteq> []"
  using assms
  by (auto simp: lc_Reconcile_def deletePod_def lc_with_pods_def reconcileDeletedComposition_def synthesize_def
      createPod_def Let_def split: sum.splits api_err.splits option.splits if_splits prod.splits bool.splits)

lemma cl_patch:
  assumes "PatchCompositionStatus nn ops \<in> set (fst (cl_Reconcile intn en limit cooldown cl))"
    and "cl_list_comps cl = Inr comps"
  shows "ops = dispatch_patch (newUUID en) \<and> int (length (filter is_active comps)) < limit \<and>
     (\<exists>co \<in> set comps. is_pending co \<and> nn = key_of co)"
proof -
  let ?p = "filter is_pending comps"
  have scan: "limiter_scan 0 [] comps = (length (filter is_active comps), ?p)"
    by (simp add: limiter_scan_spec)
  with assms have "ops = dispatch_patch (newUUID en)" "int (length (filter is_active comps)) < limit"
    and i: "intn (length ?p) < length ?p" "nn = key_of (?p ! intn (length ?p))"
    by (auto simp: cl_Reconcile_def Let_def split: if_splits)
  moreover from i(1) have "?p ! intn (length ?p) \<in> set ?p" by (rule nth_mem)
  ultimately show ?thesis by auto
qed

lemma no_patch_elsewhere:
  "PatchCompositionStatus nn ops \<notin> set (fst (ro_Reconcile srt t cooldown rcl))"
  "PatchCompositionStatus nn ops \<notin> set (fst (sr_Reconcile shuffle t scl req))"
  "PatchCompositionStatus nn ops \<notin> set (fst (sa_Reconcile t acl req))"
  "PatchCompositionStatus nn ops \<notin> set (fst (ca_Reconcile ccl req))"
  "PatchCompositionStatus nn ops \<notin> set (fst (pr_Reconcile get wr req))"
proof -
  have "PatchCompositionStatus nn ops \<notin> set (fst (start_next t cooldown wr comps))" for wr comps
    by (induction comps) (auto split: option.splits prod.splits)
  then show "PatchCompositionStatus nn ops \<notin> set (fst (ro_Reconcile srt t cooldown rcl))"
    by (auto simp: ro_Reconcile_def split: sum.splits option.splits if_splits)
qed (auto simp: sr_Reconcile_def sa_Reconcile_def ca_Reconcile_def pr_Reconcile_def Let_def
    split: sum.splits option.splits if_splits)

lemma no_patch_kw: "PatchCompositionStatus nn ops \<notin> set (fst (kw_Reconcile shuffle t cl gvk req))"
proof -
  have "PatchCompositionStatus nn ops \<notin> set (fst (visit_synths t cl gvk meta synths))" for meta synths
    by (induction synths) (auto split: sum.splits option.splits)
  then show ?thesis by (auto simp: kw_Reconcile_def split: sum.splits)
qed

lemma no_patch_replication: "PatchCompositionStatus nn ops \<notin> set (fst (yr_Reconcile env cl req))"
proof -
  have rvs: "PatchCompositionStatus nn ops \<notin> set (fst (reconcileReverse env wr symph comps))" for wr symph comps
    by (auto simp: reconcileReverse_def split: option.splits list.splits)
  have fwd: "PatchCompositionStatus nn ops \<notin> set (fst (reconcileForward env cl symph existing vs))" for symph existing vs
    by (induction vs) (auto simp: create_for_def Let_def split: option.splits list.splits sum.splits if_splits)
  have syn: "PatchCompositionStatus nn ops \<notin> set (fst (syncStatus env wr symph comps))" for wr symph comps
    by (auto simp: syncStatus_def Let_def)
  show ?thesis
    by (auto simp: yr_Reconcile_def rvs fwd syn dest!: stage_mem release_requests split: sum.splits if_splits)
qed

lemma no_patch_executor: "PatchCompositionStatus nn ops \<notin> set (fst (Synthesize e ev))"
proof -
  have "PatchCompositionStatus nn ops \<notin> set (fst (writeSlices e co out))" for co out
    using write_all_requests by (fastforce simp: writeSlices_def split: sum.splits)
  moreover have "PatchCompositionStatus nn ops \<notin> set (fst (updateComposition e ev co f))" for co f
    by (auto simp: updateComposition_def update_attempt_def Let_def split: sum.splits)
  ultimately show ?thesis
    by (auto simp: Synthesize_def split: sum.splits if_splits prod.splits) (metis fst_conv)+
qed

lemma controller_patch:
  assumes "controller_write L limit V (PatchCompositionStatus nn ops)"
  shows "(\<exists>cur pod. ops = pod_created_patch cur pod \<and> UUID cur \<noteq> []) \<or>
     (\<exists>comps co u. L comps \<and> int (length (filter is_active comps)) < limit \<and> co \<in> set comps \<and> is_pending co \<and>
        nn = key_of co \<and> u \<noteq> [] \<and> ops = dispatch_patch u)"
  using assms
proof (cases rule: controller_write.cases)
  case (lifecycle en cl cfg req)
  then show ?thesis using lc_patch by blast
next
  case (limiter en cl comps intn cooldown)
  then show ?thesis using cl_patch [OF limiter(4,2)] by blast
qed (simp_all add: no_patch_elsewhere no_patch_kw no_patch_replication no_patch_executor)

end
