(* ===== verification/Cluster.thy ===== *)
theory Cluster
  imports Status_Machine
begin

text \<open>
  All controllers together on one API server. The state holds the stored compositions and every
  version that was ever stored: a controller's read may answer with any of these versions, as a stale
  informer cache does. The API server is not part of the program: the locale \<open>api_server\<close> states the
  documented behaviour that the controllers rely on (optimistic concurrency of updates, the status
  subresource, JSON patches that apply as a whole or not at all), and \<open>api_accept\<close> interprets it. A
  step is one accepted request of a controller, or a user that creates, edits or removes a
  composition without touching its status. Concurrent controllers are interleaved steps.
\<close>

section \<open>The API server\<close>

record cluster =
  store :: "NamespacedName \<Rightarrow> Composition option"
  seen :: "Composition set"

definition put :: "Composition \<Rightarrow> cluster \<Rightarrow> cluster" where
  "put co c = c\<lparr>store := (store c)(key_of co \<mapsto> co), seen := insert co (seen c)\<rparr>"

definition drop_comp :: "NamespacedName \<Rightarrow> cluster \<Rightarrow> cluster" where
  "drop_comp nn c = c\<lparr>store := (store c)(nn := None)\<rparr>"

text \<open>A resource version is new when no stored version of the object has had it.\<close>

definition new_version :: "Composition \<Rightarrow> cluster \<Rightarrow> bool" where
  "new_version co c \<longleftrightarrow> (\<forall>old \<in> seen c. key_of old = key_of co \<longrightarrow> ResourceVersion old \<noteq> ResourceVersion co)"

definition syn_field :: "string \<Rightarrow> Synthesis \<Rightarrow> json option" where
  "syn_field path cur =
     (if path = ''/status/currentSynthesis/uuid'' then Some (if UUID cur = [] then JNull else JStr (UUID cur))
      else if path = ''/status/currentSynthesis/synthesized''
      then Some (case Synthesized cur of None \<Rightarrow> JNull | Some t \<Rightarrow> JTime t)
      else None)"

definition set_syn_field :: "string \<Rightarrow> json \<Rightarrow> Synthesis \<Rightarrow> Synthesis option" where
  "set_syn_field path j cur =
     (case j of
        JStr u \<Rightarrow> if path = ''/status/currentSynthesis/uuid'' then Some (cur\<lparr>UUID := u\<rparr>) else None
      | JInt i \<Rightarrow> if path = ''/status/currentSynthesis/attempts'' then Some (cur\<lparr>Attempts := i\<rparr>) else None
      | JTime t \<Rightarrow> if path = ''/status/currentSynthesis/podCreation'' then Some (cur\<lparr>PodCreation := Some t\<rparr>) else None
      | JNull \<Rightarrow> None)"

text \<open>A JSON patch of the fields of the current synthesis that the controllers patch; \<open>None\<close> when it is rejected.\<close>

fun json_patch :: "patch_op list \<Rightarrow> Synthesis \<Rightarrow> Synthesis option" where
  "json_patch [] cur = Some cur"
| "json_patch (PTest path j # ops) cur = (if syn_field path cur = Some j then json_patch ops cur else None)"
| "json_patch (PReplace path j # ops) cur = Option.bind (set_syn_field path j cur) (json_patch ops)"
| "json_patch (PAdd path j # ops) cur = Option.bind (set_syn_field path j cur) (json_patch ops)"

locale api_server =
  fixes accepts :: "request \<Rightarrow> cluster \<Rightarrow> cluster \<Rightarrow> bool"
  assumes update_status: "accepts (UpdateCompositionStatus co) c c' \<Longrightarrow>
      \<exists>old rv. store c (key_of co) = Some old \<and> ResourceVersion co = ResourceVersion old \<and>
        new_version (old\<lparr>ResourceVersion := rv\<rparr>) c \<and>
        c' = put (old\<lparr>comp_Status := comp_Status co, ResourceVersion := rv\<rparr>) c"
    and patch_status: "accepts (PatchCompositionStatus nn ops) c c' \<Longrightarrow>
      \<exists>old cur cur' rv. store c nn = Some old \<and> current old = Some cur \<and> json_patch ops cur = Some cur' \<and>
        new_version (old\<lparr>ResourceVersion := rv\<rparr>) c \<and>
        c' = put (set_status (\<lambda>s. s\<lparr>CurrentSynthesis := Some cur'\<rparr>) (old\<lparr>ResourceVersion := rv\<rparr>)) c"
    and merge_status: "accepts (MergePatchCompositionStatus co) c c' \<Longrightarrow>
      \<exists>old rv. store c (key_of co) = Some old \<and> new_version (old\<lparr>ResourceVersion := rv\<rparr>) c \<and>
        c' = put (set_status (\<lambda>s. s\<lparr>Simplified := Simplified (comp_Status co)\<rparr>) (old\<lparr>ResourceVersion := rv\<rparr>)) c"
    and write_object: "r \<in> {UpdateComposition co, DeleteComposition co} \<Longrightarrow> accepts r c c' \<Longrightarrow>
      (\<exists>old new. store c (key_of co) = Some old \<and> key_of new = key_of co \<and> comp_Status new = comp_Status old \<and>
         new_version new c \<and> c' = put new c) \<or> c' = drop_comp (key_of co) c"
    and create: "accepts (CreateComposition co) c c' \<Longrightarrow>
      \<exists>new. store c (key_of new) = None \<and> new_version new c \<and> current new = None \<and> previous new = None \<and> c' = put new c"
    and unrelated: "accepts r c c' \<Longrightarrow>
      r \<in> range CreatePod \<union> range DeletePod \<union> range CreateSlice \<union> range UpdateSlice \<union> range DeleteSlice \<union>
          range UpdateSymphonyStatus \<union> range MergePatchSymphony \<union> range MergePatchSymphonyStatus \<Longrightarrow> c' = c"

section \<open>Steps and reachable states\<close>

definition fresh_list :: "cluster \<Rightarrow> Composition list \<Rightarrow> bool" where
  "fresh_list c comps \<longleftrightarrow> distinct (map key_of comps) \<and> set comps = ran (store c)"

text \<open>\<open>view\<close> says which lists the concurrency limiter may read in a state.\<close>

inductive cluster_step ::
  "(request \<Rightarrow> cluster \<Rightarrow> cluster \<Rightarrow> bool) \<Rightarrow> (cluster \<Rightarrow> Composition list \<Rightarrow> bool) \<Rightarrow> int \<Rightarrow> cluster \<Rightarrow> cluster \<Rightarrow> bool"
  for accepts view limit where
  controller: "controller_write (view c) limit (seen c) r \<Longrightarrow> accepts r c c' \<Longrightarrow> cluster_step accepts view limit c c'"
| user_create: "store c (key_of new) = None \<Longrightarrow> new_version new c \<Longrightarrow> current new = None \<Longrightarrow> previous new = None \<Longrightarrow>
    cluster_step accepts view limit c (put new c)"
| user_edit: "store c (key_of new) = Some old \<Longrightarrow> comp_Status new = comp_Status old \<Longrightarrow> new_version new c \<Longrightarrow>
    cluster_step accepts view limit c (put new c)"
| user_remove: "cluster_step accepts view limit c (drop_comp nn c)"

definition empty_cluster :: cluster where
  "empty_cluster = \<lparr>store = Map.empty, seen = {}\<rparr>"

inductive reachable ::
  "(request \<Rightarrow> cluster \<Rightarrow> cluster \<Rightarrow> bool) \<Rightarrow> (cluster \<Rightarrow> Composition list \<Rightarrow> bool) \<Rightarrow> int \<Rightarrow> cluster \<Rightarrow> bool"
  for accepts view limit where
  start: "reachable accepts view limit empty_cluster"
| step: "reachable accepts view limit c \<Longrightarrow> cluster_step accepts view limit c c' \<Longrightarrow> reachable accepts view limit c'"

section \<open>What one step does to one composition\<close>

text \<open>
  The change of the stored version of a composition in a step, seen from its status: a transition of
  the status machine, one of the patches, or no change of the syntheses. A dispatch needs \<open>d\<close>.
\<close>

inductive comp_change :: "bool \<Rightarrow> Composition \<Rightarrow> Composition \<Rightarrow> bool" for d :: bool where
  by_transition: "status_step old co' \<Longrightarrow> comp_Status new = comp_Status co' \<Longrightarrow> comp_change d old new"
| dispatched: "d \<Longrightarrow> current old = Some cur \<Longrightarrow> UUID cur = [] \<Longrightarrow> u \<noteq> [] \<Longrightarrow>
    comp_Status new = (comp_Status old)\<lparr>CurrentSynthesis := Some (cur\<lparr>UUID := u\<rparr>)\<rparr> \<Longrightarrow> comp_change d old new"
| pod_created: "current old = Some cur \<Longrightarrow> UUID cur \<noteq> [] \<Longrightarrow> Synthesized cur = None \<Longrightarrow>
    comp_Status new = (comp_Status old)\<lparr>CurrentSynthesis := Some (cur\<lparr>Attempts := n, PodCreation := Some t\<rparr>)\<rparr> \<Longrightarrow>
    comp_change d old new"
| unchanged: "current new = current old \<Longrightarrow> previous new = previous old \<Longrightarrow> comp_change d old new"

lemma json_patch_dispatch:
  "json_patch (dispatch_patch u) cur = Some cur' \<longleftrightarrow> UUID cur = [] \<and> cur' = cur\<lparr>UUID := u\<rparr>"
  by (auto simp: dispatch_patch_def uuid_path_def syn_field_def set_syn_field_def)

lemma json_patch_pod_created:
  assumes "UUID p \<noteq> []"
  shows "json_patch (pod_created_patch p pod) cur = Some cur' \<longleftrightarrow>
     UUID cur = UUID p \<and> Synthesized cur = None \<and>
     cur' = cur\<lparr>Attempts := Attempts p + 1, PodCreation := Some (CreationTimestamp pod)\<rparr>"
  using assms
  by (auto simp: pod_created_patch_def syn_field_def set_syn_field_def split: if_splits option.splits)

lemma status_step_meta: "status_step co co' \<Longrightarrow> key_of co' = key_of co \<and> ResourceVersion co' = ResourceVersion co"
  by (induction rule: status_step.induct)
    (auto simp: key_of_def SwapStates_def start_deferred_def revert_swap_def deleted_status_def complete_synthesis_def
      shouldSwapStates_def Let_def split: option.splits if_splits prod.splits)

definition versions_unique :: "cluster \<Rightarrow> bool" where
  "versions_unique c \<longleftrightarrow>
     (\<forall>nn co. store c nn = Some co \<longrightarrow> key_of co = nn \<and> co \<in> seen c) \<and>
     (\<forall>a \<in> seen c. \<forall>b \<in> seen c. key_of a = key_of b \<longrightarrow> ResourceVersion a = ResourceVersion b \<longrightarrow> a = b)"

lemma versions_unique_put:
  "versions_unique c \<Longrightarrow> new_version co c \<Longrightarrow> versions_unique (put co c)"
  by (fastforce simp: versions_unique_def put_def new_version_def)

lemma versions_unique_empty: "versions_unique empty_cluster"
  by (simp add: versions_unique_def empty_cluster_def)

lemma versions_unique_drop: "versions_unique c \<Longrightarrow> versions_unique (drop_comp nn c)"
  by (auto simp: versions_unique_def drop_comp_def)

definition may_dispatch :: "(cluster \<Rightarrow> Composition list \<Rightarrow> bool) \<Rightarrow> int \<Rightarrow> cluster \<Rightarrow> bool" where
  "may_dispatch view limit c \<longleftrightarrow> (\<exists>comps. view c comps \<and> int (length (filter is_active comps)) < limit)"

text \<open>A new version of one composition, or its removal, or nothing.\<close>

definition comp_effect :: "bool \<Rightarrow> cluster \<Rightarrow> cluster \<Rightarrow> bool" where
  "comp_effect d c c' \<longleftrightarrow>
     (\<exists>new. c' = put new c \<and> new_version new c \<and>
        (case store c (key_of new) of
           None \<Rightarrow> current new = None \<and> previous new = None
         | Some old \<Rightarrow> comp_change d old new)) \<or>
     (\<exists>nn. c' = drop_comp nn c) \<or> c' = c"

lemma new_version_cong: "key_of a = key_of b \<Longrightarrow> ResourceVersion a = ResourceVersion b \<Longrightarrow> new_version a c = new_version b c"
  by (simp add: new_version_def)

lemma comp_effectI:
  "store c (key_of new) = Some old \<Longrightarrow> comp_change d old new \<Longrightarrow> new_version new c \<Longrightarrow> comp_effect d c (put new c)"
  by (auto simp: comp_effect_def)

context api_server
begin

lemma effect_update_status:
  assumes "versions_unique c" and "controller_write L limit (seen c) (UpdateCompositionStatus co')"
    and "accepts (UpdateCompositionStatus co') c c'"
  shows "comp_effect d c c'"
proof -
  from status_step_written [OF assms(2)] obtain co where co: "co \<in> seen c" "status_step co co'" by blast
  from update_status [OF assms(3)] obtain old rv where old: "store c (key_of co') = Some old"
    "ResourceVersion co' = ResourceVersion old" "new_version (old\<lparr>ResourceVersion := rv\<rparr>) c"
    "c' = put (old\<lparr>comp_Status := comp_Status co', ResourceVersion := rv\<rparr>) c" by blast
  have "co = old"
    using assms(1) co(1) old(1,2) status_step_meta [OF co(2)] by (auto simp: versions_unique_def)
  let ?new = "old\<lparr>comp_Status := comp_Status co', ResourceVersion := rv\<rparr>"
  have k: "key_of ?new = key_of old" "new_version ?new c"
    using old(3) new_version_cong [of ?new "old\<lparr>ResourceVersion := rv\<rparr>" c] by (simp_all add: key_of_def)
  have "comp_change d old ?new"
    by (rule comp_change.by_transition [OF co(2) [unfolded \<open>co = old\<close>]]) simp
  moreover have "store c (key_of ?new) = Some old"
    using old(1) assms(1) k(1) by (auto simp: versions_unique_def)
  ultimately show ?thesis using k(2) old(4) by (auto intro: comp_effectI)
qed

lemma effect_patch_status:
  assumes "versions_unique c" and "controller_write (view c) limit (seen c) (PatchCompositionStatus nn ops)"
    and "accepts (PatchCompositionStatus nn ops) c c'"
  shows "comp_effect (may_dispatch view limit c) c c'"
proof -
  from patch_status [OF assms(3)] obtain old cur cur' rv where old: "store c nn = Some old" "current old = Some cur"
    "json_patch ops cur = Some cur'" "new_version (old\<lparr>ResourceVersion := rv\<rparr>) c"
    "c' = put (set_status (\<lambda>s. s\<lparr>CurrentSynthesis := Some cur'\<rparr>) (old\<lparr>ResourceVersion := rv\<rparr>)) c" by blast
  let ?new = "set_status (\<lambda>s. s\<lparr>CurrentSynthesis := Some cur'\<rparr>) (old\<lparr>ResourceVersion := rv\<rparr>)"
  have "comp_change (may_dispatch view limit c) old ?new"
    using controller_patch [OF assms(2)]
  proof
    assume "\<exists>cur pod. ops = pod_created_patch cur pod \<and> UUID cur \<noteq> []"
    then obtain p pod where ops: "ops = pod_created_patch p pod" "UUID p \<noteq> []" by blast
    with old(3) json_patch_pod_created [OF ops(2)] have "UUID cur \<noteq> []" "Synthesized cur = None"
      "cur' = cur\<lparr>Attempts := Attempts p + 1, PodCreation := Some (CreationTimestamp pod)\<rparr>" by simp_all
    then show ?thesis by (intro comp_change.pod_created [OF old(2)]) simp_all
  next
    assume "\<exists>comps co u. view c comps \<and> int (length (filter is_active comps)) < limit \<and> co \<in> set comps \<and>
      is_pending co \<and> nn = key_of co \<and> u \<noteq> [] \<and> ops = dispatch_patch u"
    then obtain u where "may_dispatch view limit c" "u \<noteq> []" "ops = dispatch_patch u"
      by (auto simp: may_dispatch_def)
    with old(3) show ?thesis
      by (intro comp_change.dispatched [OF _ old(2), of _ u]) (simp_all add: json_patch_dispatch)
  qed
  moreover have "store c (key_of ?new) = Some old" "new_version ?new c"
    using old(1,4) assms(1) new_version_cong [of ?new "old\<lparr>ResourceVersion := rv\<rparr>" c]
    by (auto simp: versions_unique_def key_of_def)
  ultimately show ?thesis using old(5) by (auto intro: comp_effectI)
qed

lemma effect_merge_status:
  assumes "versions_unique c" and "accepts (MergePatchCompositionStatus co) c c'"
  shows "comp_effect d c c'"
proof -
  from merge_status [OF assms(2)] obtain old rv where old: "store c (key_of co) = Some old"
    "new_version (old\<lparr>ResourceVersion := rv\<rparr>) c"
    "c' = put (set_status (\<lambda>s. s\<lparr>Simplified := Simplified (comp_Status co)\<rparr>) (old\<lparr>ResourceVersion := rv\<rparr>)) c" by blast
  let ?new = "set_status (\<lambda>s. s\<lparr>Simplified := Simplified (comp_Status co)\<rparr>) (old\<lparr>ResourceVersion := rv\<rparr>)"
  have "comp_change d old ?new" by (intro comp_change.unchanged) simp_all
  moreover have "store c (key_of ?new) = Some old" "new_version ?new c"
    using old(1,2) assms(1) new_version_cong [of ?new "old\<lparr>ResourceVersion := rv\<rparr>" c]
    by (auto simp: versions_unique_def key_of_def)
  ultimately show ?thesis using old(3) by (auto intro: comp_effectI)
qed

lemma effect_write_object:
  assumes "r \<in> {UpdateComposition co, DeleteComposition co}" and "accepts r c c'"
  shows "comp_effect d c c'"
  using write_object [OF assms]
proof
  assume "\<exists>old new. store c (key_of co) = Some old \<and> key_of new = key_of co \<and> comp_Status new = comp_Status old \<and>
    new_version new c \<and> c' = put new c"
  then obtain old new where new: "store c (key_of new) = Some old" "comp_Status new = comp_Status old"
    "new_version new c" "c' = put new c" by metis
  then have "comp_change d old new" by (intro comp_change.unchanged) simp_all
  with new show ?thesis by (auto intro: comp_effectI)
qed (auto simp: comp_effect_def)

lemma step_effect:
  assumes "versions_unique c" and "cluster_step accepts view limit c c'"
  shows "comp_effect (may_dispatch view limit c) c c'"
  using assms(2)
proof (cases rule: cluster_step.cases)
  case (controller r)
  note w = controller(1) and a = controller(2)
  show ?thesis
  proof (cases r)
    case (UpdateCompositionStatus co)
    with w a assms(1) show ?thesis by (auto intro: effect_update_status)
  next
    case (PatchCompositionStatus nn ops)
    with w a assms(1) show ?thesis by (auto intro: effect_patch_status)
  next
    case (MergePatchCompositionStatus co)
    with a assms(1) show ?thesis by (auto intro: effect_merge_status)
  next
    case (CreateComposition co)
    with create [of co c c'] a show ?thesis by (auto simp: comp_effect_def)
  next
    case (UpdateComposition co)
    with a show ?thesis by (auto intro: effect_write_object)
  next
    case (DeleteComposition co)
    with a show ?thesis by (auto intro: effect_write_object)
  qed (use unrelated [OF a] in \<open>auto simp: comp_effect_def\<close>)
next
  case (user_create new)
  then show ?thesis by (auto simp: comp_effect_def)
next
  case (user_edit new old)
  then have "comp_change (may_dispatch view limit c) old new" by (intro comp_change.unchanged) simp_all
  with user_edit show ?thesis by (auto intro: comp_effectI)
next
  case (user_remove nn)
  then show ?thesis by (auto simp: comp_effect_def)
qed

lemma versions_unique_step:
  assumes "versions_unique c" and "cluster_step accepts view limit c c'"
  shows "versions_unique c'"
  using step_effect [OF assms] assms(1)
  by (auto simp: comp_effect_def intro: versions_unique_put versions_unique_drop)

lemma versions_unique_reachable: "reachable accepts view limit c \<Longrightarrow> versions_unique c"
  by (induction rule: reachable.induct) (auto intro: versions_unique_empty versions_unique_step)

end

section \<open>Well-formed statuses\<close>

definition wf_status :: "CompositionStatus \<Rightarrow> bool" where
  "wf_status s \<longleftrightarrow>
     (case PreviousSynthesis s of
        None \<Rightarrow> True
      | Some p \<Rightarrow> Synthesized p \<noteq> None \<and> \<not> Failed p \<and> UUID p \<noteq> []) \<and>
     (case CurrentSynthesis s of
        None \<Rightarrow> True
      | Some cur \<Rightarrow>
          (if Synthesized cur = None
           then Results cur = [] \<and> ResourceSlices cur = [] \<and> Reconciled cur = None \<and> Ready cur = None
           else UUID cur \<noteq> []) \<and>
          (UUID cur = [] \<longrightarrow> Attempts cur = 0 \<and> PodCreation cur = None))"

lemma wf_SwapStates [eno_inv]:
  assumes "wf_status (comp_Status co)" and "shouldSwapStates srt syn co = (b, co1)"
  shows "wf_status (comp_Status (SwapStates t co1))"
proof -
  from shouldSwapStates_frame(5,7) [OF assms(2)] obtain rs where
    "previous co1 = previous co" "current co1 = map_option (\<lambda>c. c\<lparr>syn_InputRevisions := rs\<rparr>) (current co)" by blast
  with assms(1) show ?thesis
    by (auto simp: wf_status_def SwapStates_def zero_Synthesis_def Failed_def split: option.splits if_splits)
qed

lemma wf_SwapStates_plain [eno_inv]: "wf_status (comp_Status co) \<Longrightarrow> wf_status (comp_Status (SwapStates t co))"
  by (auto simp: wf_status_def SwapStates_def zero_Synthesis_def split: option.splits if_splits)

lemma wf_start_deferred [eno_inv]: "wf_status (comp_Status co) \<Longrightarrow> wf_status (comp_Status (start_deferred t co))"
  using wf_SwapStates_plain [of co t]
  by (auto simp: wf_status_def start_deferred_def SwapStates_def zero_Synthesis_def split: option.splits)

lemma status_step_wf [eno_inv]: "status_step co co' \<Longrightarrow> wf_status (comp_Status co) \<Longrightarrow> wf_status (comp_Status co')"
proof (induction rule: status_step.induct)
  case (swap srt syn co co1 t)
  then show ?case by (auto intro: eno_inv)
next
  case (resynthesize co cur p t)
  then show ?case by (auto intro: eno_inv)
next
  case (revert co)
  then show ?case by (auto simp: wf_status_def revert_swap_def split: option.splits)
next
  case (finish_deleted co u t)
  then show ?case
    by (auto simp: wf_status_def deleted_status_def shouldUpdateDeletedCompositionStatus_def split: option.splits)
next
  case (complete co cur t syn refs revs results)
  then show ?case by (auto simp: wf_status_def complete_synthesis_def split: option.splits)
next
  case (summarise co cur t a)
  then show ?case by (auto simp: wf_status_def agg_update_def Let_def split: option.splits)
qed (auto simp: wf_status_def)

lemma comp_change_wf [eno_inv]:
  "comp_change d old new \<Longrightarrow> wf_status (comp_Status old) \<Longrightarrow> wf_status (comp_Status new)"
proof (induction rule: comp_change.induct)
  case (by_transition old co' new)
  then show ?case using status_step_wf by simp
qed (auto simp: wf_status_def split: if_splits)

lemma wf_not_terminal: "wf_status (comp_Status co) \<Longrightarrow> \<not> inTerminalError co"
  by (auto simp: wf_status_def inTerminalError_def Failed_def split: option.splits if_splits)

context api_server
begin

lemma reachable_wf:
  "reachable accepts view limit c \<Longrightarrow> store c nn = Some co \<Longrightarrow> wf_status (comp_Status co)"
proof (induction arbitrary: nn co rule: reachable.induct)
  case start
  then show ?case by (simp add: empty_cluster_def)
next
  case (step c c')
  from step_effect [OF versions_unique_reachable [OF step.hyps(1)] step.hyps(2)]
  consider new where "c' = put new c" "case store c (key_of new) of
      None \<Rightarrow> current new = None \<and> previous new = None
    | Some old \<Rightarrow> comp_change (may_dispatch view limit c) old new"
  | nn where "c' = drop_comp nn c" | "c' = c"
    unfolding comp_effect_def by blast
  then show ?case
  proof cases
    case 1
    show ?thesis
    proof (cases "nn = key_of new")
      case True
      with 1 step.prems have "co = new" by (simp add: put_def)
      with 1(2) step.IH [of "key_of new"] comp_change_wf show ?thesis
        by (cases "store c (key_of new)") (auto simp: wf_status_def)
    next
      case False
      with 1 step show ?thesis by (simp add: put_def)
    qed
  next
    case 2
    with step show ?thesis by (auto simp: drop_comp_def split: if_splits)
  next
    case 3
    with step show ?thesis by simp
  qed
qed

end

definition api_accept :: "request \<Rightarrow> cluster \<Rightarrow> cluster \<Rightarrow> bool" where
  "api_accept r c c' \<longleftrightarrow>
     (case r of
        UpdateCompositionStatus co \<Rightarrow>
          \<exists>old rv. store c (key_of co) = Some old \<and> ResourceVersion co = ResourceVersion old \<and>
            new_version (old\<lparr>ResourceVersion := rv\<rparr>) c \<and>
            c' = put (old\<lparr>comp_Status := comp_Status co, ResourceVersion := rv\<rparr>) c
      | PatchCompositionStatus nn ops \<Rightarrow>
          \<exists>old cur cur' rv. store c nn = Some old \<and> current old = Some cur \<and> json_patch ops cur = Some cur' \<and>
            new_version (old\<lparr>ResourceVersion := rv\<rparr>) c \<and>
            c' = put (set_status (\<lambda>s. s\<lparr>CurrentSynthesis := Some cur'\<rparr>) (old\<lparr>ResourceVersion := rv\<rparr>)) c
      | MergePatchCompositionStatus co \<Rightarrow>
          \<exists>old rv. store c (key_of co) = Some old \<and> new_version (old\<lparr>ResourceVersion := rv\<rparr>) c \<and>
            c' = put (set_status (\<lambda>s. s\<lparr>Simplified := Simplified (comp_Status co)\<rparr>) (old\<lparr>ResourceVersion := rv\<rparr>)) c
      | UpdateComposition co \<Rightarrow>
          \<exists>old rv. store c (key_of co) = Some old \<and> ResourceVersion co = ResourceVersion old \<and>
            (if DeletionTimestamp old \<noteq> None \<and> Finalizers co = [] then c' = drop_comp (key_of co) c
             else new_version (co\<lparr>ResourceVersion := rv\<rparr>) c \<and>
               c' = put (co\<lparr>comp_Status := comp_Status old, ResourceVersion := rv\<rparr>) c)
      | DeleteComposition co \<Rightarrow>
          \<exists>old rv t. store c (key_of co) = Some old \<and>
            (if Finalizers old = [] then c' = drop_comp (key_of co) c
             else new_version (old\<lparr>ResourceVersion := rv\<rparr>) c \<and>
               c' = put (old\<lparr>DeletionTimestamp := Some t, ResourceVersion := rv\<rparr>) c)
      | CreateComposition co \<Rightarrow>
          \<exists>new. store c (key_of new) = None \<and> new_version new c \<and> current new = None \<and> previous new = None \<and> c' = put new c
      | _ \<Rightarrow> c' = c)"

text \<open>
  The laws are proved of this function for states whose stored objects sit under their own keys, which
  every reachable state satisfies; \<open>api_accept_keyed\<close> accepts nothing in other states.
\<close>

definition api_accept_keyed :: "request \<Rightarrow> cluster \<Rightarrow> cluster \<Rightarrow> bool" where
  "api_accept_keyed r c c' \<longleftrightarrow> (\<forall>nn co. store c nn = Some co \<longrightarrow> key_of co = nn) \<and> api_accept r c c'"

lemma versioned_copy:
  "new_version (co\<lparr>ResourceVersion := rv\<rparr>) c \<Longrightarrow> new_version (co\<lparr>comp_Status := st, ResourceVersion := rv\<rparr>) c"
  "new_version (co\<lparr>ResourceVersion := rv\<rparr>) c \<Longrightarrow> new_version (co\<lparr>DeletionTimestamp := dt, ResourceVersion := rv\<rparr>) c"
  "key_of (co\<lparr>comp_Status := st, ResourceVersion := rv\<rparr>) = key_of co"
  "key_of (co\<lparr>DeletionTimestamp := dt, ResourceVersion := rv\<rparr>) = key_of co"
  by (simp_all add: new_version_def key_of_def)

lemma accept_update_object:
  assumes "api_accept_keyed (UpdateComposition co) c c'"
  shows "(\<exists>old new. store c (key_of co) = Some old \<and> key_of new = key_of co \<and> comp_Status new = comp_Status old \<and>
       new_version new c \<and> c' = put new c) \<or> c' = drop_comp (key_of co) c"
proof -
  from assms obtain old rv where old: "store c (key_of co) = Some old"
    and c': "if DeletionTimestamp old \<noteq> None \<and> Finalizers co = [] then c' = drop_comp (key_of co) c
             else new_version (co\<lparr>ResourceVersion := rv\<rparr>) c \<and>
               c' = put (co\<lparr>comp_Status := comp_Status old, ResourceVersion := rv\<rparr>) c"
    by (auto simp: api_accept_keyed_def api_accept_def)
  show ?thesis
  proof (cases "DeletionTimestamp old \<noteq> None \<and> Finalizers co = []")
    case False
    with old c' versioned_copy(1,3) show ?thesis
      by (intro disjI1 exI [of _ old] exI [of _ "co\<lparr>comp_Status := comp_Status old, ResourceVersion := rv\<rparr>"]) auto
  qed (use c' in auto)
qed

lemma accept_delete_object:
  assumes "api_accept_keyed (DeleteComposition co) c c'"
  shows "(\<exists>old new. store c (key_of co) = Some old \<and> key_of new = key_of co \<and> comp_Status new = comp_Status old \<and>
       new_version new c \<and> c' = put new c) \<or> c' = drop_comp (key_of co) c"
proof -
  from assms obtain old rv t where old: "store c (key_of co) = Some old" "key_of old = key_of co"
    and c': "if Finalizers old = [] then c' = drop_comp (key_of co) c
             else new_version (old\<lparr>ResourceVersion := rv\<rparr>) c \<and>
               c' = put (old\<lparr>DeletionTimestamp := Some t, ResourceVersion := rv\<rparr>) c"
    by (auto simp: api_accept_keyed_def api_accept_def)
  show ?thesis
  proof (cases "Finalizers old = []")
    case False
    with old c' versioned_copy(2,4) show ?thesis
      by (intro disjI1 exI [of _ old] exI [of _ "old\<lparr>DeletionTimestamp := Some t, ResourceVersion := rv\<rparr>"]) auto
  qed (use c' in auto)
qed

interpretation kube: api_server api_accept_keyed
proof (unfold_locales, goal_cases)
  case (4 r co c c')
  then show ?case using accept_update_object accept_delete_object by (elim insertE emptyE) simp_all
qed (auto simp: api_accept_keyed_def api_accept_def)

section \<open>Properties of every interleaving\<close>

subsection \<open>The limit on active syntheses\<close>

definition active_keys :: "cluster \<Rightarrow> NamespacedName set" where
  "active_keys c = {nn. \<exists>co. store c nn = Some co \<and> is_active co}"

lemma status_step_active:
  "status_step co co' \<Longrightarrow> wf_status (comp_Status co) \<Longrightarrow> is_active co' \<Longrightarrow> is_active co"
  by (induction rule: status_step.induct)
    (auto simp: is_active_def SwapStates_def start_deferred_def revert_swap_def deleted_status_def complete_synthesis_def
      agg_update_def zero_Synthesis_def wf_status_def Let_def split: option.splits if_splits)

lemma is_active_status: "comp_Status a = comp_Status b \<Longrightarrow> is_active a = is_active b"
  by (simp add: is_active_def)

lemma comp_change_active:
  "comp_change d old new \<Longrightarrow> wf_status (comp_Status old) \<Longrightarrow> is_active new \<Longrightarrow> is_active old \<or> d"
proof (induction rule: comp_change.induct)
  case (by_transition old co' new)
  then show ?case using status_step_active is_active_status by blast
qed (auto simp: is_active_def)

lemma fresh_count:
  assumes "versions_unique c" and "fresh_list c comps"
  shows "length (filter is_active comps) = card (active_keys c)"
proof -
  have "active_keys c = key_of ` set (filter is_active comps)"
    using assms by (fastforce simp: active_keys_def fresh_list_def versions_unique_def ran_def)
  moreover have "distinct (map key_of (filter is_active comps))"
    using assms(2) by (simp add: fresh_list_def distinct_map_filter)
  ultimately show ?thesis
    by (metis distinct_card length_map set_map)
qed

lemma active_keys_put: "active_keys (put new c) = (if is_active new then insert (key_of new) (active_keys c) else active_keys c - {key_of new})"
  by (auto simp: active_keys_def put_def)

lemma active_keys_drop: "active_keys (drop_comp nn c) \<subseteq> active_keys c"
  by (auto simp: active_keys_def drop_comp_def split: if_splits)

context api_server
begin

lemma reachable_active:
  assumes "0 \<le> limit"
  shows "reachable accepts fresh_list limit c \<Longrightarrow> finite (active_keys c) \<and> int (card (active_keys c)) \<le> limit"
proof (induction rule: reachable.induct)
  case start
  then show ?case using assms by (simp add: active_keys_def empty_cluster_def)
next
  case (step c c')
  note u = versions_unique_reachable [OF step.hyps(1)]
  from step_effect [OF u step.hyps(2)]
  consider new where "c' = put new c" "case store c (key_of new) of
      None \<Rightarrow> current new = None \<and> previous new = None
    | Some old \<Rightarrow> comp_change (may_dispatch fresh_list limit c) old new"
  | nn where "c' = drop_comp nn c" | "c' = c"
    unfolding comp_effect_def by blast
  then show ?case
  proof cases
    case 1
    show ?thesis
    proof (cases "is_active new \<and> key_of new \<notin> active_keys c")
      case True
      with 1(2) obtain old where old: "store c (key_of new) = Some old" "comp_change (may_dispatch fresh_list limit c) old new"
        by (cases "store c (key_of new)") (auto simp: is_active_def)
      moreover have "\<not> is_active old" using True old(1) by (auto simp: active_keys_def)
      ultimately have "may_dispatch fresh_list limit c"
        using comp_change_active reachable_wf [OF step.hyps(1) old(1)] True by blast
      then have "int (card (active_keys c)) < limit"
        using fresh_count [OF u] by (auto simp: may_dispatch_def)
      with 1 True step.IH show ?thesis by (simp add: active_keys_put)
    next
      case False
      then have "active_keys c' \<subseteq> active_keys c" using 1 by (auto simp: active_keys_put)
      with step.IH show ?thesis by (meson card_mono finite_subset of_nat_le_iff order_trans)
    qed
  next
    case 2
    with step.IH active_keys_drop [of nn c] show ?thesis by (meson card_mono finite_subset of_nat_le_iff order_trans)
  next
    case 3
    with step.IH show ?thesis by simp
  qed
qed

end

subsection \<open>Completed syntheses are kept\<close>

definition retained :: "Composition \<Rightarrow> Synthesis \<Rightarrow> Composition \<Rightarrow> bool" where
  "retained old cur new \<longleftrightarrow>
     (\<exists>cur'. current new = Some cur' \<and>
        (if Synthesized cur' \<noteq> None
         then ResourceSlices cur' = ResourceSlices cur \<and> Results cur' = Results cur \<and> previous new = previous old
         else UUID cur' = [] \<and>
           (if Failed cur then previous new = previous old
            else \<exists>p. previous new = Some p \<and> UUID p = UUID cur \<and> ResourceSlices p = ResourceSlices cur)))"

lemma status_step_retains:
  "status_step old co' \<Longrightarrow> current old = Some cur \<Longrightarrow> Synthesized cur \<noteq> None \<Longrightarrow> retained old cur co'"
proof (induction rule: status_step.induct)
  case (swap srt syn co co1 t)
  from shouldSwapStates_frame(5,7) [OF swap(1)] obtain rs where
    "previous co1 = previous co" "current co1 = map_option (\<lambda>c. c\<lparr>syn_InputRevisions := rs\<rparr>) (current co)" by blast
  with swap(2,3) show ?case
    by (auto simp: retained_def SwapStates_def zero_Synthesis_def Failed_def)
next
  case (resynthesize co cur p t)
  then show ?case by (auto simp: retained_def start_deferred_def SwapStates_def zero_Synthesis_def)
qed (auto simp: retained_def revert_swap_def deleted_status_def agg_update_def shouldRevertStateSwap_def Let_def)

lemma retained_status: "comp_Status a = comp_Status b \<Longrightarrow> retained old cur a = retained old cur b"
  by (simp only: retained_def)

lemma comp_change_retains:
  assumes "comp_change d old new" "wf_status (comp_Status old)" "current old = Some cur" "Synthesized cur \<noteq> None"
  shows "retained old cur new"
  using assms
proof (induction rule: comp_change.induct)
  case (by_transition old co' new)
  then show ?case using status_step_retains [of old co' cur] retained_status [of new co' old cur] by simp
qed (auto simp: retained_def wf_status_def)

context api_server
begin

lemma step_retains:
  assumes "reachable accepts view limit c" "cluster_step accepts view limit c c'"
    and "store c nn = Some old" "current old = Some cur" "Synthesized cur \<noteq> None" "store c' nn = Some new"
  shows "retained old cur new"
proof -
  note u = versions_unique_reachable [OF assms(1)] and wf = reachable_wf [OF assms(1,3)]
  have same: "retained old cur old" using assms(4,5) by (simp add: retained_def)
  from step_effect [OF u assms(2)]
  consider new' where "c' = put new' c" "case store c (key_of new') of
      None \<Rightarrow> current new' = None \<and> previous new' = None
    | Some old \<Rightarrow> comp_change (may_dispatch view limit c) old new'"
  | nn where "c' = drop_comp nn c" | "c' = c"
    unfolding comp_effect_def by blast
  then show ?thesis
  proof cases
    case 1
    then show ?thesis
      using assms(3-6) same comp_change_retains [OF _ wf assms(4,5)]
      by (cases "nn = key_of new'") (auto simp: put_def)
  qed (use assms(3,6) same in \<open>auto simp: drop_comp_def split: if_splits\<close>)
qed

end

text \<open>
  C5. In every state that any interleaving of the controllers and of users reaches, with stale reads
  allowed, the status of every composition is well formed: a previous synthesis is complete, did not
  fail and has a UUID; a current synthesis that is not complete has no results, no slices and no
  reconciliation or readiness times; a complete one has a UUID; and a synthesis that was not dispatched
  has no attempts. In particular no composition is in the terminal error that the watchdog counts.
\<close>
theorem reachable_status_wf:
  assumes "api_server accepts" and "reachable accepts view limit c" and "store c nn = Some co"
  shows "wf_status (comp_Status co) \<and> \<not> inTerminalError co"
  using api_server.reachable_wf [OF assms] wf_not_terminal by blast



section \<open>A run\<close>

definition comp0 :: Composition where
  "comp0 = sample_comp\<lparr>ResourceVersion := ''a'', comp_Status := \<lparr>Simplified = None, CurrentSynthesis = None,
     PreviousSynthesis = None, PendingResynthesis = None, InputRevs = []\<rparr>\<rparr>"

definition comp1 :: Composition where
  "comp1 = (SwapStates 10 comp0)\<lparr>ResourceVersion := ''b''\<rparr>"

definition comp3 :: Composition where
  "comp3 = completed_comp\<lparr>ResourceVersion := ''2''\<rparr>"

lemmas run_defs = comp0_def comp1_def comp3_def completed_comp_def complete_synthesis_def SwapStates_def
  sample_comp_def sample_synthesis_def zero_Synthesis_def

lemma run_keys: "key_of comp0 = key_of sample_comp" "key_of comp1 = key_of sample_comp" "key_of comp3 = key_of sample_comp"
  by (simp_all add: run_defs key_of_def)

definition c0 :: cluster where "c0 = put comp0 empty_cluster"
definition c1 :: cluster where "c1 = put comp1 c0"
definition c2 :: cluster where "c2 = put sample_comp c1"
definition c3 :: cluster where "c3 = put comp3 c2"

lemma run_store:
  "store c0 = [key_of sample_comp \<mapsto> comp0]" "store c1 = [key_of sample_comp \<mapsto> comp1]"
  "store c2 = [key_of sample_comp \<mapsto> sample_comp]" "store c3 = [key_of sample_comp \<mapsto> comp3]"
  "seen c0 = {comp0}" "seen c1 = {comp1, comp0}" "seen c2 = {sample_comp, comp1, comp0}"
  by (simp_all add: c0_def c1_def c2_def c3_def put_def empty_cluster_def run_keys)

abbreviation kube_step :: "cluster \<Rightarrow> cluster \<Rightarrow> bool" where
  "kube_step \<equiv> cluster_step api_accept_keyed fresh_list 1"

abbreviation kube_reachable :: "cluster \<Rightarrow> bool" where
  "kube_reachable \<equiv> reachable api_accept_keyed fresh_list 1"

lemma run0: "kube_reachable c0"
proof -
  have "kube_step empty_cluster (put comp0 empty_cluster)"
    by (rule cluster_step.user_create) (simp_all add: empty_cluster_def new_version_def comp0_def)
  with reachable.start show ?thesis unfolding c0_def by (rule reachable.step)
qed

lemma run1: "kube_step c0 c1"
proof -
  let ?en = "sample_env\<lparr>now := 10, newUUID := ''u1''\<rparr>"
  let ?cl = "sample_lc_client\<lparr>lc_get_comp := (\<lambda>_. Inr comp0)\<rparr>"
  have "UpdateCompositionStatus (SwapStates 10 comp0) \<in> set (fst (lc_Reconcile sample_config ?en ?cl (key_of sample_comp)))"
    by (simp add: lc_Reconcile_def AddFinalizer_def find_synth_def lc_with_pods_def shouldDeletePod_def synthesize_def
        shouldSwapStates_def inputs_ready_def InputsExist_def InputsOutOfLockstep_def sample_lc_client_def
        comp0_def sample_defs)
  moreover have "reads_from (seen c0) (lc_get_comp ?cl)" by (simp add: reads_from_def run_store)
  ultimately have w: "controller_write (fresh_list c0) 1 (seen c0) (UpdateCompositionStatus (SwapStates 10 comp0))"
    by (intro controller_write.lifecycle [of ?en]) simp_all
  have "api_accept_keyed (UpdateCompositionStatus (SwapStates 10 comp0)) c0 c1"
    unfolding api_accept_keyed_def api_accept_def
    by (auto simp: run_store run_keys c1_def new_version_def run_defs key_of_def intro!: exI [of _ "''b''"])
  with w show ?thesis by (rule cluster_step.controller)
qed

lemma run2: "kube_step c1 c2"
proof -
  let ?en = "sample_env\<lparr>newUUID := ''u1''\<rparr>"
  let ?cl = "\<lparr>cl_list_comps = Inr [comp1], cl_write = (\<lambda>_. None)\<rparr>"
  let ?r = "PatchCompositionStatus (key_of comp1) (dispatch_patch ''u1'')"
  have "?r \<in> set (fst (cl_Reconcile (\<lambda>_. 0) ?en 1 0 ?cl))"
    by (simp add: cl_Reconcile_def run_defs)
  moreover have "fresh_list c1 [comp1]" by (simp add: fresh_list_def run_store)
  ultimately have w: "controller_write (fresh_list c1) 1 (seen c1) ?r"
    by (intro controller_write.limiter [of ?en ?cl]) simp_all
  have "api_accept_keyed ?r c1 c2"
    unfolding api_accept_keyed_def api_accept_def
    by (auto simp: run_store run_keys c2_def new_version_def json_patch_dispatch)
      (auto simp: run_defs key_of_def intro!: exI [of _ "''1''"])
  with w show ?thesis by (rule cluster_step.controller)
qed

lemma run3: "kube_step c2 c3"
proof -
  let ?r = "UpdateCompositionStatus completed_comp"
  have "?r \<in> set (fst (Synthesize sample_executor sample_exec_env))"
    by (simp add: exec_eval completed_comp_def sample_comp_def sample_synth_def sample_synthesis_def
        zero_Synthesizer_def zero_Synthesis_def complete_synthesis_def)
  moreover have "reads_from (seen c2) (ex_get_comp sample_executor n)" for n
    by (simp add: reads_from_def sample_executor_def run_store)
  ultimately have w: "controller_write (fresh_list c2) 1 (seen c2) ?r"
    by (intro controller_write.execution [of sample_exec_env]) (simp_all add: sample_exec_env_def)
  have k: "key_of completed_comp = key_of sample_comp" by (simp add: run_defs key_of_def)
  have "api_accept_keyed ?r c2 c3"
    unfolding api_accept_keyed_def api_accept_def
    by (auto simp: run_store run_keys k c3_def new_version_def) (auto simp: run_defs intro!: exI [of _ "''2''"])
  with w show ?thesis by (rule cluster_step.controller)
qed

lemma run_reachable: "kube_reachable c1" "kube_reachable c2" "kube_reachable c3"
  using run0 run1 run2 run3 by (blast intro: reachable.step)+

theorem reachable_status_wf_witness:
  "store c3 (key_of sample_comp) = Some comp3 \<and> wf_status (comp_Status comp3) \<and> \<not> inTerminalError comp3"
  using reachable_status_wf [OF kube.api_server_axioms run_reachable(3), of "key_of sample_comp" comp3] run_store(4)
  by simp



end
