(* ===== verification/Pipeline.thy ===== *)
theory Pipeline
  imports Cluster
begin

text \<open>
  The controllers composed in a closed loop: each handler reads the compositions that the API server
  stores at that moment and its requests change what the next handler reads. \<open>responsive_server\<close> extends
  the contract of the API server by what a healthy server accepts; \<open>deployment\<close> collects everything
  else that surrounds the handlers. The lemmas take a new composition through one handler at a time,
  from creation to readiness.
\<close>

section \<open>A server that answers\<close>

fun issued :: "(request \<Rightarrow> cluster \<Rightarrow> cluster \<Rightarrow> bool) \<Rightarrow> request list \<Rightarrow> cluster \<Rightarrow> cluster \<Rightarrow> bool" where
  "issued accepts [] c c' \<longleftrightarrow> c' = c"
| "issued accepts (r # rs) c c'' \<longleftrightarrow> (\<exists>c'. accepts r c c' \<and> issued accepts rs c' c'')"

definition sane :: "cluster \<Rightarrow> bool" where
  "sane c \<longleftrightarrow> versions_unique c \<and> finite (seen c)"

abbreviation stored_as :: "Composition \<Rightarrow> CompositionStatus \<Rightarrow> string \<Rightarrow> Composition" where
  "stored_as co st rv \<equiv> co\<lparr>comp_Status := st, ResourceVersion := rv\<rparr>"

locale responsive_server = api_server +
  assumes accept_status: "sane c \<Longrightarrow> store c (key_of co) = Some old \<Longrightarrow> ResourceVersion co = ResourceVersion old \<Longrightarrow>
      \<exists>c'. accepts (UpdateCompositionStatus co) c c'"
    and accept_patch: "sane c \<Longrightarrow> store c nn = Some old \<Longrightarrow> current old = Some cur \<Longrightarrow> json_patch ops cur = Some cur' \<Longrightarrow>
      \<exists>c'. accepts (PatchCompositionStatus nn ops) c c'"
    and accept_merge: "sane c \<Longrightarrow> store c (key_of co) = Some old \<Longrightarrow> \<exists>c'. accepts (MergePatchCompositionStatus co) c c'"
    and accept_pod: "sane c \<Longrightarrow> \<exists>c'. accepts (CreatePod pod) c c'"
    and accept_slice: "sane c \<Longrightarrow> \<exists>c'. accepts (CreateSlice slice) c c'"

lemma issued_append: "issued accepts (rs @ rs') c c'' \<longleftrightarrow> (\<exists>c'. issued accepts rs c c' \<and> issued accepts rs' c' c'')"
  by (induction rs arbitrary: c) auto

lemma key_stored_as [simp]: "key_of (stored_as co st rv) = key_of co"
  by (simp add: key_of_def)

lemma sane_key: "sane c \<Longrightarrow> store c nn = Some co \<Longrightarrow> key_of co = nn"
  by (simp add: sane_def versions_unique_def)

lemma sane_put:
  "sane c \<Longrightarrow> store c (key_of co) = Some co \<Longrightarrow> new_version (co\<lparr>ResourceVersion := rv\<rparr>) c \<Longrightarrow> sane (put (stored_as co st rv) c)"
  using versions_unique_put [of c "stored_as co st rv"] new_version_cong [of "stored_as co st rv" "co\<lparr>ResourceVersion := rv\<rparr>" c]
  by (auto simp: sane_def put_def key_of_def)

lemma committed:
  assumes "sane c" "store c nn = Some old" "new_version (old\<lparr>ResourceVersion := rv\<rparr>) c" "c' = put (stored_as old st rv) c"
  shows "sane c' \<and> store c' = (store c)(nn \<mapsto> stored_as old st rv)"
  using sane_key [OF assms(1,2)] sane_put [OF assms(1) _ assms(3), of st] assms(2,4) by (auto simp: put_def)

lemma status_version: "set_status f (co\<lparr>ResourceVersion := rv\<rparr>) = stored_as co (f (comp_Status co)) rv"
  by simp

lemma fresh_version:
  assumes "finite (seen c)"
  shows "\<exists>rv. new_version (co\<lparr>ResourceVersion := rv\<rparr>) c"
proof -
  have "infinite (UNIV :: string set)" by (rule infinite_UNIV_listI)
  with assms obtain rv where "rv \<notin> ResourceVersion ` seen c" using ex_new_if_finite finite_imageI by blast
  then show ?thesis by (auto simp: new_version_def intro!: exI [of _ rv])
qed

context responsive_server
begin

lemma commit_status:
  assumes "sane c" "store c (key_of co) = Some old" "ResourceVersion co = ResourceVersion old"
  shows "\<exists>c' rv. accepts (UpdateCompositionStatus co) c c' \<and> sane c' \<and>
    store c' = (store c)(key_of co \<mapsto> stored_as old (comp_Status co) rv)"
proof -
  from accept_status [OF assms] obtain c' where c': "accepts (UpdateCompositionStatus co) c c'" by blast
  from update_status [OF c'] assms(2) obtain rv where rv: "new_version (old\<lparr>ResourceVersion := rv\<rparr>) c"
    "c' = put (stored_as old (comp_Status co) rv) c" by auto
  with committed [OF assms(1,2) rv] c' show ?thesis by blast
qed

lemma commit_patch:
  assumes "sane c" "store c nn = Some old" "current old = Some cur" "json_patch ops cur = Some cur'"
  shows "\<exists>c' rv. accepts (PatchCompositionStatus nn ops) c c' \<and> sane c' \<and>
    store c' = (store c)(nn \<mapsto> stored_as old ((comp_Status old)\<lparr>CurrentSynthesis := Some cur'\<rparr>) rv)"
proof -
  from accept_patch [OF assms] obtain c' where c': "accepts (PatchCompositionStatus nn ops) c c'" by blast
  from patch_status [OF c'] assms(2,3,4) obtain rv where rv: "new_version (old\<lparr>ResourceVersion := rv\<rparr>) c"
    "c' = put (set_status (\<lambda>s. s\<lparr>CurrentSynthesis := Some cur'\<rparr>) (old\<lparr>ResourceVersion := rv\<rparr>)) c" by auto
  with committed [OF assms(1,2) rv [unfolded status_version]] c' show ?thesis by blast
qed

lemma commit_merge:
  assumes "sane c" "store c (key_of co) = Some old"
  shows "\<exists>c' rv. accepts (MergePatchCompositionStatus co) c c' \<and> sane c' \<and>
    store c' = (store c)(key_of co \<mapsto> stored_as old ((comp_Status old)\<lparr>Simplified := Simplified (comp_Status co)\<rparr>) rv)"
proof -
  from accept_merge [OF assms] obtain c' where c': "accepts (MergePatchCompositionStatus co) c c'" by blast
  from merge_status [OF c'] assms(2) obtain rv where rv: "new_version (old\<lparr>ResourceVersion := rv\<rparr>) c"
    "c' = put (set_status (\<lambda>s. s\<lparr>Simplified := Simplified (comp_Status co)\<rparr>) (old\<lparr>ResourceVersion := rv\<rparr>)) c" by auto
  with committed [OF assms(1,2) rv [unfolded status_version]] c' show ?thesis by blast
qed

lemma commit_pod: "sane c \<Longrightarrow> accepts (CreatePod pod) c c"
  using accept_pod [of c pod] unrelated [of "CreatePod pod" c] by blast

lemma commit_slices: "sane c \<Longrightarrow> set rs \<subseteq> range CreateSlice \<Longrightarrow> issued accepts rs c c"
proof (induction rs)
  case (Cons r rs)
  then obtain s where "r = CreateSlice s" by auto
  with Cons accept_slice [of c s] unrelated [of "CreateSlice s" c] show ?case by auto
qed simp

end

interpretation kube_healthy: responsive_server api_accept_keyed
proof
  fix c :: cluster and co old :: Composition
  assume c: "sane c" "store c (key_of co) = Some old" "ResourceVersion co = ResourceVersion old"
  then show "\<exists>c'. api_accept_keyed (UpdateCompositionStatus co) c c'"
    using fresh_version [of c old] by (auto simp: api_accept_keyed_def api_accept_def sane_def versions_unique_def)
next
  fix c :: cluster and nn old cur ops cur'
  assume "sane c" "store c nn = Some old" "current old = Some cur" "json_patch ops cur = Some cur'"
  then show "\<exists>c'. api_accept_keyed (PatchCompositionStatus nn ops) c c'"
    using fresh_version [of c old] by (auto simp: api_accept_keyed_def api_accept_def sane_def versions_unique_def)
next
  fix c :: cluster and co old :: Composition
  assume "sane c" "store c (key_of co) = Some old"
  then show "\<exists>c'. api_accept_keyed (MergePatchCompositionStatus co) c c'"
    using fresh_version [of c old] by (auto simp: api_accept_keyed_def api_accept_def sane_def versions_unique_def)
qed (auto simp: api_accept_keyed_def api_accept_def sane_def versions_unique_def)

section \<open>A deployment\<close>

text \<open>
  Everything that the handlers meet besides the stored compositions: configuration, clock and
  random choices, the pods that the informer and the API server list, the environment that the
  kubelet gives to a pod, the executor's surroundings and the resource slices in the cluster.
\<close>

record deployment =
  d_cfg :: Config
  d_env :: env
  d_limit :: int
  d_intn :: "nat \<Rightarrow> nat"
  d_list :: "cluster \<Rightarrow> Composition list"
  d_pods :: lc_client
  d_getenv :: "Pod \<Rightarrow> string \<Rightarrow> string"
  d_exec :: executor
  d_slices :: slice_reader

definition get_comp :: "cluster \<Rightarrow> NamespacedName \<Rightarrow> api_err + Composition" where
  "get_comp c nn = (case store c nn of None \<Rightarrow> Inl NotFound | Some co \<Rightarrow> Inr co)"

definition run_lifecycle :: "deployment \<Rightarrow> cluster \<Rightarrow> NamespacedName \<Rightarrow> request list" where
  "run_lifecycle d c nn = fst (lc_Reconcile (d_cfg d) (d_env d) ((d_pods d)\<lparr>lc_get_comp := get_comp c\<rparr>) nn)"

definition run_limiter :: "deployment \<Rightarrow> cluster \<Rightarrow> request list" where
  "run_limiter d c = fst (cl_Reconcile (d_intn d) (d_env d) (d_limit d) 0
     \<lparr>cl_list_comps = Inr (d_list d c), cl_write = lc_write (d_pods d)\<rparr>)"

definition run_pod :: "deployment \<Rightarrow> Pod \<Rightarrow> cluster \<Rightarrow> request list" where
  "run_pod d pod c = fst (Synthesize ((d_exec d)\<lparr>ex_get_comp := (\<lambda>_. get_comp c)\<rparr>) (LoadEnv (d_getenv d pod)))"

definition run_aggregation :: "deployment \<Rightarrow> cluster \<Rightarrow> NamespacedName \<Rightarrow> request list" where
  "run_aggregation d c nn = fst (sa_Reconcile (now (d_env d))
     \<lparr>sa_get_comp = get_comp c, sa_get_slice = d_slices d, sa_write = lc_write (d_pods d)\<rparr> nn)"

definition run_summary :: "deployment \<Rightarrow> cluster \<Rightarrow> NamespacedName \<Rightarrow> request list" where
  "run_summary d c nn = fst (ca_Reconcile
     \<lparr>ca_get_comp = get_comp c, ca_get_synth = lc_get_synth (d_pods d), ca_write = lc_write (d_pods d)\<rparr> nn)"

text \<open>Nothing fails for the composition \<open>co\<close>, whose synthesizer is \<open>syn\<close>, and its synthesizer answers \<open>out\<close>.\<close>

definition pods_healthy :: "deployment \<Rightarrow> Composition \<Rightarrow> Synthesizer \<Rightarrow> bool" where
  "pods_healthy d co syn \<longleftrightarrow>
     newUUID (d_env d) \<noteq> [] \<and>
     lc_list_pods (d_pods d) (PodNamespace (d_cfg d)) (PodByCompIdxValueFromComp co) = Inr [] \<and>
     lc_get_synth (d_pods d) (SynthesizerName (comp_Spec co)) = Inr syn \<and> DeletionTimestamp syn = None \<and>
     lc_live_pods (d_pods d) (newUUID (d_env d)) = Inr [] \<and>
     (\<forall>pod. \<exists>pod'. lc_create_pod (d_pods d) pod = Inr pod') \<and>
     (\<forall>pod. kubelet_env (Env (hd (Containers (pod_Spec pod)))) (d_getenv d pod))"

definition limiter_healthy :: "deployment \<Rightarrow> NamespacedName set \<Rightarrow> bool" where
  "limiter_healthy d names \<longleftrightarrow>
     (\<forall>c. sane c \<longrightarrow> dom (store c) = names \<longrightarrow> fresh_list c (d_list d c)) \<and> (\<forall>n > 0. d_intn d n < n)"

definition executor_healthy :: "executor \<Rightarrow> Composition \<Rightarrow> Synthesizer \<Rightarrow> ResourceList \<Rightarrow> bool" where
  "executor_healthy e co syn out \<longleftrightarrow>
     (\<exists>k. client_retry (ex_retry_slice e) k) \<and> (\<exists>k. client_retry (ex_retry_status e) k) \<and>
     ex_get_synth e (SynthesizerName (comp_Spec co)) = Inr syn \<and>
     (\<exists>input revs. buildPodInput e co syn = Inr (input, revs) \<and> ex_Handler e syn input = Inr out) \<and>
     (\<exists>m ms. output_manifests (ex_codec e) (rl_Items out) = Inr (m # ms)) \<and>
     (\<forall>n s. \<exists>s'. ex_create e n s = Inr s') \<and> (\<forall>co. ex_update e 0 co = None)"

definition slice_ready :: "ResourceSlice \<Rightarrow> bool" where
  "slice_ready s \<longleftrightarrow> slice_states s \<noteq> [] \<and> list_all (\<lambda>st. rs_Reconciled st \<and> rs_Ready st \<noteq> None) (slice_states s)"

definition slices_reconciled :: "deployment \<Rightarrow> Composition \<Rightarrow> bool" where
  "slices_reconciled d co \<longleftrightarrow>
     (\<forall>n s s'. ex_create (d_exec d) n s = Inr s' \<longrightarrow>
        (\<exists>s''. d_slices d \<lparr>nn_Namespace = Namespace co, nn_Name = Name s'\<rparr> = Inr s'' \<and> slice_ready s''))"

definition just_created :: "Composition \<Rightarrow> Synthesizer \<Rightarrow> bool" where
  "just_created co syn \<longleftrightarrow>
     DeletionTimestamp co = None \<and> cleanup_finalizer \<in> set (Finalizers co) \<and>
     current co = None \<and> previous co = None \<and> PendingResynthesis (comp_Status co) = None \<and>
     InputsExist co syn \<and> \<not> InputsOutOfLockstep co syn"

definition synthesis_complete :: "deployment \<Rightarrow> Composition \<Rightarrow> Synthesizer \<Rightarrow> ResourceList \<Rightarrow> Synthesis \<Rightarrow> bool" where
  "synthesis_complete d co syn out cur \<longleftrightarrow>
     UUID cur = newUUID (d_env d) \<and> Attempts cur = 1 \<and> Synthesized cur = Some (ex_now (d_exec d)) \<and>
     ObservedCompositionGeneration cur = Generation co \<and> ObservedSynthesizerGeneration cur = Generation syn \<and>
     Results cur = rl_Results out \<and> map ir_Key (syn_InputRevisions cur) = map ref_Key (Refs (synth_Spec syn)) \<and>
     ResourceSlices cur \<noteq> [] \<and>
     (\<forall>ref \<in> set (ResourceSlices cur). \<exists>n s s'. ex_create (d_exec d) n s = Inr s' \<and> ref = Name s')"

section \<open>One handler at a time\<close>

lemma distinct_singleton: "distinct xs \<Longrightarrow> set xs = {a} \<Longrightarrow> xs = [a]"
  by (cases xs) (auto simp: subset_singleton_iff)

lemma inputs_of_status:
  "InputRevs st = InputRevs (comp_Status co) \<Longrightarrow> InputsExist (stored_as co st rv) syn = InputsExist co syn"
  "InputRevs st = InputRevs (comp_Status co) \<Longrightarrow> InputsOutOfLockstep (stored_as co st rv) syn = InputsOutOfLockstep co syn"
  by (simp_all add: InputsExist_def InputsOutOfLockstep_def cong: option.case_cong)

lemma build_inputs_ex_get_comp: "build_inputs (e\<lparr>ex_get_comp := g\<rparr>) bs rs = build_inputs e bs rs"
  by (induction rs) (auto split: option.splits sum.splits)

lemma buildPodInput_ex_get_comp:
  "buildPodInput (e\<lparr>ex_get_comp := g\<rparr>) (stored_as co st rv) syn = buildPodInput e co syn"
  by (simp add: buildPodInput_def bindingsByKey_def build_inputs_ex_get_comp)

lemma writeSlices_ex_get_comp: "writeSlices (e\<lparr>ex_get_comp := g\<rparr>) co out = writeSlices e co out"
proof -
  have "write_all (e\<lparr>ex_get_comp := g\<rparr>) slices = write_all e slices" for slices
    by (induction slices) (auto simp: writeResourceSlice_def)
  moreover have "fetch_slices (e\<lparr>ex_get_comp := g\<rparr>) ns refs = fetch_slices e ns refs" for ns refs
    by (induction refs) (auto split: sum.splits api_err.splits)
  ultimately show ?thesis
    by (simp add: writeSlices_def fetchPreviousSlices_def cong: option.case_cong sum.case_cong)
qed

lemma write_all_succeeds:
  assumes "client_retry (ex_retry_slice e) k" "\<forall>n s. \<exists>s'. ex_create e n s = Inr s'"
  shows "\<exists>rs refs. write_all e slices = (rs, Inr refs) \<and> length refs = length slices"
proof (induction slices)
  case (Cons s slices)
  obtain s' where s': "ex_create e 0 s = Inr s'" using assms(2) by blast
  have "ex_retry_slice e r (\<lambda>n. left_of (ex_create e n s)) = 0" for r
    using client_retry.retried [OF assms(1), of 0 r "\<lambda>n. left_of (ex_create e n s)"] s' by fastforce
  with Cons.IH s' show ?case by (auto simp: writeResourceSlice_def Let_def)
qed simp

lemma partition_manifests_Nil: "partition_manifests mx b gs ms = [] \<longleftrightarrow> gs = [] \<and> ms = []"
  by (induction mx b gs ms rule: partition_manifests.induct) auto

lemma writeSlices_succeeds:
  assumes "client_retry (ex_retry_slice e) k" "\<forall>n s. \<exists>s'. ex_create e n s = Inr s'" "previous co = None"
    and "output_manifests (ex_codec e) (rl_Items out) = Inr (m # ms)"
  shows "\<exists>rs refs. writeSlices e co out = (rs, Inr refs) \<and> set rs \<subseteq> range CreateSlice \<and> refs \<noteq> [] \<and>
    (\<forall>ref \<in> set refs. \<exists>n s s'. ex_create e n s = Inr s' \<and> ref = Name s')"
proof -
  let ?slices = "map (new_slice co) (partition_manifests maxSliceJsonBytes 0 [] (m # ms))"
  obtain rs refs where w: "write_all e ?slices = (rs, Inr refs)" "length refs = length ?slices"
    using write_all_succeeds [OF assms(1,2)] by blast
  have "writeSlices e co out = (rs, Inr refs)"
    using assms(3,4) w(1) by (simp add: writeSlices_def fetchPreviousSlices_def Slice_def del: partition_manifests.simps)
  moreover have "set rs \<subseteq> range CreateSlice"
    using write_all_requests [of e ?slices] w(1) by auto
  moreover have "refs \<noteq> []"
    using w(2) partition_manifests_Nil [of maxSliceJsonBytes 0 "[]" "m # ms"] by (auto simp del: partition_manifests.simps)
  moreover have "\<exists>n s s'. ex_create e n s = Inr s' \<and> ref = Name s'" if "ref \<in> set refs" for ref
    using write_all_names [OF w(1)] that by (fastforce simp: in_set_conv_nth)
  ultimately show ?thesis by blast
qed

lemma updateComposition_first:
  assumes "client_retry (ex_retry_status e) k" "ex_get_comp e 1 (key_of old) = Inr co" "skipSynthesis co env = None"
    and "ex_update e 0 (f co) = None"
  shows "updateComposition e env old f = ([UpdateCompositionStatus (f co)], None)"
  using updateComposition_retries [OF assms(1), of 0 old "\<lambda>_. co" env f] client_retry.bounded [OF assms(1)] assms(2-4)
  by (simp add: gr_zeroI) (metis not_less_zero gr_zeroI)

lemma agg_slices_ready:
  assumes "\<forall>ref \<in> set refs. \<exists>s. get \<lparr>nn_Namespace = Namespace co, nn_Name = ref\<rparr> = Inr s \<and> slice_ready s"
    and "DeletionTimestamp co = None" "refs \<noteq> []"
  shows "\<exists>a. agg_slices get co refs agg_zero = Inr a \<and> a_reconciled a \<and> a_ready a \<and> maxReadyTime a \<noteq> None"
proof -
  have "\<exists>a'. agg_slices get co refs a = Inr a'" for a
    using assms(1) by (induction refs arbitrary: a) (auto simp: slice_ready_def)
  then obtain a where a: "agg_slices get co refs agg_zero = Inr a" by blast
  have found: "s \<in> set (found_slices get co refs) \<Longrightarrow> slice_ready s" for s
    using assms(1) by (auto simp: found_slices_def)
  obtain ref s where s: "ref \<in> set refs" "get \<lparr>nn_Namespace = Namespace co, nn_Name = ref\<rparr> = Inr s" "slice_ready s"
    using assms(1,3) by (cases refs) auto
  then have "s \<in> set (found_slices get co refs)" by (force simp: found_slices_def)
  with s(3) have "ready_times get co refs \<noteq> []" by (force simp: ready_times_def slice_ready_def)
  moreover have "agg_reconciled get co refs" "agg_readied get co refs"
    using found assms(2)
    by (fastforce simp: agg_reconciled_def agg_readied_def list_all_iff lagging_def slice_ready_def resourceNotReconciled_def)+
  ultimately show ?thesis
    using a agg_slices_flags [OF a] agg_slices_max [OF a] by simp
qed

context responsive_server
begin

lemma lifecycle_swaps:
  assumes "sane c" "store c nn = Some co" "just_created co syn" "pods_healthy d co syn"
  shows "\<exists>c' rv. issued accepts (run_lifecycle d c nn) c c' \<and> sane c' \<and>
    store c' = (store c)(nn \<mapsto> stored_as co ((comp_Status co)\<lparr>CurrentSynthesis := Some (zero_Synthesis\<lparr>
      ObservedCompositionGeneration := Generation co, Initialized := Some (now (d_env d))\<rparr>)\<rparr>) rv)"
proof -
  let ?co = "SwapStates (now (d_env d)) co"
  have run: "run_lifecycle d c nn = [UpdateCompositionStatus ?co]"
    using assms by (simp add: run_lifecycle_def lc_Reconcile_def get_comp_def just_created_def pods_healthy_def AddFinalizer_def
        find_synth_def lc_with_pods_def shouldDeletePod_def synthesize_def shouldSwapStates_def inputs_ready_def)
  have k: "key_of ?co = nn" "ResourceVersion ?co = ResourceVersion co"
    using sane_key [OF assms(1,2)] by (simp_all add: SwapStates_def key_of_def)
  have "comp_Status ?co = (comp_Status co)\<lparr>CurrentSynthesis := Some (zero_Synthesis\<lparr>
      ObservedCompositionGeneration := Generation co, Initialized := Some (now (d_env d))\<rparr>)\<rparr>"
    using assms(3) by (simp add: SwapStates_def just_created_def)
  with commit_status [of c ?co co] assms(1,2) k run show ?thesis by simp
qed

lemma limiter_dispatches:
  assumes "sane c" "store c nn = Some co" "current co = Some cur" "Synthesized cur = None" "UUID cur = []"
    and "limiter_healthy d (dom (store c))" "int (card (active_keys c)) < d_limit d"
    and "\<forall>m o'. store c m = Some o' \<and> is_pending o' \<longrightarrow> m = nn"
  shows "\<exists>c' rv. issued accepts (run_limiter d c) c c' \<and> sane c' \<and>
    store c' = (store c)(nn \<mapsto> stored_as co ((comp_Status co)\<lparr>CurrentSynthesis := Some (cur\<lparr>UUID := newUUID (d_env d)\<rparr>)\<rparr>) rv)"
proof -
  have fresh: "fresh_list c (d_list d c)" and intn: "d_intn d 1 = 0"
    using assms(1,6) by (auto simp: limiter_healthy_def)
  have "set (filter is_pending (d_list d c)) = {o' \<in> ran (store c). is_pending o'}"
    using fresh by (simp add: fresh_list_def)
  also have "\<dots> = {co}"
    using assms(2-5) assms(8) by (auto simp: ran_def is_pending_def)
  finally have one: "filter is_pending (d_list d c) = [co]"
    using fresh by (intro distinct_singleton) (simp_all add: fresh_list_def distinct_map)
  have "int (length (filter is_active (d_list d c))) < d_limit d"
    using fresh_count [OF _ fresh] assms(1,7) by (simp add: sane_def)
  then have "run_limiter d c = [PatchCompositionStatus nn (dispatch_patch (newUUID (d_env d)))]"
    using sane_key [OF assms(1,2)] intn by (simp add: run_limiter_def cl_Reconcile_def limiter_scan_spec one)
  with commit_patch [OF assms(1,2,3), of "dispatch_patch (newUUID (d_env d))"] assms(5) show ?thesis
    by (simp add: json_patch_dispatch)
qed

lemma lifecycle_creates_pod:
  assumes "sane c" "store c nn = Some (stored_as co st rv)" "CurrentSynthesis st = Some cur"
    and "just_created co syn" "pods_healthy d co syn"
    and "UUID cur = newUUID (d_env d)" "Synthesized cur = None" "Attempts cur = 0"
    and "ObservedCompositionGeneration cur = Generation co"
  shows "\<exists>c' rv' pod t. issued accepts (run_lifecycle d c nn) c c' \<and> sane c' \<and> CreatePod pod \<in> set (run_lifecycle d c nn) \<and>
    store c' = (store c)(nn \<mapsto> stored_as co (st\<lparr>CurrentSynthesis := Some (cur\<lparr>Attempts := 1, PodCreation := Some t\<rparr>)\<rparr>) rv') \<and>
    LoadEnv (d_getenv d pod) = \<lparr>CompositionName = Name co, CompositionNamespace = Namespace co,
      ee_SynthesisUUID = newUUID (d_env d), SynthesisAttempt = 1\<rparr>"
proof -
  let ?p = "stored_as co st rv"
  obtain eq a b where eq: "inputRevisionsEqual (sort_revs (d_env d)) syn (InputRevs st) (syn_InputRevisions cur) = (eq, a, b)"
    by (rule prod_cases3)
  obtain co' cur' where sw: "shouldSwapStates (sort_revs (d_env d)) syn ?p = (False, co')" "current co' = Some cur'"
    "UUID cur' = newUUID (d_env d)" "Synthesized cur' = None" "Attempts cur' = 0" "Name co' = Name co" "Namespace co' = Namespace co"
    "DeletionTimestamp co' = None"
    using assms(3,4,6-9) eq by (simp add: shouldSwapStates_def just_created_def)
  obtain pod where pod: "newPod (d_cfg d) co' syn = Inr pod"
    using sw(2) by (simp add: newPod_def Let_def)
  obtain pod' where pod': "lc_create_pod (d_pods d) pod = Inr pod'"
    using assms(5) by (auto simp: pods_healthy_def)
  have nn: "key_of co' = nn" using sane_key [OF assms(1,2)] sw(6,7) by (simp add: key_of_def)
  have run: "run_lifecycle d c nn = [CreatePod pod, PatchCompositionStatus nn (pod_created_patch cur' pod')]"
    using assms(2,4,5) sw pod pod' nn
    by (simp add: run_lifecycle_def lc_Reconcile_def get_comp_def just_created_def pods_healthy_def AddFinalizer_def
        find_synth_def lc_with_pods_def shouldDeletePod_def synthesize_def createPod_def shouldBackOffPodCreation_def
        PodByCompIdxValueFromComp_def Let_def)
  have "json_patch (pod_created_patch cur' pod') cur = Some (cur\<lparr>Attempts := 1, PodCreation := Some (CreationTimestamp pod')\<rparr>)"
    using assms(5-8) sw(3,5) by (simp add: json_patch_pod_created pods_healthy_def)
  from commit_patch [OF assms(1,2) _ this] assms(3) obtain c' rv' where c': "sane c'"
    "accepts (PatchCompositionStatus nn (pod_created_patch cur' pod')) c c'"
    "store c' = (store c)(nn \<mapsto> stored_as co (st\<lparr>CurrentSynthesis := Some (cur\<lparr>Attempts := 1, PodCreation := Some (CreationTimestamp pod')\<rparr>)\<rparr>) rv')"
    by auto
  have "LoadEnv (d_getenv d pod) = \<lparr>CompositionName = Name co, CompositionNamespace = Namespace co,
      ee_SynthesisUUID = newUUID (d_env d), SynthesisAttempt = 1\<rparr>"
    using LoadEnv_newPod [OF pod sw(2), of "d_getenv d pod"] assms(5) sw(3,5,6,7)
    by (simp add: pods_healthy_def int64_cutoff_def)
  with c' run commit_pod [OF assms(1), of pod] show ?thesis by auto
qed

lemma pod_completes:
  assumes "sane c" "store c nn = Some (stored_as co st rv)" "CurrentSynthesis st = Some cur" "PreviousSynthesis st = None"
    and "executor_healthy (d_exec d) co syn out" "Synthesized cur = None" "Attempts cur = 1"
    and "LoadEnv getenv = \<lparr>CompositionName = Name co, CompositionNamespace = Namespace co,
      ee_SynthesisUUID = UUID cur, SynthesisAttempt = 1\<rparr>" "d_getenv d pod = getenv"
  shows "\<exists>c' rv' refs revs. issued accepts (run_pod d pod c) c c' \<and> sane c' \<and> refs \<noteq> [] \<and>
    (\<forall>ref \<in> set refs. \<exists>n s s'. ex_create (d_exec d) n s = Inr s' \<and> ref = Name s') \<and>
    map ir_Key revs = map ref_Key (Refs (synth_Spec syn)) \<and>
    store c' = (store c)(nn \<mapsto> stored_as co (st\<lparr>CurrentSynthesis := Some (cur\<lparr>Synthesized := Some (ex_now (d_exec d)),
      ResourceSlices := refs, ObservedSynthesizerGeneration := Generation syn, syn_InputRevisions := revs,
      Results := Results cur @ rl_Results out\<rparr>)\<rparr>) rv')"
proof -
  let ?p = "stored_as co st rv" and ?e = "(d_exec d)\<lparr>ex_get_comp := (\<lambda>_. get_comp c)\<rparr>"
  let ?ev = "LoadEnv (d_getenv d pod)"
  have key: "key_of co = nn" using sane_key [OF assms(1,2)] by simp
  have skip: "skipSynthesis ?p ?ev = None"
    using assms(3,6-9) by (simp add: skipSynthesis_None)
  obtain input revs where input: "buildPodInput ?e ?p syn = Inr (input, revs)" "ex_Handler ?e syn input = Inr out"
    using assms(5) by (auto simp: executor_healthy_def buildPodInput_ex_get_comp)
  obtain k m ms where e: "client_retry (ex_retry_slice (d_exec d)) k" "\<forall>n s. \<exists>s'. ex_create (d_exec d) n s = Inr s'"
    "output_manifests (ex_codec (d_exec d)) (rl_Items out) = Inr (m # ms)"
    using assms(5) unfolding executor_healthy_def by blast
  from writeSlices_succeeds [OF e(1,2) _ e(3), of ?p] assms(4) obtain rs refs where
    ws: "writeSlices ?e ?p out = (rs, Inr refs)" "set rs \<subseteq> range CreateSlice" "refs \<noteq> []"
      "\<forall>ref \<in> set refs. \<exists>n s s'. ex_create (d_exec d) n s = Inr s' \<and> ref = Name s'"
    by (auto simp: writeSlices_ex_get_comp)
  let ?f = "complete_synthesis (ex_now (d_exec d)) syn refs revs (rl_Results out)"
  have "updateComposition ?e ?ev ?p ?f = ([UpdateCompositionStatus (?f ?p)], None)"
    using updateComposition_first [of ?e _ ?p ?p ?ev ?f] assms(2,5) skip key
    by (auto simp: executor_healthy_def get_comp_def)
  then have run: "run_pod d pod c = rs @ [UpdateCompositionStatus (?f ?p)]"
    using assms(2,5,8,9) skip input ws(1) key
    by (simp add: run_pod_def Synthesize_def executor_healthy_def get_comp_def key_of_def)
  have f: "key_of (?f ?p) = nn" "ResourceVersion (?f ?p) = ResourceVersion ?p"
    "comp_Status (?f ?p) = st\<lparr>CurrentSynthesis := Some (cur\<lparr>Synthesized := Some (ex_now (d_exec d)),
      ResourceSlices := refs, ObservedSynthesizerGeneration := Generation syn, syn_InputRevisions := revs,
      Results := Results cur @ rl_Results out\<rparr>)\<rparr>"
    using key assms(3) by (simp_all add: complete_synthesis_def key_of_def)
  have "map ir_Key revs = map ref_Key (Refs (synth_Spec syn))"
    using input(1) build_inputs_keys by (simp add: buildPodInput_def)
  with commit_status [of c "?f ?p" ?p] commit_slices [OF assms(1) ws(2)] assms(1,2) f run ws(3,4) show ?thesis
    by (fastforce simp: issued_append)
qed

lemma aggregation_sets:
  assumes "sane c" "store c nn = Some (stored_as co st rv)" "CurrentSynthesis st = Some cur"
    and "slices_reconciled d co" "DeletionTimestamp co = None"
    and "Synthesized cur \<noteq> None" "Reconciled cur = None" "Ready cur = None" "ResourceSlices cur \<noteq> []"
    and "\<forall>ref \<in> set (ResourceSlices cur). \<exists>n s s'. ex_create (d_exec d) n s = Inr s' \<and> ref = Name s'"
  shows "\<exists>c' rv' t. issued accepts (run_aggregation d c nn) c c' \<and> sane c' \<and>
    store c' = (store c)(nn \<mapsto> stored_as co (st\<lparr>CurrentSynthesis := Some (cur\<lparr>Reconciled := Some (now (d_env d)), Ready := Some t\<rparr>)\<rparr>) rv')"
proof -
  let ?p = "stored_as co st rv"
  from agg_slices_ready [of "ResourceSlices cur" "d_slices d" ?p] assms(4,5,10) obtain a where
    a: "agg_slices (d_slices d) ?p (ResourceSlices cur) agg_zero = Inr a" "a_reconciled a" "a_ready a"
      "maxReadyTime a \<noteq> None"
    using assms(9) by (fastforce simp: slices_reconciled_def)
  then obtain t where t: "maxReadyTime a = Some t" by blast
  let ?co = "map_current (agg_update (now (d_env d)) a) ?p"
  have run: "run_aggregation d c nn = [UpdateCompositionStatus ?co]"
    using assms(2,3,6,7) a by (simp add: run_aggregation_def sa_Reconcile_def get_comp_def compositionStatusTerminal_def
        compositionStatusInSync_def)
  have "key_of ?co = nn" "ResourceVersion ?co = ResourceVersion ?p"
    "comp_Status ?co = st\<lparr>CurrentSynthesis := Some (cur\<lparr>Reconciled := Some (now (d_env d)), Ready := Some t\<rparr>)\<rparr>"
    using sane_key [OF assms(1,2)] assms(3,9) a(2,3) t by (simp_all add: key_of_def agg_update_def)
  with commit_status [of c ?co ?p] assms(1,2) run show ?thesis by auto
qed

lemma summary_sets:
  assumes "sane c" "store c nn = Some (stored_as co st rv)" "CurrentSynthesis st = Some cur"
    and "just_created co syn" "pods_healthy d co syn" "UUID cur \<noteq> []" "Ready cur \<noteq> None"
    and "InputRevs st = InputRevs (comp_Status co)" "PendingResynthesis st = None" 
  shows "\<exists>c' rv'. issued accepts (run_summary d c nn) c c' \<and> sane c' \<and>
    store c' = (store c)(nn \<mapsto> stored_as co (st\<lparr>Simplified := Some \<lparr>ss_Status = ''Ready'', ss_Error = aggregate_error cur\<rparr>\<rparr>) rv')"
proof -
  let ?p = "stored_as co st rv" and ?s = "\<lparr>ss_Status = ''Ready'', ss_Error = aggregate_error cur\<rparr>"
  have agg: "aggregate syn ?p = ?s"
    using assms(3,4,6-9) by (simp add: aggregate_def just_created_def inputs_of_status Let_def)
  have key: "key_of co = nn" using sane_key [OF assms(1,2)] by simp
  show ?thesis
  proof (cases "Simplified st = Some ?s")
    case True
    then have "run_summary d c nn = []" "st\<lparr>Simplified := Some ?s\<rparr> = st"
      using assms(2,5) agg by (simp_all add: run_summary_def ca_Reconcile_def get_comp_def pods_healthy_def)
    with assms(1,2) show ?thesis by (intro exI [of _ c] exI [of _ rv]) auto
  next
    case False
    let ?co = "set_status (\<lambda>s. s\<lparr>Simplified := Some ?s\<rparr>) ?p"
    have "run_summary d c nn = [MergePatchCompositionStatus ?co]"
      using False assms(2,5) agg by (simp add: run_summary_def ca_Reconcile_def get_comp_def pods_healthy_def)
    moreover have "key_of ?co = nn" using key by (simp add: key_of_def)
    ultimately show ?thesis
      using commit_merge [of c ?co ?p] assms(1,2) by auto
  qed
qed

lemma new_composition_dispatched:
  assumes "sane c" "finite (dom (store c))" "store c nn = Some co" "just_created co syn"
    and "pods_healthy d co syn" "limiter_healthy d (dom (store c))" "int (card (active_keys c)) < d_limit d"
    and "\<forall>o' \<in> ran (store c). \<not> is_pending o'"
  shows "\<exists>c1 c2 rv. issued accepts (run_lifecycle d c nn) c c1 \<and> issued accepts (run_limiter d c1) c1 c2 \<and> sane c2 \<and>
    store c2 = (store c)(nn \<mapsto> stored_as co ((comp_Status co)\<lparr>CurrentSynthesis := Some (zero_Synthesis\<lparr>
      ObservedCompositionGeneration := Generation co, Initialized := Some (now (d_env d)), UUID := newUUID (d_env d)\<rparr>)\<rparr>) rv)"
proof -
  let ?cur = "zero_Synthesis\<lparr>ObservedCompositionGeneration := Generation co, Initialized := Some (now (d_env d))\<rparr>"
  let ?st = "(comp_Status co)\<lparr>CurrentSynthesis := Some ?cur\<rparr>"
  obtain c1 rv where c1: "issued accepts (run_lifecycle d c nn) c c1" "sane c1" "store c1 = (store c)(nn \<mapsto> stored_as co ?st rv)"
    using lifecycle_swaps [OF assms(1,3,4,5)] by blast
  have "active_keys c1 \<subseteq> active_keys c" "active_keys c \<subseteq> dom (store c)"
    by (auto simp: active_keys_def c1(3) is_active_def zero_Synthesis_def split: if_splits)
  then have "card (active_keys c1) \<le> card (active_keys c)"
    using assms(2) by (meson card_mono finite_subset)
  with assms(7) have active: "int (card (active_keys c1)) < d_limit d" by simp
  have cur: "store c1 nn = Some (stored_as co ?st rv)" "current (stored_as co ?st rv) = Some ?cur"
    "Synthesized ?cur = None" "UUID ?cur = []" "dom (store c1) = dom (store c)"
    using assms(3) by (simp_all add: c1(3) zero_Synthesis_def insert_absorb domI)
  have "\<forall>m o'. store c1 m = Some o' \<and> is_pending o' \<longrightarrow> m = nn"
    using assms(8) by (auto simp: c1(3) ran_def split: if_splits)
  from limiter_dispatches [OF c1(2) cur(1-4) _ active this] assms(6) cur(5) c1(1,3) show ?thesis by auto
qed

lemma dispatched_completed:
  assumes "sane c" "store c nn = Some (stored_as co ((comp_Status co)\<lparr>CurrentSynthesis := Some (zero_Synthesis\<lparr>
      ObservedCompositionGeneration := Generation co, Initialized := Some t, UUID := newUUID (d_env d)\<rparr>)\<rparr>) rv)"
    and "just_created co syn" "pods_healthy d co syn" "executor_healthy (d_exec d) co syn out"
  shows "\<exists>c' c'' pod cur rv. issued accepts (run_lifecycle d c nn) c c' \<and> CreatePod pod \<in> set (run_lifecycle d c nn) \<and>
    issued accepts (run_pod d pod c') c' c'' \<and> sane c'' \<and> synthesis_complete d co syn out cur \<and>
    Reconciled cur = None \<and> Ready cur = None \<and>
    store c'' = (store c)(nn \<mapsto> stored_as co ((comp_Status co)\<lparr>CurrentSynthesis := Some cur\<rparr>) rv)"
proof -
  let ?u = "newUUID (d_env d)" and ?st = "comp_Status co"
  let ?cur = "zero_Synthesis\<lparr>ObservedCompositionGeneration := Generation co, Initialized := Some t, UUID := ?u\<rparr>"
  obtain c3 rv3 pod t3 where c3: "issued accepts (run_lifecycle d c nn) c c3" "sane c3" "CreatePod pod \<in> set (run_lifecycle d c nn)"
    "store c3 = (store c)(nn \<mapsto> stored_as co (?st\<lparr>CurrentSynthesis := Some (?cur\<lparr>Attempts := 1, PodCreation := Some t3\<rparr>)\<rparr>) rv3)"
    "LoadEnv (d_getenv d pod) = \<lparr>CompositionName = Name co, CompositionNamespace = Namespace co,
      ee_SynthesisUUID = ?u, SynthesisAttempt = 1\<rparr>"
    using lifecycle_creates_pod [OF assms(1,2) _ assms(3,4)] by (auto simp: zero_Synthesis_def)
  let ?cur3 = "?cur\<lparr>Attempts := 1, PodCreation := Some t3\<rparr>"
  have s3: "store c3 nn = Some (stored_as co (?st\<lparr>CurrentSynthesis := Some ?cur3\<rparr>) rv3)" by (simp add: c3(4))
  have prev: "PreviousSynthesis (?st\<lparr>CurrentSynthesis := Some ?cur3\<rparr>) = None" using assms(3) by (simp add: just_created_def)
  obtain c4 rv4 refs revs where c4: "issued accepts (run_pod d pod c3) c3 c4" "sane c4" "refs \<noteq> []"
    "\<forall>ref \<in> set refs. \<exists>n s s'. ex_create (d_exec d) n s = Inr s' \<and> ref = Name s'"
    "map ir_Key revs = map ref_Key (Refs (synth_Spec syn))"
    "store c4 = (store c3)(nn \<mapsto> stored_as co ((?st\<lparr>CurrentSynthesis := Some ?cur3\<rparr>)\<lparr>CurrentSynthesis := Some (?cur3\<lparr>
      Synthesized := Some (ex_now (d_exec d)), ResourceSlices := refs, ObservedSynthesizerGeneration := Generation syn,
      syn_InputRevisions := revs, Results := Results ?cur3 @ rl_Results out\<rparr>)\<rparr>) rv4)"
    using pod_completes [OF c3(2) s3 _ prev assms(5), of ?cur3 "d_getenv d pod" pod] c3(5) by (auto simp: zero_Synthesis_def)
  let ?cur4 = "?cur3\<lparr>Synthesized := Some (ex_now (d_exec d)), ResourceSlices := refs,
    ObservedSynthesizerGeneration := Generation syn, syn_InputRevisions := revs, Results := Results ?cur3 @ rl_Results out\<rparr>"
  have "synthesis_complete d co syn out ?cur4" "Reconciled ?cur4 = None" "Ready ?cur4 = None"
    using c4(3-5) by (simp_all add: synthesis_complete_def zero_Synthesis_def)
  moreover have "store c4 = (store c)(nn \<mapsto> stored_as co (?st\<lparr>CurrentSynthesis := Some ?cur4\<rparr>) rv4)"
    by (simp add: c4(6) c3(4))
  ultimately show ?thesis using c3(1,3) c4(1,2) by blast
qed

lemma completed_ready:
  assumes "sane c" "store c nn = Some (stored_as co ((comp_Status co)\<lparr>CurrentSynthesis := Some cur\<rparr>) rv)"
    and "just_created co syn" "pods_healthy d co syn" "slices_reconciled d co"
    and "synthesis_complete d co syn out cur" "Reconciled cur = None" "Ready cur = None"
  shows "\<exists>c' c'' co' cur'. issued accepts (run_aggregation d c nn) c c' \<and> issued accepts (run_summary d c' nn) c' c'' \<and>
    store c'' = (store c)(nn \<mapsto> co') \<and> current co' = Some cur' \<and> synthesis_complete d co syn out cur' \<and>
    Reconciled cur' = Some (now (d_env d)) \<and> Ready cur' \<noteq> None \<and>
    map_option ss_Status (Simplified (comp_Status co')) = Some ''Ready''"
proof -
  let ?st = "comp_Status co"
  have del: "DeletionTimestamp co = None" and u: "UUID cur \<noteq> []"
    using assms(3,4,6) by (simp_all add: just_created_def pods_healthy_def synthesis_complete_def)
  obtain c5 rv5 t5 where c5: "issued accepts (run_aggregation d c nn) c c5" "sane c5"
    "store c5 = (store c)(nn \<mapsto> stored_as co (?st\<lparr>CurrentSynthesis := Some (cur\<lparr>Reconciled := Some (now (d_env d)), Ready := Some t5\<rparr>)\<rparr>) rv5)"
    using aggregation_sets [OF assms(1,2) _ assms(5) del] assms(6-8) by (auto simp: synthesis_complete_def)
  let ?cur5 = "cur\<lparr>Reconciled := Some (now (d_env d)), Ready := Some t5\<rparr>"
  have s5: "store c5 nn = Some (stored_as co (?st\<lparr>CurrentSynthesis := Some ?cur5\<rparr>) rv5)" by (simp add: c5(3))
  obtain c6 rv6 where c6: "issued accepts (run_summary d c5 nn) c5 c6"
    "store c6 = (store c5)(nn \<mapsto> stored_as co ((?st\<lparr>CurrentSynthesis := Some ?cur5\<rparr>)\<lparr>
      Simplified := Some \<lparr>ss_Status = ''Ready'', ss_Error = aggregate_error ?cur5\<rparr>\<rparr>) rv6)"
    using summary_sets [OF c5(2) s5 _ assms(3,4), of ?cur5] u assms(3) by (auto simp: just_created_def)
  have "store c6 = (store c)(nn \<mapsto> stored_as co ((?st\<lparr>CurrentSynthesis := Some ?cur5\<rparr>)\<lparr>
      Simplified := Some \<lparr>ss_Status = ''Ready'', ss_Error = aggregate_error ?cur5\<rparr>\<rparr>) rv6)"
    by (simp add: c6(2) c5(3))
  moreover have "synthesis_complete d co syn out ?cur5" using assms(6) by (simp add: synthesis_complete_def)
  ultimately show ?thesis using c5(1) c6(1) by (intro exI conjI) (assumption | simp)+
qed

lemma composition_made_ready:
  assumes "sane c" "finite (dom (store c))" "store c nn = Some co" "just_created co syn"
    and "pods_healthy d co syn" "limiter_healthy d (dom (store c))" "executor_healthy (d_exec d) co syn out" "slices_reconciled d co"
    and "int (card (active_keys c)) < d_limit d" "\<forall>o' \<in> ran (store c). \<not> is_pending o'"
  shows "\<exists>c1 c2 c3 c4 c5 c6 pod co' cur.
    issued accepts (run_lifecycle d c nn) c c1 \<and> issued accepts (run_limiter d c1) c1 c2 \<and>
    issued accepts (run_lifecycle d c2 nn) c2 c3 \<and> CreatePod pod \<in> set (run_lifecycle d c2 nn) \<and>
    issued accepts (run_pod d pod c3) c3 c4 \<and> issued accepts (run_aggregation d c4 nn) c4 c5 \<and>
    issued accepts (run_summary d c5 nn) c5 c6 \<and>
    store c6 = (store c)(nn \<mapsto> co') \<and> current co' = Some cur \<and> synthesis_complete d co syn out cur \<and>
    Reconciled cur = Some (now (d_env d)) \<and> Ready cur \<noteq> None \<and>
    map_option ss_Status (Simplified (comp_Status co')) = Some ''Ready''"
proof -
  obtain c1 c2 rv where c2: "issued accepts (run_lifecycle d c nn) c c1" "issued accepts (run_limiter d c1) c1 c2" "sane c2"
    "store c2 = (store c)(nn \<mapsto> stored_as co ((comp_Status co)\<lparr>CurrentSynthesis := Some (zero_Synthesis\<lparr>
      ObservedCompositionGeneration := Generation co, Initialized := Some (now (d_env d)), UUID := newUUID (d_env d)\<rparr>)\<rparr>) rv)"
    using new_composition_dispatched [OF assms(1-6,9,10)] by blast
  have s2: "store c2 nn = Some (stored_as co ((comp_Status co)\<lparr>CurrentSynthesis := Some (zero_Synthesis\<lparr>
      ObservedCompositionGeneration := Generation co, Initialized := Some (now (d_env d)), UUID := newUUID (d_env d)\<rparr>)\<rparr>) rv)"
    by (simp add: c2(4))
  obtain c3 c4 pod cur rv4 where c4: "issued accepts (run_lifecycle d c2 nn) c2 c3" "CreatePod pod \<in> set (run_lifecycle d c2 nn)"
    "issued accepts (run_pod d pod c3) c3 c4" "sane c4" "synthesis_complete d co syn out cur" "Reconciled cur = None" "Ready cur = None"
    "store c4 = (store c2)(nn \<mapsto> stored_as co ((comp_Status co)\<lparr>CurrentSynthesis := Some cur\<rparr>) rv4)"
    using dispatched_completed [OF c2(3) s2 assms(4,5,7)] by blast
  have "store c4 nn = Some (stored_as co ((comp_Status co)\<lparr>CurrentSynthesis := Some cur\<rparr>) rv4)" by (simp add: c4(8))
  from completed_ready [OF c4(4) this assms(4,5,8) c4(5-7)] obtain c5 c6 co' cur' where
    "issued accepts (run_aggregation d c4 nn) c4 c5" "issued accepts (run_summary d c5 nn) c5 c6"
    "store c6 = (store c4)(nn \<mapsto> co')" "current co' = Some cur'" "synthesis_complete d co syn out cur'"
    "Reconciled cur' = Some (now (d_env d))" "Ready cur' \<noteq> None"
    "map_option ss_Status (Simplified (comp_Status co')) = Some ''Ready''" by blast
  moreover from this have "store c6 = (store c)(nn \<mapsto> co')" by (simp add: c4(8) c2(4))
  ultimately show ?thesis using c2(1,2) c4(1,2,3) by blast
qed

end

section \<open>From creation to readiness\<close>

text \<open>
  C1. A new composition becomes ready. On an API server that accepts up-to-date requests, with free
  capacity, no other pending composition, a synthesizer that answers \<open>out\<close> and slices that get
  reconciled, six handler calls in a row, each on the state that the previous one left behind, take a
  composition without a synthesis to readiness: the lifecycle controller starts a synthesis, the limiter
  dispatches it, the lifecycle controller creates a pod, the executor in that pod (with the environment
  that \<open>newPod\<close> gave it) completes the synthesis, the slice aggregation sets \<open>Reconciled\<close> and \<open>Ready\<close>, and
  the composition aggregation reports the status Ready. No other composition changes.
\<close>
theorem new_composition_becomes_ready:
  assumes "responsive_server accepts" and "sane c" "finite (dom (store c))" "store c nn = Some co" "just_created co syn"
    and "pods_healthy d co syn" "limiter_healthy d (dom (store c))" "executor_healthy (d_exec d) co syn out" "slices_reconciled d co"
    and "int (card (active_keys c)) < d_limit d" "\<forall>o' \<in> ran (store c). \<not> is_pending o'"
  shows "\<exists>c1 c2 c3 c4 c5 c6 pod co' cur.
    issued accepts (run_lifecycle d c nn) c c1 \<and> issued accepts (run_limiter d c1) c1 c2 \<and>
    issued accepts (run_lifecycle d c2 nn) c2 c3 \<and> CreatePod pod \<in> set (run_lifecycle d c2 nn) \<and>
    issued accepts (run_pod d pod c3) c3 c4 \<and> issued accepts (run_aggregation d c4 nn) c4 c5 \<and>
    issued accepts (run_summary d c5 nn) c5 c6 \<and>
    store c6 = (store c)(nn \<mapsto> co') \<and> current co' = Some cur \<and> synthesis_complete d co syn out cur \<and>
    Reconciled cur = Some (now (d_env d)) \<and> Ready cur \<noteq> None \<and>
    map_option ss_Status (Simplified (comp_Status co')) = Some ''Ready''"
  by (rule responsive_server.composition_made_ready [OF assms])

definition kubelet :: "Pod \<Rightarrow> string \<Rightarrow> string" where
  "kubelet pod n = (case map_of (map (\<lambda>e. (ev_Name e, ev_Value e)) (Env (hd (Containers (pod_Spec pod))))) n of
     None \<Rightarrow> [] | Some v \<Rightarrow> v)"

definition lister :: "cluster \<Rightarrow> Composition list" where
  "lister c = (case store c (key_of sample_comp) of None \<Rightarrow> [] | Some co \<Rightarrow> [co])"

definition sample_deployment :: deployment where
  "sample_deployment = \<lparr>d_cfg = sample_config, d_env = sample_env, d_limit = 1, d_intn = (\<lambda>_. 0), d_list = lister,
     d_pods = sample_lc_client, d_getenv = kubelet,
     d_exec = sample_executor\<lparr>ex_create := (\<lambda>_ s. Inr (s\<lparr>Name := ''comp-x''\<rparr>)), ex_update := (\<lambda>_ _. None)\<rparr>,
     d_slices = (\<lambda>_. Inr agg_slice)\<rparr>"

lemma kubelet_env_kubelet: "kubelet_env (Env (hd (Containers (pod_Spec pod)))) (kubelet pod)"
proof -
  have "map_of (map (\<lambda>e. (ev_Name e, ev_Value e)) es) (ev_Name e) = Some (ev_Value e)"
    if "e \<in> set es" "length (filter (\<lambda>e'. ev_Name e' = ev_Name e) es) = 1" for e :: EnvVar and es
    using that by (induction es) (auto simp: filter_empty_conv split: if_splits)
  then show ?thesis by (auto simp: kubelet_env_def kubelet_def list_all_iff)
qed

lemma fresh_lister: "dom (store c) = {key_of sample_comp} \<Longrightarrow> fresh_list c (lister c)"
  by (auto simp: fresh_list_def lister_def dom_eq_singleton_conv)

lemma sample_deployment_healthy:
  "pods_healthy sample_deployment comp0 sample_synth" "limiter_healthy sample_deployment {key_of sample_comp}"
  "executor_healthy (d_exec sample_deployment) comp0 sample_synth \<lparr>rl_Items = [sample_obj ''a''], rl_Results = []\<rparr>"
  "slices_reconciled sample_deployment comp0" "just_created comp0 sample_synth"
proof -
  show "pods_healthy sample_deployment comp0 sample_synth"
    by (simp add: pods_healthy_def sample_deployment_def kubelet_env_kubelet sample_lc_client_def sample_env_def
        sample_synth_def zero_Synthesizer_def)
  show "limiter_healthy sample_deployment {key_of sample_comp}"
    by (simp add: limiter_healthy_def sample_deployment_def fresh_lister)
  have "client_retry (retry_from 4 0) 5" "client_retry (retry_from 3 0) 4"
    by (rule slice_retry.client_retry_axioms status_retry.client_retry_axioms)+
  then show "executor_healthy (d_exec sample_deployment) comp0 sample_synth \<lparr>rl_Items = [sample_obj ''a''], rl_Results = []\<rparr>"
    unfolding executor_healthy_def sample_deployment_def sample_executor_def
    by (auto simp: buildPodInput_def sample_codec_def sample_synth_def zero_Synthesizer_def)
  show "slices_reconciled sample_deployment comp0"
    by (simp add: slices_reconciled_def sample_deployment_def slice_ready_def agg_slice_def)
  show "just_created comp0 sample_synth"
    by (simp add: just_created_def InputsExist_def InputsOutOfLockstep_def comp0_def sample_comp_def)
qed

theorem new_composition_becomes_ready_witness:
  "\<exists>(c6 :: cluster) co' cur. store c6 = [key_of sample_comp \<mapsto> co'] \<and> current co' = Some cur \<and>
     UUID cur = ''fresh'' \<and> Ready cur \<noteq> None \<and> map_option ss_Status (Simplified (comp_Status co')) = Some ''Ready''"
proof -
  have c0: "sane c0" "finite (dom (store c0))" "store c0 (key_of sample_comp) = Some comp0"
    using run0 kube.versions_unique_reachable by (simp_all add: sane_def run_store)
  have free: "int (card (active_keys c0)) < d_limit sample_deployment" "\<forall>o' \<in> ran (store c0). \<not> is_pending o'"
    by (simp_all add: active_keys_def run_store comp0_def is_active_def is_pending_def sample_deployment_def)
  have lim: "limiter_healthy sample_deployment (dom (store c0))"
    using sample_deployment_healthy(2) by (simp add: run_store)
  obtain c6 :: cluster and co' cur where "store c6 = (store c0)(key_of sample_comp \<mapsto> co')" "current co' = Some cur" "Ready cur \<noteq> None"
    "synthesis_complete sample_deployment comp0 sample_synth \<lparr>rl_Items = [sample_obj ''a''], rl_Results = []\<rparr> cur"
    "map_option ss_Status (Simplified (comp_Status co')) = Some ''Ready''"
    using new_composition_becomes_ready [OF kube_healthy.responsive_server_axioms c0 sample_deployment_healthy(5,1) lim
        sample_deployment_healthy(3,4) free] by blast
  then show ?thesis
    by (intro exI [of _ c6] exI [of _ co'] exI [of _ cur])
      (simp add: run_store synthesis_complete_def sample_deployment_def sample_env_def)
qed

end
