(* ===== verification/Indices.thy ===== *)
theory Indices
  imports Eno_Samples
begin

text \<open>
  The keys under which the informer caches index compositions, synthesizers and slices
  (\<open>internal/manager/indices.go\<close>, the transformation of cached slices and the composition event handler
  of \<open>manager.go\<close>), with \<open>path.Join\<close> and \<open>path.Clean\<close> of Go's standard library.
\<close>

section \<open>Paths\<close>

fun split_slash :: "string \<Rightarrow> string list" where
  "split_slash [] = [[]]"
| "split_slash (c # cs) =
     (if c = CHR ''/'' then [] # split_slash cs
      else (case split_slash cs of [] \<Rightarrow> [[c]] | seg # segs \<Rightarrow> (c # seg) # segs))"

fun join_slash :: "string list \<Rightarrow> string" where
  "join_slash [] = []"
| "join_slash [seg] = seg"
| "join_slash (seg # segs) = seg @ CHR ''/'' # join_slash segs"

text \<open>The segments that remain, the last one first.\<close>

fun clean_segments :: "bool \<Rightarrow> string list \<Rightarrow> string list \<Rightarrow> string list" where
  "clean_segments rooted out [] = out"
| "clean_segments rooted out (seg # segs) =
     (if seg = [] \<or> seg = ''.'' then clean_segments rooted out segs
      else if seg = ''..'' then
        (if out \<noteq> [] \<and> hd out \<noteq> ''..'' then clean_segments rooted (tl out) segs
         else if rooted then clean_segments rooted out segs
         else clean_segments rooted (''..'' # out) segs)
      else clean_segments rooted (seg # out) segs)"

definition path_Clean :: "string \<Rightarrow> string" where
  "path_Clean p =
     (let rooted = (p \<noteq> [] \<and> hd p = CHR ''/'');
          body = join_slash (rev (clean_segments rooted [] (split_slash p)))
      in if rooted then CHR ''/'' # body else if body = [] then ''.'' else body)"

fun join_elems :: "string \<Rightarrow> string list \<Rightarrow> string" where
  "join_elems buf [] = buf"
| "join_elems buf (e # es) =
     (if buf \<noteq> [] then join_elems (buf @ CHR ''/'' # e) es else join_elems e es)"

definition path_Join :: "string list \<Rightarrow> string" where
  "path_Join elems = (if concat elems = [] then [] else path_Clean (join_elems [] elems))"

section \<open>Index functions\<close>

definition indexController :: "'a ObjectMeta_scheme \<Rightarrow> string list" where
  "indexController o' = (case GetControllerOf o' of None \<Rightarrow> [] | Some owner \<Rightarrow> [or_Name owner])"

definition indexResourceBindings :: "Composition \<Rightarrow> string list" where
  "indexResourceBindings co =
     map (\<lambda>b. path_Join [SynthesizerName (comp_Spec co), rb_Namespace (b_Resource b), rb_Name (b_Resource b)])
       (Bindings (comp_Spec co))"

definition indexSynthRefs :: "Synthesizer \<Rightarrow> string list" where
  "indexSynthRefs synth =
     map (\<lambda>ref. path_Join [rr_Group (ref_Resource ref), rr_Version (ref_Resource ref), rr_Kind (ref_Resource ref)])
       (Refs (synth_Spec synth))"

text \<open>A list call with a matching field: the objects that the informer indexed under the value.\<close>

definition matching :: "('o \<Rightarrow> string list) \<Rightarrow> string \<Rightarrow> 'o list \<Rightarrow> 'o list" where
  "matching idx v objs = filter (\<lambda>o'. v \<in> set (idx o')) objs"

definition slice_transform :: "ResourceSlice \<Rightarrow> ResourceSlice" where
  "slice_transform slice =
     slice\<lparr>slice_Spec := (slice_Spec slice)\<lparr>Resources :=
       map (\<lambda>m. m\<lparr>manifest := []\<rparr>) (Resources (slice_Spec slice))\<rparr>\<rparr>"

definition comp_to_slices :: "ResourceSlice list \<Rightarrow> Composition \<Rightarrow> NamespacedName list" where
  "comp_to_slices slices co =
     map (\<lambda>s. \<lparr>nn_Namespace = Namespace s, nn_Name = Name s\<rparr>)
       (matching indexController (Name co) (filter (\<lambda>s. Namespace s = Namespace co) slices))"

section \<open>Lemmas\<close>

text \<open>Names of Kubernetes objects, groups, versions and kinds contain no slash and are no dots.\<close>

definition plain :: "string \<Rightarrow> bool" where
  "plain s \<longleftrightarrow> s \<noteq> [] \<and> CHR ''/'' \<notin> set s \<and> s \<noteq> ''.'' \<and> s \<noteq> ''..''"

lemma plain_noslash: "plain s \<Longrightarrow> CHR ''/'' \<notin> set s" "plain s \<Longrightarrow> s \<noteq> []"
  by (simp_all add: plain_def)

lemma empty_or_plain_noslash: "s = [] \<or> plain s \<Longrightarrow> CHR ''/'' \<notin> set s"
  by (auto dest: plain_noslash(1))

lemma join_slash_Cons: "join_slash (e # es) = e @ (if es = [] then [] else CHR ''/'' # join_slash es)"
  by (cases es) auto

lemma split_noslash: "CHR ''/'' \<notin> set s \<Longrightarrow> split_slash s = [s]"
  by (induction s) auto

lemma split_append: "CHR ''/'' \<notin> set s \<Longrightarrow> split_slash (s @ CHR ''/'' # t) = s # split_slash t"
  by (induction s) auto

lemma split_join: "segs \<noteq> [] \<Longrightarrow> \<forall>s \<in> set segs. CHR ''/'' \<notin> set s \<Longrightarrow> split_slash (join_slash segs) = segs"
  by (induction segs rule: join_slash.induct) (auto simp: split_noslash split_append)

lemma join_slash_inject:
  assumes "xs \<noteq> []" "ys \<noteq> []" "\<forall>s \<in> set xs. CHR ''/'' \<notin> set s" "\<forall>s \<in> set ys. CHR ''/'' \<notin> set s"
  shows "join_slash xs = join_slash ys \<longleftrightarrow> xs = ys"
  using assms by (metis split_join)

lemma clean_plain:
  "\<forall>s \<in> set segs. s = [] \<or> plain s \<Longrightarrow> clean_segments r out segs = rev (filter (\<lambda>s. s \<noteq> []) segs) @ out"
  by (induction segs arbitrary: out) (auto simp: plain_def)

lemma join_elems_split:
  "buf \<noteq> [] \<Longrightarrow> CHR ''/'' \<notin> set buf \<Longrightarrow> \<forall>s \<in> set es. CHR ''/'' \<notin> set s \<Longrightarrow>
     join_elems buf es = join_slash (buf # es)"
proof -
  have gen: "buf \<noteq> [] \<Longrightarrow> join_elems buf es = (if es = [] then buf else buf @ CHR ''/'' # join_slash es)" for buf es
  proof (induction es arbitrary: buf)
    case (Cons e es)
    then show ?case using Cons.IH [of "buf @ CHR ''/'' # e"] by (cases es) auto
  qed simp
  show "buf \<noteq> [] \<Longrightarrow> ?thesis" by (simp add: gen join_slash_Cons)
qed

lemma path_Join_plain:
  assumes "plain e" and "\<forall>s \<in> set es. s = [] \<or> plain s"
  shows "path_Join (e # es) = join_slash (e # filter (\<lambda>s. s \<noteq> []) es)"
proof -
  have ns: "CHR ''/'' \<notin> set e" "e \<noteq> []" "\<forall>s \<in> set es. CHR ''/'' \<notin> set s"
    using assms(1) plain_noslash empty_or_plain_noslash bspec [OF assms(2)] by blast+
  have jb: "join_elems [] (e # es) = join_slash (e # es)" using ns by (simp add: join_elems_split)
  obtain x xs where e: "e = x # xs" "x \<noteq> CHR ''/''" using ns(1,2) by (cases e) auto
  have hd: "hd (join_slash (e # es)) \<noteq> CHR ''/''" "join_slash (e # es) \<noteq> []"
    unfolding join_slash_Cons e(1) using e(2) by simp_all
  have "split_slash (join_slash (e # es)) = e # es" using ns by (intro split_join) auto
  moreover have "join_slash (e # filter (\<lambda>s. s \<noteq> []) es) \<noteq> []"
    using ns by (simp add: join_slash_Cons)
  ultimately show ?thesis
    using ns hd jb clean_plain [of "e # es" False "[]"] assms
    by (simp add: path_Join_def path_Clean_def Let_def)
qed

abbreviation nonempty :: "string list \<Rightarrow> string list" where
  "nonempty es \<equiv> filter (\<lambda>s. s \<noteq> []) es"

lemma path_Join_nonempty: "\<forall>s \<in> set es. s = [] \<or> plain s \<Longrightarrow> path_Join es = join_slash (nonempty es)"
proof (induction es)
  case (Cons e es)
  show ?case
  proof (cases "e = []")
    case True
    then have "path_Join (e # es) = path_Join es" by (simp add: path_Join_def)
    with Cons True show ?thesis by simp
  next
    case False
    with Cons.prems show ?thesis using path_Join_plain [of e es] by (auto simp: plain_def)
  qed
qed (simp add: path_Join_def)

lemma join_slash_empty: "\<forall>s \<in> set segs. s \<noteq> [] \<Longrightarrow> join_slash segs = [] \<longleftrightarrow> segs = []"
  by (cases segs rule: join_slash.cases) auto

lemma path_Join_inject:
  assumes "\<forall>s \<in> set xs \<union> set ys. s = [] \<or> plain s"
  shows "path_Join xs = path_Join ys \<longleftrightarrow> nonempty xs = nonempty ys"
proof -
  have ns: "\<forall>s \<in> set (nonempty xs). CHR ''/'' \<notin> set s" "\<forall>s \<in> set (nonempty ys). CHR ''/'' \<notin> set s"
    using assms empty_or_plain_noslash by (metis filter_is_subset subsetD UnI1 UnI2)+
  have j: "path_Join xs = join_slash (nonempty xs)" "path_Join ys = join_slash (nonempty ys)"
    using assms by (auto intro!: path_Join_nonempty)
  show ?thesis
  proof (cases "nonempty xs = [] \<or> nonempty ys = []")
    case True
    then show ?thesis using j join_slash_empty [of "nonempty xs"] join_slash_empty [of "nonempty ys"] by auto
  next
    case False
    with j join_slash_inject [OF _ _ ns] show ?thesis by simp
  qed
qed

definition plain_comp :: "Composition \<Rightarrow> bool" where
  "plain_comp co \<longleftrightarrow> plain (SynthesizerName (comp_Spec co)) \<and>
     list_all (\<lambda>b. plain (rb_Name (b_Resource b)) \<and>
       (rb_Namespace (b_Resource b) = [] \<or> plain (rb_Namespace (b_Resource b)))) (Bindings (comp_Spec co))"

definition plain_synth :: "Synthesizer \<Rightarrow> bool" where
  "plain_synth synth \<longleftrightarrow>
     list_all (\<lambda>ref. (rr_Group (ref_Resource ref) = [] \<or> plain (rr_Group (ref_Resource ref))) \<and>
       plain (rr_Version (ref_Resource ref)) \<and> plain (rr_Kind (ref_Resource ref))) (Refs (synth_Spec synth))"

lemma join_binding_key:
  assumes "plain a" "b = [] \<or> plain b" "plain c" "plain a'" "b' = [] \<or> plain b'" "plain c'"
  shows "path_Join [a, b, c] = path_Join [a', b', c'] \<longleftrightarrow> a = a' \<and> b = b' \<and> c = c'"
    and "path_Join [b, a, c] = path_Join [b', a', c'] \<longleftrightarrow> a = a' \<and> b = b' \<and> c = c'"
  using assms by (subst path_Join_inject; auto simp: plain_def)+

text \<open>
  The joined keys are exact for the names Kubernetes allows: asking the index of compositions for
  a synthesizer and an object (namespaced or not) finds the compositions that use this synthesizer and
  are bound to this object, and asking the index of synthesizers for a kind (of the core group or not)
  finds those that reference this kind.
\<close>
theorem joined_keys_exact:
  assumes "plain sn" "ns = [] \<or> plain ns" "plain n" "list_all plain_comp comps"
    and "g = [] \<or> plain g" "plain v" "plain k" "list_all plain_synth synths"
  shows "matching indexResourceBindings (path_Join [sn, ns, n]) comps =
      filter (\<lambda>co. SynthesizerName (comp_Spec co) = sn \<and>
        list_ex (\<lambda>b. rb_Namespace (b_Resource b) = ns \<and> rb_Name (b_Resource b) = n) (Bindings (comp_Spec co))) comps \<and>
    matching indexSynthRefs (path_Join [g, v, k]) synths =
      filter (\<lambda>synth. list_ex (\<lambda>ref. ref_Resource ref = \<lparr>rr_Group = g, rr_Version = v, rr_Kind = k\<rparr>)
        (Refs (synth_Spec synth))) synths"
proof
  have key: "path_Join [sn, ns, n] =
        path_Join [SynthesizerName (comp_Spec co), rb_Namespace (b_Resource b), rb_Name (b_Resource b)] \<longleftrightarrow>
      SynthesizerName (comp_Spec co) = sn \<and> rb_Namespace (b_Resource b) = ns \<and> rb_Name (b_Resource b) = n"
    if "co \<in> set comps" "b \<in> set (Bindings (comp_Spec co))" for co b
    using that assms(1-4) join_binding_key(1) [of sn ns n]
    by (auto simp: plain_comp_def list_all_iff)
  then show "matching indexResourceBindings (path_Join [sn, ns, n]) comps =
      filter (\<lambda>co. SynthesizerName (comp_Spec co) = sn \<and>
        list_ex (\<lambda>b. rb_Namespace (b_Resource b) = ns \<and> rb_Name (b_Resource b) = n) (Bindings (comp_Spec co))) comps"
    unfolding matching_def by (intro filter_cong refl) (auto simp: indexResourceBindings_def list_ex_iff image_iff)
  have key': "path_Join [g, v, k] =
        path_Join [rr_Group (ref_Resource r), rr_Version (ref_Resource r), rr_Kind (ref_Resource r)] \<longleftrightarrow>
      ref_Resource r = \<lparr>rr_Group = g, rr_Version = v, rr_Kind = k\<rparr>"
    if "synth \<in> set synths" "r \<in> set (Refs (synth_Spec synth))" for synth r
  proof -
    let ?r = "ref_Resource r"
    have "rr_Group ?r = [] \<or> plain (rr_Group ?r)" "plain (rr_Version ?r)" "plain (rr_Kind ?r)"
      using that assms(8) by (auto simp: plain_synth_def list_all_iff)
    from join_binding_key(2) [OF assms(6,5,7) this(2,1,3)] show ?thesis
      by (cases ?r) auto
  qed
  then show "matching indexSynthRefs (path_Join [g, v, k]) synths =
      filter (\<lambda>synth. list_ex (\<lambda>ref. ref_Resource ref = \<lparr>rr_Group = g, rr_Version = v, rr_Kind = k\<rparr>)
        (Refs (synth_Spec synth))) synths"
    unfolding matching_def by (intro filter_cong refl) (auto simp: indexSynthRefs_def list_ex_iff image_iff)
qed

definition bound_comp :: Composition where
  "bound_comp = sample_comp\<lparr>comp_Spec := (comp_Spec sample_comp)\<lparr>Bindings :=
     [\<lparr>b_Key = ''in'', b_Resource = \<lparr>rb_Name = ''cm'', rb_Namespace = ''ns''\<rparr>\<rparr>]\<rparr>\<rparr>"

definition ref_synth :: Synthesizer where
  "ref_synth = sample_synth\<lparr>synth_Spec := (synth_Spec sample_synth)\<lparr>Refs :=
     [\<lparr>ref_Key = ''in'', ref_Resource = \<lparr>rr_Group = [], rr_Version = ''v1'', rr_Kind = ''ConfigMap''\<rparr>, ref_Defer = False\<rparr>]\<rparr>\<rparr>"

theorem joined_keys_exact_witness:
  "matching indexResourceBindings ''syn/ns/cm'' [bound_comp, sample_comp] = [bound_comp] \<and>
   matching indexSynthRefs ''v1/ConfigMap'' [sample_synth, ref_synth] = [ref_synth]"
proof -
  have "path_Join [''syn'', ''ns'', ''cm''] = ''syn/ns/cm''" "path_Join [[], ''v1'', ''ConfigMap''] = ''v1/ConfigMap''"
    by (simp_all add: path_Join_def path_Clean_def)
  moreover have "list_all plain_comp [bound_comp, sample_comp]" "list_all plain_synth [sample_synth, ref_synth]"
    by (simp_all add: plain_comp_def plain_synth_def plain_def bound_comp_def ref_synth_def sample_defs)
  ultimately show ?thesis
    using joined_keys_exact [of "''syn''" "''ns''" "''cm''" "[bound_comp, sample_comp]" "[]" "''v1''" "''ConfigMap''"
        "[sample_synth, ref_synth]"]
    by (simp add: plain_def) (simp add: bound_comp_def ref_synth_def sample_defs)
qed

end
