(* ===== verification/Go_Flag.thy ===== *)
theory Go_Flag
  imports Complex_Main Go_Strconv
begin

text \<open>
  The parts of Go's \<open>flag\<close> and \<open>strings\<close> packages that the commands use: the definition of flags on the
  command line's flag set (a redefinition panics), \<open>Parse\<close> with its treatment of \<open>-\<close>, \<open>--\<close>, \<open>=\<close>, boolean
  flags and the terminator, and \<open>SplitN\<close> with a limit of two. Conversions of numbers and durations are
  arguments. The value that \<open>Parse\<close> leaves in the flags is a function from names to values.
\<close>

datatype flag_value = VString string | VBool bool | VInt int | VDuration duration | VFloat rat

type_synonym flagset = "(string \<times> flag_value) list"

text \<open>\<open>flag.StringVar\<close> and its siblings: \<open>None\<close> is the panic of a redefinition.\<close>

definition flag_var :: "string \<Rightarrow> flag_value \<Rightarrow> flagset option \<Rightarrow> flagset option" where
  "flag_var name v fs =
     (case fs of
        None \<Rightarrow> None
      | Some defs \<Rightarrow> if name \<in> fst ` set defs then None else Some (defs @ [(name, v)]))"

definition ParseBool :: "string \<Rightarrow> bool option" where
  "ParseBool s =
     (if s \<in> {''1'', ''t'', ''T'', ''true'', ''TRUE'', ''True''} then Some True
      else if s \<in> {''0'', ''f'', ''F'', ''false'', ''FALSE'', ''False''} then Some False
      else None)"

record flag_parsers =
  fp_int :: "string \<Rightarrow> int option"
  fp_duration :: "string \<Rightarrow> duration option"
  fp_float :: "string \<Rightarrow> rat option"

fun flag_Set :: "flag_parsers \<Rightarrow> flag_value \<Rightarrow> string \<Rightarrow> flag_value option" where
  "flag_Set ps (VString _) s = Some (VString s)"
| "flag_Set ps (VBool _) s = map_option VBool (ParseBool s)"
| "flag_Set ps (VInt _) s = map_option VInt (fp_int ps s)"
| "flag_Set ps (VDuration _) s = map_option VDuration (fp_duration ps s)"
| "flag_Set ps (VFloat _) s = map_option VFloat (fp_float ps s)"

fun IsBoolFlag :: "flag_value \<Rightarrow> bool" where
  "IsBoolFlag (VBool _) = True"
| "IsBoolFlag _ = False"

datatype flag_error = ErrHelp | BadSyntax string | NotDefined string | NeedsArgument string | InvalidValue string string

text \<open>\<open>name=value\<close> is cut at the first \<open>=\<close> after the first character.\<close>

fun span_eq :: "string \<Rightarrow> string \<times> string option" where
  "span_eq [] = ([], None)"
| "span_eq (ch # cs) =
     (if ch = CHR ''='' then ([], Some cs)
      else (case span_eq cs of (a, v) \<Rightarrow> (ch # a, v)))"

definition cut_value :: "string \<Rightarrow> string \<times> string option" where
  "cut_value name =
     (case span_eq (tl name) of (a, None) \<Rightarrow> (name, None) | (a, Some v) \<Rightarrow> (hd name # a, Some v))"

text \<open>
  One round of \<open>parseOne\<close> on the remaining arguments: \<open>Inr None\<close> when there is no further flag, else the
  name, its new value and the arguments that are left.
\<close>

definition parseOne :: "flag_parsers \<Rightarrow> (string \<Rightarrow> flag_value option) \<Rightarrow> string list \<Rightarrow>
    flag_error + (string \<times> flag_value \<times> string list) option" where
  "parseOne ps formal args =
     (case args of
        [] \<Rightarrow> Inr None
      | s # rest \<Rightarrow>
          if length s < 2 \<or> s ! 0 \<noteq> CHR ''-'' then Inr None
          else if s = ''--'' then Inr None
          else
            let nm = (if s ! 1 = CHR ''-'' then drop 2 s else drop 1 s) in
            if nm = [] \<or> hd nm = CHR ''-'' \<or> hd nm = CHR ''='' then Inl (BadSyntax s)
            else
              (case cut_value nm of
                 (name, val) \<Rightarrow>
                   (case formal name of
                      None \<Rightarrow> if name = ''help'' \<or> name = ''h'' then Inl ErrHelp else Inl (NotDefined name)
                    | Some v \<Rightarrow>
                        if IsBoolFlag v then
                          (case val of
                             None \<Rightarrow> Inr (Some (name, VBool True, rest))
                           | Some s' \<Rightarrow>
                               (case flag_Set ps v s' of
                                  None \<Rightarrow> Inl (InvalidValue name s')
                                | Some v' \<Rightarrow> Inr (Some (name, v', rest))))
                        else
                          (case (val, rest) of
                             (None, []) \<Rightarrow> Inl (NeedsArgument name)
                           | (None, s' # rest') \<Rightarrow>
                               (case flag_Set ps v s' of
                                  None \<Rightarrow> Inl (InvalidValue name s')
                                | Some v' \<Rightarrow> Inr (Some (name, v', rest')))
                           | (Some s', _) \<Rightarrow>
                               (case flag_Set ps v s' of
                                  None \<Rightarrow> Inl (InvalidValue name s')
                                | Some v' \<Rightarrow> Inr (Some (name, v', rest)))))))"

lemma parseOne_shorter: "parseOne ps formal args = Inr (Some (name, v, rest)) \<Longrightarrow> length rest < length args"
  by (auto simp: parseOne_def Let_def split: list.splits if_splits prod.splits option.splits)

function parse_all :: "flag_parsers \<Rightarrow> (string \<Rightarrow> flag_value option) \<Rightarrow> string list \<Rightarrow>
    flag_error + (string \<Rightarrow> flag_value option)" where
  "parse_all ps formal args =
     (case parseOne ps formal args of
        Inl e \<Rightarrow> Inl e
      | Inr None \<Rightarrow> Inr formal
      | Inr (Some (name, v, rest)) \<Rightarrow> parse_all ps (formal(name \<mapsto> v)) rest)"
  by pat_completeness auto
termination by (relation "measure (\<lambda>(ps, formal, args). length args)") (auto dest: parseOne_shorter)

declare parse_all.simps [simp del]

definition flag_Parse :: "flag_parsers \<Rightarrow> flagset \<Rightarrow> string list \<Rightarrow> flag_error + (string \<Rightarrow> flag_value option)" where
  "flag_Parse ps defs args = parse_all ps (map_of defs) args"

text \<open>\<open>strings.SplitN(s, sep, 2)\<close> for a separator of one character.\<close>

fun SplitN2 :: "char \<Rightarrow> string \<Rightarrow> string list" where
  "SplitN2 sep [] = [[]]"
| "SplitN2 sep (ch # cs) =
     (if ch = sep then [[], cs]
      else (case SplitN2 sep cs of [] \<Rightarrow> [] | x # xs \<Rightarrow> (ch # x) # xs))"

definition HasSuffix :: "string \<Rightarrow> string \<Rightarrow> bool" where
  "HasSuffix s p = (length p \<le> length s \<and> drop (length s - length p) s = p)"

section \<open>Lemmas\<close>

lemma span_eq_append: "CHR ''='' \<notin> set a \<Longrightarrow> span_eq (a @ CHR ''='' # v) = (a, Some v)"
  by (induction a) auto

lemma SplitN2_append: "sep \<notin> set a \<Longrightarrow> SplitN2 sep (a @ sep # b) = [a, b]"
  by (induction a) auto

lemma SplitN2_none: "sep \<notin> set a \<Longrightarrow> SplitN2 sep a = [a]"
  by (induction a) auto

lemma flag_var_distinct:
  "flag_var name v fs = Some defs' \<Longrightarrow> (\<And>defs. fs = Some defs \<Longrightarrow> distinct (map fst defs)) \<Longrightarrow> distinct (map fst defs')"
  by (auto simp: flag_var_def split: option.splits if_splits)

text \<open>A name as flags have it: not empty, and without a dash or equals sign at its start or an equals sign inside.\<close>

definition flag_name :: "string \<Rightarrow> bool" where
  "flag_name n \<longleftrightarrow> n \<noteq> [] \<and> hd n \<noteq> CHR ''-'' \<and> CHR ''='' \<notin> set n"

lemma cut_value_eq: "flag_name n \<Longrightarrow> cut_value (n @ CHR ''='' # v) = (n, Some v)"
  by (cases n) (auto simp: flag_name_def cut_value_def span_eq_append)

lemma parseOne_assignment:
  assumes "flag_name n" "formal n = Some v" "flag_Set ps v s = Some v'"
  shows "parseOne ps formal ((''--'' @ n @ ''='' @ s) # rest) = Inr (Some (n, v', rest))"
  using assms cut_value_eq [OF assms(1), of s]
  by (cases n) (auto simp: parseOne_def Let_def flag_name_def)

lemma flag_Set_kind: "flag_Set ps v s = Some v' \<Longrightarrow> flag_Set ps v' = flag_Set ps v"
  by (cases v) (auto simp: fun_eq_iff)

lemma parse_assignments:
  assumes "\<And>n s. (n, s) \<in> set kvs \<Longrightarrow> flag_name n \<and> (\<exists>v v'. formal n = Some v \<and> flag_Set ps v s = Some v')"
  shows "parse_all ps formal (map (\<lambda>(n, s). ''--'' @ n @ ''='' @ s) kvs) =
    Inr (fold (\<lambda>(n, s) f. f(n := Option.bind (f n) (\<lambda>v. flag_Set ps v s))) kvs formal)"
  using assms
proof (induction kvs arbitrary: formal)
  case Nil
  then show ?case by (simp add: parse_all.simps parseOne_def)
next
  case (Cons kv kvs)
  obtain n s where kv: "kv = (n, s)" by force
  obtain v v' where v: "flag_name n" "formal n = Some v" "flag_Set ps v s = Some v'"
    using Cons.prems [of n s] kv by auto
  have "flag_name m \<and> (\<exists>w w'. (formal(n \<mapsto> v')) m = Some w \<and> flag_Set ps w t = Some w')" if "(m, t) \<in> set kvs" for m t
    using Cons.prems [of m t] that v flag_Set_kind [OF v(3)] by auto
  note IH = Cons.IH [of "formal(n \<mapsto> v')", OF this]
  have "parse_all ps formal (map (\<lambda>(n, s). ''--'' @ n @ ''='' @ s) (kv # kvs)) =
      parse_all ps (formal(n \<mapsto> v')) (map (\<lambda>(n, s). ''--'' @ n @ ''='' @ s) kvs)"
    using parseOne_assignment [of n formal v ps s, OF v] by (subst parse_all.simps) (simp add: kv)
  moreover have "fold (\<lambda>(n, s) f. f(n := Option.bind (f n) (\<lambda>v. flag_Set ps v s))) (kv # kvs) formal =
      fold (\<lambda>(n, s) f. f(n := Option.bind (f n) (\<lambda>v. flag_Set ps v s))) kvs (formal(n \<mapsto> v'))"
    by (simp add: kv v)
  ultimately show ?case by (simp only: IH)
qed

end
