(* ===== verification/Manager.thy ===== *)
theory Manager
  imports Indices Go_Flag Pod_Contract
begin

text \<open>
  The construction of the managers (\<open>internal/manager/manager.go\<close>, \<open>options.go\<close>): the options and their
  flags, which objects the informer caches of a process hold, which field indices it registers, and the
  client that injects faults. Label selectors and informers belong to client-go and controller-runtime:
  the locales \<open>label_selectors\<close> and \<open>informer\<close> state what they document. Rates are rational numbers: rounding, and the
  conversion of a rate to \<open>float32\<close>, are left out.
\<close>

section \<open>Options\<close>

type_synonym selector = "strmap \<Rightarrow> bool"

record Options =
  LeaderElection :: bool
  LeaderElectionNamespace :: string
  LeaderElectionResourceLock :: string
  LeaderElectionID :: string
  ElectionLeaseDuration :: duration
  ElectionLeaseRenewDeadline :: duration
  RestBurst :: int
  RestQPS :: rat
  RestUserAgent :: string
  HealthProbeAddr :: string
  MetricsAddr :: string
  SynthesizerPodNamespace :: string
  qps :: rat
  opt_CompositionNamespace :: string
  CompositionSelector :: "selector option"

definition Options_Bind :: "(string \<Rightarrow> string) \<Rightarrow> flagset option \<Rightarrow> flagset option" where
  "Options_Bind getenv set0 =
     (let set1 = flag_var ''health-probe-addr'' (VString '':8081'') set0;
          set2 = flag_var ''metrics-addr'' (VString '':8080'') set1;
          set3 = flag_var ''burst'' (VInt 50) set2;
          set4 = flag_var ''qps'' (VFloat 20) set3;
          set5 = flag_var ''leader-election'' (VBool False) set4;
          set6 = flag_var ''leader-election-namespace'' (VString (getenv ''POD_NAMESPACE'')) set5;
          set7 = flag_var ''leader-election-resource-lock'' (VString []) set6;
          set8 = flag_var ''leader-election-id'' (VString []) set7;
          set9 = flag_var ''leader-election-lease-duration'' (VDuration (90 * second)) set8
      in flag_var ''leader-election-lease-renew-deadline'' (VDuration (60 * second)) set9)"

section \<open>Caches\<close>

record ByObject =
  bo_Label :: "selector option"
  bo_Namespaces :: "(string \<times> selector option) list"
  UnsafeDisableDeepCopy :: bool
  Transform :: "(ResourceSlice \<Rightarrow> ResourceSlice) option"

definition newCacheOptions :: "string \<Rightarrow> selector option \<Rightarrow> ByObject" where
  "newCacheOptions ns sel =
     (if ns = [] then \<lparr>bo_Label = sel, bo_Namespaces = [], UnsafeDisableDeepCopy = False, Transform = None\<rparr>
      else \<lparr>bo_Label = None, bo_Namespaces = [(ns, sel)], UnsafeDisableDeepCopy = False, Transform = None\<rparr>)"

definition label_value :: "strmap \<Rightarrow> string \<Rightarrow> string option" where
  "label_value ls k = (case ls of None \<Rightarrow> None | Some kvs \<Rightarrow> map_of kvs k)"

definition matches :: "selector option \<Rightarrow> strmap \<Rightarrow> bool" where
  "matches sel ls = (case sel of None \<Rightarrow> True | Some f \<Rightarrow> f ls)"

locale label_selectors =
  fixes SelectorFromSet :: "(string \<times> string) list \<Rightarrow> selector" and Everything :: selector
  assumes from_set: "SelectorFromSet [(k, v)] ls \<longleftrightarrow> label_value ls k = Some v"
    and everything: "Everything ls"

locale informer =
  fixes watched :: "ByObject option \<Rightarrow> string \<Rightarrow> strmap \<Rightarrow> bool"
  assumes default_all: "watched None ns ls"
    and by_namespace: "bo_Namespaces bo \<noteq> [] \<Longrightarrow> [] \<notin> fst ` set (bo_Namespaces bo) \<Longrightarrow>
      watched (Some bo) ns ls \<longleftrightarrow> (\<exists>sel. map_of (bo_Namespaces bo) ns = Some sel \<and> matches sel ls)"
    and by_label: "bo_Namespaces bo = [] \<Longrightarrow> watched (Some bo) ns ls \<longleftrightarrow> matches (bo_Label bo) ls"
begin

lemma newCacheOptions_watched:
  "bo_Namespaces bo = bo_Namespaces (newCacheOptions scope sel) \<Longrightarrow> bo_Label bo = bo_Label (newCacheOptions scope sel) \<Longrightarrow>
   watched (Some bo) ns ls \<longleftrightarrow> (scope = [] \<or> ns = scope) \<and> matches sel ls"
  using by_namespace [of bo ns ls] by_label [of bo ns ls] by (auto simp: newCacheOptions_def split: if_splits)

end

definition set_selector :: "(string \<times> string) list \<Rightarrow> selector" where
  "set_selector kvs ls = list_all (\<lambda>(k, v). label_value ls k = Some v) kvs"

definition no_restriction :: selector where
  "no_restriction ls = True"

interpretation kube_selectors: label_selectors set_selector no_restriction
  by unfold_locales (simp_all add: set_selector_def no_restriction_def)

definition in_cache :: "ByObject option \<Rightarrow> string \<Rightarrow> strmap \<Rightarrow> bool" where
  "in_cache cfg ns ls =
     (case cfg of
        None \<Rightarrow> True
      | Some bo \<Rightarrow>
          if bo_Namespaces bo = [] then matches (bo_Label bo) ls
          else (case map_of (bo_Namespaces bo) ns of None \<Rightarrow> False | Some sel \<Rightarrow> matches sel ls))"

interpretation kube_informer: informer in_cache
  by unfold_locales (auto simp: in_cache_def split: option.splits)

section \<open>Clients\<close>

text \<open>
  The writing methods of a client and of its status writer as functions on the state \<open>'s\<close> of the world;
  reads are not affected by fault injection.
\<close>

record ('o, 's) client =
  cl_Create :: "'o \<Rightarrow> 's \<Rightarrow> 's \<times> api_err option"
  cl_Delete :: "'o \<Rightarrow> 's \<Rightarrow> 's \<times> api_err option"
  cl_Update :: "'o \<Rightarrow> 's \<Rightarrow> 's \<times> api_err option"
  cl_Patch :: "'o \<Rightarrow> 's \<Rightarrow> 's \<times> api_err option"
  status_Update :: "'o \<Rightarrow> 's \<Rightarrow> 's \<times> api_err option"
  status_Patch :: "'o \<Rightarrow> 's \<Rightarrow> 's \<times> api_err option"

text \<open>\<open>Float64\<close> draws a random number and advances the generator.\<close>

definition chaos_call :: "('s \<Rightarrow> rat \<times> 's) \<Rightarrow> rat \<Rightarrow> ('o \<Rightarrow> 's \<Rightarrow> 's \<times> api_err option) \<Rightarrow> 'o \<Rightarrow> 's \<Rightarrow> 's \<times> api_err option" where
  "chaos_call Float64 ratio call obj s =
     (case Float64 s of (r, s') \<Rightarrow> if ratio > r then (s', Some (OtherErr ''chaos!'')) else call obj s')"

definition chaosStatusClient :: "('s \<Rightarrow> rat \<times> 's) \<Rightarrow> rat \<Rightarrow> ('o, 's) client \<Rightarrow> ('o, 's) client" where
  "chaosStatusClient Float64 ratio c =
     c\<lparr>status_Update := chaos_call Float64 ratio (status_Update c),
       status_Patch := chaos_call Float64 ratio (status_Patch c)\<rparr>"

definition chaosClient :: "('s \<Rightarrow> rat \<times> 's) \<Rightarrow> rat \<Rightarrow> ('o, 's) client \<Rightarrow> ('o, 's) client" where
  "chaosClient Float64 ratio c =
     (chaosStatusClient Float64 ratio c)\<lparr>
       cl_Create := chaos_call Float64 ratio (cl_Create c),
       cl_Delete := chaos_call Float64 ratio (cl_Delete c),
       cl_Update := chaos_call Float64 ratio (cl_Update c),
       cl_Patch := chaos_call Float64 ratio (cl_Patch c)\<rparr>"

text \<open>The \<open>NewClient\<close> function that is installed when \<open>CHAOS_RATIO\<close> is set.\<close>

definition newChaosClient ::
  "(string \<Rightarrow> rat option) \<Rightarrow> ('s \<Rightarrow> rat \<times> 's) \<Rightarrow> string \<Rightarrow> string + ('o, 's) client \<Rightarrow> string + ('o, 's) client" where
  "newChaosClient ParseFloat Float64 ratioStr base =
     (case base of
        Inl e \<Rightarrow> Inl e
      | Inr c \<Rightarrow>
          (case ParseFloat ratioStr of
             None \<Rightarrow> Inl ''invalid syntax''
           | Some ratio \<Rightarrow> Inr (chaosClient Float64 ratio c)))"

section \<open>The logger of a controller\<close>

text \<open>\<open>logr.Logger\<close> is an argument: \<open>withValues\<close> returns a logger with further pairs and leaves its
  receiver as it is.\<close>

definition NewLogConstructor ::
  "('l \<Rightarrow> (string \<times> string) list \<Rightarrow> 'l) \<Rightarrow> 'l \<Rightarrow> string \<Rightarrow> NamespacedName option \<Rightarrow> 'l" where
  "NewLogConstructor withValues base controllerName req =
     (let l = withValues base [(''controller'', controllerName)];
          discarded = (case req of
            Some r \<Rightarrow> Some (withValues l [(''requestName'', nn_Name r), (''requestNamespace'', nn_Namespace r)])
          | None \<Rightarrow> None)
      in l)"

text \<open>The request never gets into the context of the log lines.\<close>

lemma log_context_lacks_request:
  "NewLogConstructor withValues base controllerName req = withValues base [(''controller'', controllerName)]"
  by (simp add: NewLogConstructor_def Let_def)

section \<open>The manager\<close>

datatype kind = KPod | KComposition | KSynthesizer | KResourceSlice | KSymphony | KNamespace

definition IdxPodsByComposition :: string where
  "IdxPodsByComposition = ''.podsByComposition''"

definition IdxCompositionsBySynthesizer :: string where
  "IdxCompositionsBySynthesizer = ''.spec.synthesizer''"

definition IdxCompositionsBySymphony :: string where
  "IdxCompositionsBySymphony = ''.compositionsBySymphony''"

definition IdxResourceSlicesByComposition :: string where
  "IdxResourceSlicesByComposition = ''.resourceSlicesByComposition''"

definition IdxCompositionsByBinding :: string where
  "IdxCompositionsByBinding = ''.compositionsByBinding''"

definition IdxSynthesizersByRef :: string where
  "IdxSynthesizersByRef = ''.synthesizersByRef''"

record mgr_options =
  mo_options :: Options
  mo_ReleaseOnCancel :: bool
  mo_chaos :: "string option"
  mo_ByObject :: "kind \<Rightarrow> ByObject option"

text \<open>
  What the construction calls: the registration of the two schemes, \<open>ctrl.NewManager\<close> and
  \<open>IndexField\<close>, each with the error it answers, the environment and the selectors.
\<close>

record mgr_world =
  mw_getenv :: "string \<Rightarrow> string"
  mw_api_scheme :: "string option"
  mw_core_scheme :: "string option"
  mw_NewManager :: "mgr_options \<Rightarrow> string option"
  mw_IndexField :: "kind \<Rightarrow> string \<Rightarrow> string option"
  mw_SelectorFromSet :: "(string \<times> string) list \<Rightarrow> selector"
  mw_Everything :: selector

record mgr =
  m_options :: mgr_options
  m_indices :: "(kind \<times> string) list"
  m_healthz :: "string list"
  m_readyz :: "string list"

definition cache_config :: "mgr_world \<Rightarrow> Options \<Rightarrow> bool \<Rightarrow> kind \<Rightarrow> ByObject option" where
  "cache_config w opts isController k =
     (case k of
        KPod \<Rightarrow>
          if isController
          then Some \<lparr>bo_Label = None,
                 bo_Namespaces = [(SynthesizerPodNamespace opts,
                   Some (mw_SelectorFromSet w [(ManagerLabelKey, ManagerLabelValue)]))],
                 UnsafeDisableDeepCopy = False, Transform = None\<rparr>
          else None
      | KComposition \<Rightarrow> Some (newCacheOptions (opt_CompositionNamespace opts) (CompositionSelector opts))
      | KResourceSlice \<Rightarrow>
          Some ((newCacheOptions (opt_CompositionNamespace opts) (Some (mw_Everything w)))\<lparr>
            UnsafeDisableDeepCopy := True, Transform := Some slice_transform\<rparr>)
      | _ \<Rightarrow> None)"

fun index_all :: "mgr_world \<Rightarrow> (kind \<times> string) list \<Rightarrow> string + (kind \<times> string) list" where
  "index_all w [] = Inr []"
| "index_all w ((k, idx) # rest) =
     (case mw_IndexField w k idx of
        Some e \<Rightarrow> Inl e
      | None \<Rightarrow> (case index_all w rest of Inl e \<Rightarrow> Inl e | Inr done \<Rightarrow> Inr ((k, idx) # done)))"

definition controller_indices :: "(kind \<times> string) list" where
  "controller_indices =
     [(KPod, IdxPodsByComposition), (KComposition, IdxCompositionsBySynthesizer),
      (KComposition, IdxCompositionsBySymphony), (KComposition, IdxCompositionsByBinding),
      (KSynthesizer, IdxSynthesizersByRef), (KResourceSlice, IdxResourceSlicesByComposition)]"

definition newMgr :: "mgr_world \<Rightarrow> Options \<Rightarrow> bool \<Rightarrow> bool \<Rightarrow> string + mgr" where
  "newMgr w opts0 isController isReconciler =
     (let opts = opts0\<lparr>RestQPS := qps opts0\<rparr> in
      case mw_api_scheme w of
        Some e \<Rightarrow> Inl e
      | None \<Rightarrow>
          (case mw_core_scheme w of
             Some e \<Rightarrow> Inl e
           | None \<Rightarrow>
               let ratioStr = mw_getenv w ''CHAOS_RATIO'';
                   mo = \<lparr>mo_options = opts, mo_ReleaseOnCancel = True,
                         mo_chaos = (if ratioStr \<noteq> [] then Some ratioStr else None),
                         mo_ByObject = cache_config w opts isController\<rparr>
               in (case mw_NewManager w mo of
                     Some e \<Rightarrow> Inl e
                   | None \<Rightarrow>
                       (case index_all w (if isController then controller_indices else []) of
                          Inl e \<Rightarrow> Inl e
                        | Inr idx \<Rightarrow>
                            Inr \<lparr>m_options = mo, m_indices = idx, m_healthz = [''ping''], m_readyz = [''ping'']\<rparr>))))"

definition manager_New :: "mgr_world \<Rightarrow> Options \<Rightarrow> string + mgr" where
  "manager_New w opts = newMgr w opts True False"

definition NewReconciler :: "mgr_world \<Rightarrow> Options \<Rightarrow> string + mgr" where
  "NewReconciler w opts = newMgr w opts False True"

definition NewTest :: "mgr_world \<Rightarrow> Options \<Rightarrow> string + mgr" where
  "NewTest w opts = newMgr w opts True True"

section \<open>Event handlers\<close>

datatype comp_event = CreateEvent Composition | UpdateEvent Composition Composition | DeleteEvent Composition

text \<open>The requests that an event of a composition puts into the queue of a slice controller.\<close>

definition CompositionToResourceSliceHandler :: "(Composition \<Rightarrow> api_err option) \<Rightarrow> ResourceSlice list \<Rightarrow> comp_event \<Rightarrow> NamespacedName list" where
  "CompositionToResourceSliceHandler list_err slices ev =
     (let obj = (case ev of CreateEvent co \<Rightarrow> co | UpdateEvent _ new \<Rightarrow> new | DeleteEvent co \<Rightarrow> co) in
      case list_err obj of Some e \<Rightarrow> [] | None \<Rightarrow> comp_to_slices slices obj)"

definition SingleEventHandler :: "'o \<Rightarrow> NamespacedName list" where
  "SingleEventHandler o' = [\<lparr>nn_Namespace = [], nn_Name = []\<rparr>]"

section \<open>Lemmas\<close>

lemma index_all_Inr: "index_all w idxs = Inr done \<Longrightarrow> done = idxs"
  by (induction idxs arbitrary: "done") (auto split: option.splits sum.splits)

lemma newMgr_Inr:
  assumes "newMgr w opts isC isR = Inr m"
  shows "mo_ByObject (m_options m) = cache_config w (opts\<lparr>RestQPS := qps opts\<rparr>) isC"
    and "m_indices m = (if isC then controller_indices else [])"
  using assms
  by (auto simp: newMgr_def Let_def split: option.splits sum.splits if_splits dest: index_all_Inr)

lemma map_of_put_all:
  "map_of (put_all ov base) k =
     (case map_of (rev (case ov of None \<Rightarrow> [] | Some kvs \<Rightarrow> kvs)) k of None \<Rightarrow> map_of base k | Some v \<Rightarrow> Some v)"
proof (cases ov)
  case (Some kvs)
  have "map_of (fold (\<lambda>(k, v). AList.update k v) kvs base) k = (case map_of (rev kvs) k of None \<Rightarrow> map_of base k | Some v \<Rightarrow> Some v)"
    by (induction kvs arbitrary: base) (auto simp: update_conv' map_add_def split: option.splits)
  with Some show ?thesis by (simp add: put_all_def)
qed (simp add: put_all_def)

lemma pod_cache_scope:
  assumes "label_selectors (mw_SelectorFromSet w) (mw_Everything w)" and "informer watched"
    and "newMgr w opts True isR = Inr m" and "SynthesizerPodNamespace opts \<noteq> []"
  shows "watched (mo_ByObject (m_options m) KPod) ns ls \<longleftrightarrow>
     ns = SynthesizerPodNamespace opts \<and> label_value ls ManagerLabelKey = Some ManagerLabelValue"
  using informer.by_namespace [OF assms(2)] assms(4)
  by (auto simp: newMgr_Inr [OF assms(3)] cache_config_def matches_def label_selectors.from_set [OF assms(1)])

definition label_override :: "Synthesizer \<Rightarrow> string \<Rightarrow> string option" where
  "label_override syn k = map_of (rev (case po_Labels (SPodOverrides (synth_Spec syn)) of None \<Rightarrow> [] | Some kvs \<Rightarrow> kvs)) k"

lemma newPod_label_value:
  assumes "newPod cfg co syn = Inr pod"
  shows "label_value (Labels pod) ManagerLabelKey =
     (case label_override syn ManagerLabelKey of None \<Rightarrow> Some ManagerLabelValue | Some v \<Rightarrow> Some v)"
  using assms
  by (auto simp: newPod_def Let_def label_value_def label_override_def map_of_put_all pod_label_keys split: option.splits)

lemma pods_cached:
  assumes "label_selectors (mw_SelectorFromSet w) (mw_Everything w)" and "informer watched"
    and "manager_New w opts = Inr m" and "SynthesizerPodNamespace opts = PodNamespace cfg" "PodNamespace cfg \<noteq> []"
    and "newPod cfg co syn = Inr pod"
  shows "watched (mo_ByObject (m_options m) KPod) (Namespace pod) (Labels pod) \<longleftrightarrow>
     label_override syn ManagerLabelKey \<in> {None, Some ManagerLabelValue}"
proof -
  have "Namespace pod = PodNamespace cfg" using assms(6) by (auto simp: newPod_def Let_def split: option.splits)
  with pod_cache_scope [OF assms(1,2) assms(3) [unfolded manager_New_def]] assms(4,5) newPod_label_value [OF assms(6)]
  show ?thesis by (auto split: option.splits)
qed

definition sample_options :: Options where
  "sample_options = \<lparr>LeaderElection = False, LeaderElectionNamespace = [], LeaderElectionResourceLock = [],
     LeaderElectionID = [], ElectionLeaseDuration = 90 * second, ElectionLeaseRenewDeadline = 60 * second,
     RestBurst = 50, RestQPS = 0, RestUserAgent = ''eno'', HealthProbeAddr = '':8081'', MetricsAddr = '':8080'',
     SynthesizerPodNamespace = ''pods'', qps = 20, opt_CompositionNamespace = [], CompositionSelector = None\<rparr>"

definition sample_world_mgr :: mgr_world where
  "sample_world_mgr = \<lparr>mw_getenv = (\<lambda>_. []), mw_api_scheme = None, mw_core_scheme = None, mw_NewManager = (\<lambda>_. None),
     mw_IndexField = (\<lambda>_ _. None), mw_SelectorFromSet = set_selector, mw_Everything = no_restriction\<rparr>"

definition relabelled_synth :: Synthesizer where
  "relabelled_synth = sample_synth\<lparr>synth_Spec := (synth_Spec sample_synth)\<lparr>SPodOverrides :=
     (SPodOverrides (synth_Spec sample_synth))\<lparr>po_Labels := Some [(ManagerLabelKey, ''helm'')]\<rparr>\<rparr>\<rparr>"

lemma sample_mgr: "\<exists>m. manager_New sample_world_mgr sample_options = Inr m"
  by (simp add: manager_New_def newMgr_def sample_world_mgr_def controller_indices_def Let_def)

lemma relabelled_pod_hidden:
  "\<exists>m pod pod'. manager_New sample_world_mgr sample_options = Inr m \<and>
     newPod sample_config sample_comp sample_synth = Inr pod \<and> newPod sample_config sample_comp relabelled_synth = Inr pod' \<and>
     in_cache (mo_ByObject (m_options m) KPod) (Namespace pod) (Labels pod) \<and>
     \<not> in_cache (mo_ByObject (m_options m) KPod) (Namespace pod') (Labels pod')"
proof -
  obtain m where m: "manager_New sample_world_mgr sample_options = Inr m" using sample_mgr by blast
  obtain pod pod' where pods: "newPod sample_config sample_comp sample_synth = Inr pod"
    "newPod sample_config sample_comp relabelled_synth = Inr pod'"
    by (simp add: newPod_def sample_comp_def Let_def)
  have sel: "label_selectors (mw_SelectorFromSet sample_world_mgr) (mw_Everything sample_world_mgr)"
    using kube_selectors.label_selectors_axioms by (simp add: sample_world_mgr_def)
  have ns: "SynthesizerPodNamespace sample_options = PodNamespace sample_config" "PodNamespace sample_config \<noteq> []"
    by (simp_all add: sample_options_def sample_config_def)
  have "label_override sample_synth ManagerLabelKey = None" "label_override relabelled_synth ManagerLabelKey = Some ''helm''"
    by (simp_all add: label_override_def relabelled_synth_def sample_synth_def zero_Synthesizer_def)
  with m pods pods_cached [OF sel kube_informer.informer_axioms m ns pods(1)]
    pods_cached [OF sel kube_informer.informer_axioms m ns pods(2)] show ?thesis
    by (auto simp: ManagerLabelValue_def)
qed

section \<open>Fault injection\<close>

text \<open>A generator of random numbers below 1 that is not part of what the API server holds.\<close>

locale random_source =
  fixes Float64 :: "'s \<Rightarrow> rat \<times> 's" and api :: "'s \<Rightarrow> 'a"
  assumes unit_interval: "0 \<le> fst (Float64 s)" "fst (Float64 s) < 1"
    and api_untouched: "api (snd (Float64 s)) = api s"
begin

lemma chaos_call_cases:
  "(\<exists>s'. api s' = api s \<and> chaos_call Float64 ratio call obj s = (s', Some (OtherErr ''chaos!'')) \<and> 0 < ratio) \<or>
   (\<exists>s'. api s' = api s \<and> chaos_call Float64 ratio call obj s = call obj s' \<and> ratio < 1)"
  using unit_interval [of s] api_untouched [of s]
  by (cases "Float64 s") (auto simp: chaos_call_def not_less)

end

definition lcg :: "nat \<times> 'a \<Rightarrow> rat \<times> nat \<times> 'a" where
  "lcg s = (of_nat (fst s mod 10) / 10, (fst s * 7 + 3, snd s))"

interpretation lcg_source: random_source lcg snd
proof
  fix s :: "nat \<times> 'a"
  have "fst s mod 10 < 10" by simp
  then show "0 \<le> fst (lcg s)" "fst (lcg s) < 1" "snd (snd (lcg s)) = snd s"
    by (simp_all add: lcg_def)
qed

text \<open>
  The fault-injecting client only loses requests: each writing call either fails with the injected
  error before anything reaches the API server, which is impossible when the ratio is not positive, or is
  the call of the wrapped client on the same API state, which is impossible when the ratio is one or more.
  This holds for the six methods, those of the status writer included.
\<close>
theorem chaos_client_faithful:
  assumes "random_source Float64 api"
  shows "\<forall>m \<in> {cl_Create, cl_Delete, cl_Update, cl_Patch, status_Update, status_Patch}.
     (\<exists>s'. api s' = api s \<and> m (chaosClient Float64 ratio c) obj s = (s', Some (OtherErr ''chaos!'')) \<and> 0 < ratio) \<or>
     (\<exists>s'. api s' = api s \<and> m (chaosClient Float64 ratio c) obj s = m c obj s' \<and> ratio < 1)"
  by (simp add: chaosClient_def chaosStatusClient_def) (intro conjI; rule random_source.chaos_call_cases [OF assms])

theorem chaos_client_faithful_witness:
  "cl_Create (chaosClient lcg 0 \<lparr>cl_Create = (\<lambda>o' s. ((fst s, o' # snd s), None)), cl_Delete = (\<lambda>o' s. (s, None)),
      cl_Update = (\<lambda>o' s. (s, None)), cl_Patch = (\<lambda>o' s. (s, None)), status_Update = (\<lambda>o' s. (s, None)),
      status_Patch = (\<lambda>o' s. (s, None))\<rparr>) ''obj'' (5, [''old'']) = ((38, [''obj'', ''old'']), None)"
proof -
  let ?c = "\<lparr>cl_Create = (\<lambda>o' s. ((fst s, o' # snd s), None)), cl_Delete = (\<lambda>o' s. (s, None)),
      cl_Update = (\<lambda>o' s. (s, None)), cl_Patch = (\<lambda>o' s. (s, None)), status_Update = (\<lambda>o' s. (s, None)),
      status_Patch = (\<lambda>o' s. (s, None))\<rparr> :: (string, nat \<times> string list) client"
  from chaos_client_faithful [OF lcg_source.random_source_axioms, of "(5, [''old''])" 0 ?c "''obj''"]
  have "\<exists>s'. snd s' = [''old''] \<and> cl_Create (chaosClient lcg 0 ?c) ''obj'' (5, [''old'']) = cl_Create ?c ''obj'' s'" by simp
  then show ?thesis by (auto simp: chaosClient_def chaos_call_def lcg_def)
qed

end
