(* ===== verification/Commands.thy ===== *)
theory Commands
  imports Manager Synthesis_Lifecycle Executor
begin

text \<open>
  The two programs: \<open>cmd/eno-controller/main.go\<close>, which is also the installer and the executor inside
  synthesizer pods, and \<open>cmd/eno-reconciler/main.go\<close>, with the helper of \<open>internal/k8s\<close>. The model follows
  the start of each process: flags, checks of the configuration, construction of the manager and of the
  controllers in order, with every error path. What client-go, zap and controller-runtime answer on the
  way is an argument; a process that has started is the value \<open>Running\<close> or \<open>Reconciling\<close>.
\<close>

section \<open>Flags\<close>

definition fstr :: "(string \<Rightarrow> flag_value option) \<Rightarrow> string \<Rightarrow> string" where
  "fstr f n = (case f n of Some (VString s) \<Rightarrow> s | _ \<Rightarrow> [])"

definition fbool :: "(string \<Rightarrow> flag_value option) \<Rightarrow> string \<Rightarrow> bool" where
  "fbool f n = (case f n of Some (VBool b) \<Rightarrow> b | _ \<Rightarrow> False)"

definition fint :: "(string \<Rightarrow> flag_value option) \<Rightarrow> string \<Rightarrow> int" where
  "fint f n = (case f n of Some (VInt i) \<Rightarrow> i | _ \<Rightarrow> 0)"

definition fdur :: "(string \<Rightarrow> flag_value option) \<Rightarrow> string \<Rightarrow> duration" where
  "fdur f n = (case f n of Some (VDuration d) \<Rightarrow> d | _ \<Rightarrow> 0)"

definition ffloat :: "(string \<Rightarrow> flag_value option) \<Rightarrow> string \<Rightarrow> rat" where
  "ffloat f n = (case f n of Some (VFloat r) \<Rightarrow> r | _ \<Rightarrow> 0)"

definition controller_flags :: "(string \<Rightarrow> string) \<Rightarrow> flagset option" where
  "controller_flags getenv =
     Options_Bind getenv
       (fold (\<lambda>(n, v). flag_var n v)
         [(''slice-creation-qps'', VFloat 5),
          (''synthesizer-pod-namespace'', VString (getenv ''POD_NAMESPACE'')),
          (''executor-image'', VString (getenv ''EXECUTOR_IMAGE'')),
          (''synthesizer-pod-service-account'', VString []),
          (''container-creation-ttl'', VDuration (3 * second)),
          (''debug'', VBool True),
          (''watchdog-threshold'', VDuration (60 * second)),
          (''rollout-cooldown'', VDuration (60 * second)),
          (''dispatch-cooldown'', VDuration (100 * millisecond)),
          (''taint-toleration'', VString []),
          (''node-affinity'', VString []),
          (''concurrency-limit'', VInt 10)]
         (Some []))"

definition reconciler_flags :: "(string \<Rightarrow> string) \<Rightarrow> string \<Rightarrow> flagset option" where
  "reconciler_flags getenv everything =
     Options_Bind getenv
       (fold (\<lambda>(n, v). flag_var n v)
         [(''write-batch-interval'', VDuration (5 * second)),
          (''debug'', VBool True),
          (''remote-kubeconfig'', VString []),
          (''remote-qps'', VFloat 50),
          (''timeout'', VDuration (60 * second)),
          (''readiness-poll-interval'', VDuration (5 * second)),
          (''composition-label-selector'', VString everything),
          (''composition-namespace'', VString []),
          (''ns-creation-grace-period'', VDuration second),
          (''namespace-cleanup'', VBool True)]
         (Some []))"

text \<open>What the flags of \<open>Options.Bind\<close> leave in the options.\<close>

definition bound_options :: "(string \<Rightarrow> flag_value option) \<Rightarrow> string \<Rightarrow> Options" where
  "bound_options f userAgent =
     \<lparr>LeaderElection = fbool f ''leader-election'',
      LeaderElectionNamespace = fstr f ''leader-election-namespace'',
      LeaderElectionResourceLock = fstr f ''leader-election-resource-lock'',
      LeaderElectionID = fstr f ''leader-election-id'',
      ElectionLeaseDuration = fdur f ''leader-election-lease-duration'',
      ElectionLeaseRenewDeadline = fdur f ''leader-election-lease-renew-deadline'',
      RestBurst = fint f ''burst'', RestQPS = 0, RestUserAgent = userAgent,
      HealthProbeAddr = fstr f ''health-probe-addr'', MetricsAddr = fstr f ''metrics-addr'',
      SynthesizerPodNamespace = [], qps = ffloat f ''qps'',
      opt_CompositionNamespace = [], CompositionSelector = None\<rparr>"

section \<open>The controller process\<close>

definition parseKeyValue :: "string \<Rightarrow> string \<times> string" where
  "parseKeyValue input =
     (case SplitN2 (CHR ''='') input of
        key # val # _ \<Rightarrow> (key, val)
      | [key] \<Rightarrow> (key, [])
      | [] \<Rightarrow> ([], []))"

definition controller_config :: "(string \<Rightarrow> flag_value option) \<Rightarrow> Config" where
  "controller_config f =
     \<lparr>SliceCreationQPS = ffloat f ''slice-creation-qps'',
      ExecutorImage = fstr f ''executor-image'',
      PodNamespace = fstr f ''synthesizer-pod-namespace'',
      PodServiceAccount = fstr f ''synthesizer-pod-service-account'',
      TaintTolerationKey = fst (parseKeyValue (fstr f ''taint-toleration'')),
      TaintTolerationValue = snd (parseKeyValue (fstr f ''taint-toleration'')),
      NodeAffinityKey = fst (parseKeyValue (fstr f ''node-affinity'')),
      NodeAffinityValue = snd (parseKeyValue (fstr f ''node-affinity'')),
      ContainerCreationTimeout = fdur f ''container-creation-ttl''\<rparr>"

datatype controller =
    RolloutC duration | SynthesizerRolloutC | PodLifecycleC Config | SliceCleanupC | WatchdogC duration
  | SymphonyReplicationC | SymphonyAggregationC | CompositionAggregationC | SliceAggregationC | WatchC
  | LimiterC int duration

definition controllers :: "(string \<Rightarrow> flag_value option) \<Rightarrow> (controller \<times> string) list" where
  "controllers f =
     [(RolloutC (fdur f ''rollout-cooldown''), ''constructing rollout controller''),
      (SynthesizerRolloutC, ''constructing rollout controller''),
      (PodLifecycleC (controller_config f), ''constructing pod lifecycle controller''),
      (SliceCleanupC, ''constructing resource slice cleanup controller''),
      (WatchdogC (fdur f ''watchdog-threshold''), ''constructing watchdog controller''),
      (SymphonyReplicationC, ''constructing symphony replication controller''),
      (SymphonyAggregationC, ''constructing symphony aggregation controller''),
      (CompositionAggregationC, ''constructing composition status aggregation controller''),
      (SliceAggregationC, ''constructing status aggregation controller''),
      (WatchC, ''constructing watch controller''),
      (LimiterC (fint f ''concurrency-limit'') (fdur f ''dispatch-cooldown''), ''constructing synthesis concurrency limiter '')]"

fun construct :: "('c \<Rightarrow> string option) \<Rightarrow> ('c \<times> string) list \<Rightarrow> string option" where
  "construct new [] = None"
| "construct new ((c, msg) # rest) =
     (case new c of Some e \<Rightarrow> Some (msg @ '': '' @ e) | None \<Rightarrow> construct new rest)"

record cmd_world =
  cw_getenv :: "string \<Rightarrow> string"
  cw_parsers :: flag_parsers
  cw_mgr :: mgr_world
  cw_zap :: "bool \<Rightarrow> string option"
  cw_construct :: "controller \<Rightarrow> string option"

text \<open>
  How a process ends or goes on: \<open>Exit\<close> from \<open>flag.Parse\<close>, a panic, an error of \<open>run\<close>, which \<open>main\<close> turns
  into exit code 1, or a manager that is started with its controllers.
\<close>

datatype outcome = Exit int | Panics | Fails string | Running mgr "controller list"

definition flag_exit :: "flag_error \<Rightarrow> int" where
  "flag_exit e = (if e = ErrHelp then 0 else 2)"

definition runController :: "cmd_world \<Rightarrow> string list \<Rightarrow> outcome" where
  "runController w args =
     (case controller_flags (cw_getenv w) of
        None \<Rightarrow> Panics
      | Some defs \<Rightarrow>
          (case flag_Parse (cw_parsers w) defs args of
             Inl e \<Rightarrow> Exit (flag_exit e)
           | Inr f \<Rightarrow>
               let synconf = controller_config f in
               if ExecutorImage synconf = [] then Fails ''a value is required in --executor-image or EXECUTOR_IMAGE''
               else if PodNamespace synconf = [] then Fails ''a value is required in --synthesizer-pod-namespace or POD_NAMESPACE''
               else
                 let mgrOpts = (bound_options f ''eno-controller'')\<lparr>SynthesizerPodNamespace := PodNamespace synconf\<rparr> in
                 (case cw_zap w (fbool f ''debug'') of
                    Some e \<Rightarrow> Fails e
                  | None \<Rightarrow>
                      (case manager_New (cw_mgr w) mgrOpts of
                         Inl e \<Rightarrow> Fails (''constructing manager: '' @ e)
                       | Inr m \<Rightarrow>
                           (case construct (cw_construct w) (controllers f) of
                              Some e \<Rightarrow> Fails e
                            | None \<Rightarrow> Running m (map fst (controllers f)))))))"

section \<open>Installer and executor\<close>

text \<open>
  The file system as a map from paths to contents; \<open>io\<close> says whether opening, creating or copying a file
  fails. \<open>None\<close> is a panic.
\<close>

type_synonym files = "string \<rightharpoonup> string"

definition executor_path :: string where
  "executor_path = ''/eno/executor''"

definition installExecutor :: "(string \<Rightarrow> bool) \<Rightarrow> string \<Rightarrow> files \<Rightarrow> files option" where
  "installExecutor io self fs =
     (case fs self of
        None \<Rightarrow> None
      | Some content \<Rightarrow>
          if io executor_path then Some (fs(executor_path \<mapsto> (if self = executor_path then [] else content))) else None)"

text \<open>
  What the executor process calls before it runs the synthesizer, each with the error it answers, and the
  executor over the client that it builds. The first three errors panic, the last two end with code 1.
\<close>

record exec_world =
  ew_zap :: "string option"
  ew_HTTPClientFor :: "string option"
  ew_NewDynamicRESTMapper :: "string option"
  ew_scheme_Build :: "string option"
  ew_client_New :: "string option"
  ew_executor :: executor

text \<open>The requests the process sends and its exit code, \<open>None\<close> for a panic.\<close>

definition runExecutor :: "exec_world \<Rightarrow> (string \<Rightarrow> string) \<Rightarrow> request list \<times> int option" where
  "runExecutor w getenv =
     (if ew_zap w \<noteq> None then ([], None)
      else if ew_HTTPClientFor w \<noteq> None then ([], None)
      else if ew_NewDynamicRESTMapper w \<noteq> None then ([], None)
      else if ew_scheme_Build w \<noteq> None then ([], Some 1)
      else if ew_client_New w \<noteq> None then ([], Some 1)
      else (case Synthesize (ew_executor w) (LoadEnv getenv) of
              (rs, err) \<Rightarrow> (rs, Some (if err = None then 0 else 1))))"

datatype action = Install string | Execute | Control "string list"

definition controller_main :: "string list \<Rightarrow> action" where
  "controller_main args =
     (if length args > 1 \<and> args ! 1 = ''install-executor'' then Install (args ! 0)
      else if HasSuffix (args ! 0) ''executor'' then Execute
      else Control (tl args))"

section \<open>The reconciler process\<close>

definition GetRESTConfig :: "(string \<Rightarrow> string + string) \<Rightarrow> (string \<Rightarrow> string + 'c) \<Rightarrow> string \<Rightarrow> string + 'c" where
  "GetRESTConfig readFile fromKubeConfig filename =
     (case readFile filename of
        Inl e \<Rightarrow> Inl (''could not get read Kubeconfig file: '' @ e)
      | Inr b \<Rightarrow>
          (case fromKubeConfig b of
             Inl e \<Rightarrow> Inl (''could not get get Kubeconfig from file: '' @ e)
           | Inr cfg \<Rightarrow> Inr cfg))"

record rest_config =
  rc_Host :: string
  rc_QPS :: rat
  rc_RateLimiter :: "(rat \<times> int) option"

record rec_options =
  DiscoveryRPS :: rat
  ro_Timeout :: duration
  ReadinessPollInterval :: duration
  Downstream :: rest_config
  batchInterval :: duration
  burst :: int

record rec_world =
  rw_getenv :: "string \<Rightarrow> string"
  rw_parsers :: flag_parsers
  rw_mgr :: mgr_world
  rw_zap :: "bool \<Rightarrow> string option"
  rw_everything :: string
  rw_labels_Parse :: "string \<Rightarrow> string + selector"
  rw_liveness :: "int \<Rightarrow> duration \<Rightarrow> string option"
  rw_config :: "mgr \<Rightarrow> rest_config"
  rw_readFile :: "string \<Rightarrow> string + string"
  rw_fromKubeConfig :: "string \<Rightarrow> string + rest_config"
  rw_client_New :: "rest_config \<Rightarrow> string option"
  rw_NewDiscoveryClient :: "rest_config \<Rightarrow> string option"
  rw_reconstitution :: "string option"

text \<open>
  The constructor of the discovery cache, which keeps the client for the configuration it was made with:
  the copy that has the rate limiter is not used.
\<close>

definition discovery_NewCache :: "(rest_config \<Rightarrow> string option) \<Rightarrow> rest_config \<Rightarrow> rat \<Rightarrow> string + rest_config" where
  "discovery_NewCache newClient rc rps =
     (let conf = rc\<lparr>rc_RateLimiter := Some (rps, 1)\<rparr> in
      case newClient rc of Some e \<Rightarrow> Inl e | None \<Rightarrow> Inr rc)"

text \<open>The reconciliation controller, as far as its options go: its clients by their configurations.\<close>

record reconciliation_Controller =
  rcn_timeout :: duration
  rcn_readinessPollInterval :: duration
  rcn_upstream :: rest_config
  rcn_discovery :: rest_config

definition reconciliation_New :: "rec_world \<Rightarrow> rec_options \<Rightarrow> string + reconciliation_Controller" where
  "reconciliation_New w opts =
     (case rw_client_New w (Downstream opts) of
        Some e \<Rightarrow> Inl e
      | None \<Rightarrow>
          (case discovery_NewCache (rw_NewDiscoveryClient w) (Downstream opts) (DiscoveryRPS opts) of
             Inl e \<Rightarrow> Inl e
           | Inr disc \<Rightarrow>
               Inr \<lparr>rcn_timeout = ro_Timeout opts, rcn_readinessPollInterval = ReadinessPollInterval opts,
                    rcn_upstream = Downstream opts, rcn_discovery = disc\<rparr>))"

datatype rec_outcome =
    RExit int | RPanics | RFails string
  | Reconciling mgr "(int \<times> duration) option" rec_options reconciliation_Controller

definition composition_selector :: "rec_world \<Rightarrow> string \<Rightarrow> string + selector" where
  "composition_selector w s =
     (if s \<noteq> [] then
        (case rw_labels_Parse w s of Inl e \<Rightarrow> Inl (''invalid composition label selector: '' @ e) | Inr sel \<Rightarrow> Inr sel)
      else Inr (mw_Everything (rw_mgr w)))"

definition remote_config :: "rec_world \<Rightarrow> (string \<Rightarrow> flag_value option) \<Rightarrow> mgr \<Rightarrow> string + rest_config" where
  "remote_config w f m =
     (if fstr f ''remote-kubeconfig'' \<noteq> [] then
        (case GetRESTConfig (rw_readFile w) (rw_fromKubeConfig w) (fstr f ''remote-kubeconfig'') of
           Inl e \<Rightarrow> Inl e
         | Inr cfg \<Rightarrow> Inr (if ffloat f ''remote-qps'' \<noteq> 0 then cfg\<lparr>rc_QPS := ffloat f ''remote-qps''\<rparr> else cfg))
      else Inr (rw_config w m))"

definition run_remote :: "rec_world \<Rightarrow> (string \<Rightarrow> flag_value option) \<Rightarrow> mgr \<Rightarrow> (int \<times> duration) option \<Rightarrow> rec_outcome" where
  "run_remote w f m live =
     (case remote_config w f m of
        Inl e \<Rightarrow> RFails e
      | Inr cfg \<Rightarrow>
          let opts = \<lparr>DiscoveryRPS = 2, ro_Timeout = fdur f ''timeout'', ReadinessPollInterval = fdur f ''readiness-poll-interval'',
                      Downstream = cfg, batchInterval = fdur f ''write-batch-interval'', burst = 1\<rparr>
          in (case reconciliation_New w opts of
                Inl e \<Rightarrow> RFails (''constructing reconciliation controller: '' @ e)
              | Inr rc \<Rightarrow>
                  (case rw_reconstitution w of
                     Some e \<Rightarrow> RFails (''constructing reconstitution manager: '' @ e)
                   | None \<Rightarrow> Reconciling m live opts rc)))"

definition run_manager :: "rec_world \<Rightarrow> (string \<Rightarrow> flag_value option) \<Rightarrow> selector \<Rightarrow> rec_outcome" where
  "run_manager w f sel =
     (let mgrOpts = (bound_options f ''eno-reconciler'')\<lparr>opt_CompositionNamespace := fstr f ''composition-namespace'',
                      CompositionSelector := Some sel\<rparr>
      in case NewReconciler (rw_mgr w) mgrOpts of
           Inl e \<Rightarrow> RFails (''constructing manager: '' @ e)
         | Inr m \<Rightarrow>
             if fbool f ''namespace-cleanup'' then
               (case rw_liveness w 5 (fdur f ''ns-creation-grace-period'') of
                  Some e \<Rightarrow> RFails (''constructing namespace liveness controller: '' @ e)
                | None \<Rightarrow> run_remote w f m (Some (5, fdur f ''ns-creation-grace-period'')))
             else run_remote w f m None)"

definition run_reconciler :: "rec_world \<Rightarrow> string list \<Rightarrow> rec_outcome" where
  "run_reconciler w args =
     (case reconciler_flags (rw_getenv w) (rw_everything w) of
        None \<Rightarrow> RPanics
      | Some defs \<Rightarrow>
          (case flag_Parse (rw_parsers w) defs args of
             Inl e \<Rightarrow> RExit (flag_exit e)
           | Inr f \<Rightarrow>
               (case rw_zap w (fbool f ''debug'') of
                  Some e \<Rightarrow> RFails e
                | None \<Rightarrow>
                    (case composition_selector w (fstr f ''composition-label-selector'') of
                       Inl e \<Rightarrow> RFails e
                     | Inr sel \<Rightarrow> run_manager w f sel))))"

text \<open>\<open>main\<close> of the reconciler: what it prints on the error output, and how the process goes on.\<close>

definition reconciler_main :: "rec_world \<Rightarrow> string list \<Rightarrow> string list \<times> rec_outcome" where
  "reconciler_main w args =
     (case run_reconciler w args of
        RFails e \<Rightarrow> ([''error: '' @ e], RExit 1)
      | r \<Rightarrow> ([], r))"

section \<open>Lemmas\<close>

lemma reconciler_main_error:
  "fst (reconciler_main w args) \<noteq> [] \<longleftrightarrow> (\<exists>e. run_reconciler w args = RFails e)"
  by (simp add: reconciler_main_def split: rec_outcome.split)

lemma controller_flags_defined: "\<exists>defs. controller_flags getenv = Some defs \<and> distinct (map fst defs)"
  by (simp add: controller_flags_def Options_Bind_def flag_var_def Let_def)

lemma reconciler_flags_defined: "\<exists>defs. reconciler_flags getenv e = Some defs \<and> distinct (map fst defs)"
  by (simp add: reconciler_flags_def Options_Bind_def flag_var_def Let_def)

lemma construct_None: "construct new cs = None \<longleftrightarrow> (\<forall>c \<in> fst ` set cs. new c = None)"
  by (induction cs) (auto split: option.splits)

lemma runController_Running:
  assumes "runController w args = Running m cs"
  obtains defs f where "controller_flags (cw_getenv w) = Some defs" "flag_Parse (cw_parsers w) defs args = Inr f"
    "ExecutorImage (controller_config f) \<noteq> []" "PodNamespace (controller_config f) \<noteq> []" "cs = map fst (controllers f)"
    "manager_New (cw_mgr w) ((bound_options f ''eno-controller'')\<lparr>SynthesizerPodNamespace := PodNamespace (controller_config f)\<rparr>) = Inr m"
    "construct (cw_construct w) (controllers f) = None"
  using assms by (auto simp: runController_def Let_def split: option.splits sum.splits if_splits)

text \<open>
  The field indices by which the controllers of the controller process list objects (\<open>MatchingFields\<close>),
  the event handler of the slice cleanup included.
\<close>

definition field_reads :: "controller \<Rightarrow> (kind \<times> string) list" where
  "field_reads c =
     (case c of
        SynthesizerRolloutC \<Rightarrow> [(KComposition, IdxCompositionsBySynthesizer)]
      | PodLifecycleC cfg \<Rightarrow> [(KPod, IdxPodsByComposition)]
      | SliceCleanupC \<Rightarrow> [(KResourceSlice, IdxResourceSlicesByComposition)]
      | SymphonyReplicationC \<Rightarrow> [(KComposition, IdxCompositionsBySymphony)]
      | SymphonyAggregationC \<Rightarrow> [(KComposition, IdxCompositionsBySymphony)]
      | WatchC \<Rightarrow> [(KComposition, IdxCompositionsBySynthesizer), (KSynthesizer, IdxSynthesizersByRef),
                  (KComposition, IdxCompositionsByBinding)]
      | _ \<Rightarrow> [])"

lemma field_reads_registered: "set (field_reads c) \<subseteq> set controller_indices"
  by (cases c) (auto simp: field_reads_def controller_indices_def)


definition sample_parsers :: flag_parsers where
  "sample_parsers = \<lparr>fp_int = (\<lambda>s. if snd (ParseInt s) = None then Some (fst (ParseInt s)) else None),
     fp_duration = (\<lambda>s. None), fp_float = (\<lambda>s. None)\<rparr>"

definition sample_cmd_world :: cmd_world where
  "sample_cmd_world = \<lparr>cw_getenv = (\<lambda>n. if n = ''POD_NAMESPACE'' then ''pods'' else []), cw_parsers = sample_parsers,
     cw_mgr = sample_world_mgr, cw_zap = (\<lambda>_. None), cw_construct = (\<lambda>_. None)\<rparr>"

lemma sample_parse:
  "\<exists>defs f. controller_flags (cw_getenv sample_cmd_world) = Some defs \<and>
     flag_Parse sample_parsers defs [''--executor-image'', ''exec'', ''-debug=false''] = Inr f \<and>
     fstr f ''executor-image'' = ''exec'' \<and> fstr f ''synthesizer-pod-namespace'' = ''pods'' \<and> \<not> fbool f ''debug''"
  by (simp add: controller_flags_def Options_Bind_def flag_var_def Let_def sample_cmd_world_def flag_Parse_def
      parse_all.simps parseOne_def cut_value_def fstr_def fbool_def ParseBool_def)


lemma lc_deletes_listed:
  assumes "DeletePod p \<in> set (fst (lc_Reconcile cfg en cl req))"
  shows "\<exists>idx pods. lc_list_pods cl (PodNamespace cfg) idx = Inr pods \<and> p \<in> set pods"
proof -
  have first: "first_live_pod pods = Some q \<Longrightarrow> q \<in> set pods" for pods q
    by (induction pods) (auto split: if_splits)
  have chosen: "shouldDeletePod t co syn pods ttl = Inr (Some q, e) \<Longrightarrow> q \<in> set pods" for t co syn pods ttl q e
    by (auto simp: shouldDeletePod_def Let_def split: if_splits dest: check_pods_Some)
  have other: "DeletePod q \<notin> set (fst (synthesize cfg en cl co s))" "DeletePod q \<notin> set (fst (reconcileDeletedComposition en wr co))"
    for q co s wr
    by (auto simp: synthesize_def createPod_def reconcileDeletedComposition_def Let_def
        split: prod.splits bool.splits option.splits sum.splits if_splits)
  have "p \<in> set pods" if "DeletePod p \<in> set (fst (lc_with_pods cfg en cl co syn pods))" for co syn pods
    using that other by (auto simp: lc_with_pods_def split: sum.splits option.splits prod.splits if_splits dest: chosen)
  with assms first show ?thesis
    by (auto simp: lc_Reconcile_def deletePod_def split: sum.splits api_err.splits option.splits if_splits) blast+
qed

text \<open>
  A synthesizer that overrides the managed-by label makes its pods immortal: in a running controller
  process, whose lifecycle controller lists pods from its informer, no call of the handler ever deletes a
  pod with the labels and namespace that \<open>newPod\<close> gives to such a synthesizer's pods, whatever timeouts
  have passed and even after the composition is gone.
\<close>
theorem relabelled_pod_never_deleted:
  assumes "runController w args = Running m cs" and "informer watched"
    and "label_selectors (mw_SelectorFromSet (cw_mgr w)) (mw_Everything (cw_mgr w))"
    and "PodLifecycleC cfg \<in> set cs"
    and "newPod cfg co syn = Inr built" "Namespace pod = Namespace built" "Labels pod = Labels built"
    and "label_override syn ManagerLabelKey = Some v" "v \<noteq> ManagerLabelValue"
    and "\<forall>ns idx pods p. lc_list_pods cl ns idx = Inr pods \<and> p \<in> set pods \<longrightarrow>
      watched (mo_ByObject (m_options m) KPod) (Namespace p) (Labels p)"
  shows "DeletePod pod \<notin> set (fst (lc_Reconcile cfg en cl req))"
proof
  assume "DeletePod pod \<in> set (fst (lc_Reconcile cfg en cl req))"
  then have seen: "watched (mo_ByObject (m_options m) KPod) (Namespace built) (Labels built)"
    using lc_deletes_listed assms(6,7,10) by metis
  from runController_Running [OF assms(1)] obtain f where f:
    "PodNamespace (controller_config f) \<noteq> []" "cs = map fst (controllers f)"
    "manager_New (cw_mgr w) ((bound_options f ''eno-controller'')\<lparr>SynthesizerPodNamespace := PodNamespace (controller_config f)\<rparr>) = Inr m"
    by metis
  have "cfg = controller_config f" using assms(4) f(2) by (auto simp: controllers_def)
  with pods_cached [OF assms(3,2) f(3) _ f(1)] assms(5,8,9) seen show False by simp
qed

definition orphan_pod :: Pod where
  "orphan_pod = sample_pod\<lparr>Labels := Some (put_all (Some [(ManagerLabelKey, ''helm'')])
     [(CompositionNameLabelKey, ''comp''), (CompositionNamespaceLabelKey, ''ns''),
      (ManagerLabelKey, ManagerLabelValue), (SynthesisUUIDLabelKey, ''u1'')])\<rparr>"

definition managed_pod :: Pod where
  "managed_pod = sample_pod\<lparr>Labels := Some [(ManagerLabelKey, ManagerLabelValue)]\<rparr>"

definition gone_client :: lc_client where
  "gone_client = sample_lc_client\<lparr>lc_get_comp := (\<lambda>_. Inl NotFound), lc_list_pods := (\<lambda>_ _. Inr [managed_pod])\<rparr>"

theorem relabelled_pod_never_deleted_witness:
  "\<exists>cfg. PodNamespace cfg = ''pods'' \<and>
     DeletePod managed_pod \<in> set (fst (lc_Reconcile cfg sample_env gone_client (key_of sample_comp))) \<and>
     DeletePod orphan_pod \<notin> set (fst (lc_Reconcile cfg sample_env gone_client (key_of sample_comp)))"
proof -
  let ?args = "[''--executor-image'', ''exec'', ''-debug=false'']"
  obtain defs f where f: "controller_flags (cw_getenv sample_cmd_world) = Some defs"
    "flag_Parse sample_parsers defs ?args = Inr f" "fstr f ''executor-image'' = ''exec''" "fstr f ''synthesizer-pod-namespace'' = ''pods''"
    using sample_parse by blast
  let ?cfg = "controller_config f"
  obtain m where m: "runController sample_cmd_world ?args = Running m (map fst (controllers f))"
    using f by (auto simp: runController_def sample_cmd_world_def controller_config_def Let_def manager_New_def newMgr_def
        sample_world_mgr_def controller_indices_def controllers_def)
  have sel: "label_selectors (mw_SelectorFromSet (cw_mgr sample_cmd_world)) (mw_Everything (cw_mgr sample_cmd_world))"
    using kube_selectors.label_selectors_axioms by (simp add: sample_cmd_world_def sample_world_mgr_def)
  have cfg: "PodLifecycleC ?cfg \<in> set (map fst (controllers f))" "PodNamespace ?cfg = ''pods''"
    using f(4) by (simp_all add: controllers_def controller_config_def)
  obtain built where built: "newPod ?cfg sample_comp relabelled_synth = Inr built"
    by (simp add: newPod_def sample_comp_def Let_def)
  then have b: "Namespace orphan_pod = Namespace built" "Labels orphan_pod = Labels built"
    using cfg(2) by (auto simp: newPod_def Let_def orphan_pod_def relabelled_synth_def sample_comp_def sample_synthesis_def sample_pod_def)
  have ov: "label_override relabelled_synth ManagerLabelKey = Some ''helm''" "''helm'' \<noteq> ManagerLabelValue"
    by (simp_all add: label_override_def relabelled_synth_def sample_synth_def ManagerLabelValue_def)
  have "manager_New sample_world_mgr ((bound_options f ''eno-controller'')\<lparr>SynthesizerPodNamespace := ''pods''\<rparr>) = Inr m"
    using m f cfg(2) by (auto simp: runController_def sample_cmd_world_def Let_def split: sum.splits option.splits if_splits)
  from pod_cache_scope [OF _ kube_informer.informer_axioms this [unfolded manager_New_def]] sel
  have lists: "\<forall>ns idx pods p. lc_list_pods gone_client ns idx = Inr pods \<and> p \<in> set pods \<longrightarrow>
      in_cache (mo_ByObject (m_options m) KPod) (Namespace p) (Labels p)"
    by (auto simp: gone_client_def managed_pod_def sample_pod_def label_value_def sample_cmd_world_def)
  have "DeletePod managed_pod \<in> set (fst (lc_Reconcile ?cfg sample_env gone_client (key_of sample_comp)))"
    by (simp add: lc_Reconcile_def deletePod_def gone_client_def managed_pod_def sample_pod_def)
  with relabelled_pod_never_deleted [OF m kube_informer.informer_axioms sel cfg(1) built b ov lists] cfg(2)
  show ?thesis by blast
qed

text \<open>
  C31. The pod starts the right programs: the command of the init container is the installer, it leaves
  its own binary at the path that the executor container runs, both containers mount the same volume at
  the directory of that path, and the same program started from there is the executor, which runs
  the next attempt of the current synthesis of the composition, whatever variables the composition asks
  for, and exits with 0 exactly when this succeeds.
\<close>
theorem pod_bootstraps_executor:
  assumes "newPod cfg co syn = Inr pod" "current co = Some cur"
    and "ic = hd (InitContainers (pod_Spec pod))" "ec = hd (Containers (pod_Spec pod))"
    and "installExecutor io (hd (c_Command ic)) fs = Some fs'" "kubelet_env (Env ec) getenv"
    and "- int int64_cutoff \<le> Attempts cur + 1" "Attempts cur + 1 < int int64_cutoff"
    and "w = \<lparr>ew_zap = None, ew_HTTPClientFor = None, ew_NewDynamicRESTMapper = None, ew_scheme_Build = None,
         ew_client_New = None, ew_executor = ex\<rparr>"
  shows "controller_main (c_Command ic) = Install (hd (c_Command ic)) \<and>
     fs' (hd (c_Command ec)) = fs (hd (c_Command ic)) \<and> fs (hd (c_Command ic)) \<noteq> None \<and>
     controller_main (c_Command ec) = Execute \<and>
     VolumeMounts ic = VolumeMounts ec \<and> (\<exists>vm \<in> set (VolumeMounts ec). HasPrefix (hd (c_Command ec)) (MountPath vm @ ''/'')) \<and>
     c_Image ic = ExecutorImage cfg \<and>
     (\<exists>rs err. Synthesize ex \<lparr>CompositionName = Name co, CompositionNamespace = Namespace co,
          ee_SynthesisUUID = UUID cur, SynthesisAttempt = Attempts cur + 1\<rparr> = (rs, err) \<and>
        runExecutor w getenv = (rs, Some (if err = None then 0 else 1)))"
proof -
  have spec: "ic = hd (InitContainers (pod_spec cfg syn []))" "c_Command ec = [''/eno/executor'']"
    "VolumeMounts ec = [\<lparr>vm_Name = ''sharedfs'', MountPath = ''/eno''\<rparr>]"
    using assms(1-4) by (auto simp: newPod_def pod_spec_def Let_def)
  have "LoadEnv getenv = \<lparr>CompositionName = Name co, CompositionNamespace = Namespace co,
      ee_SynthesisUUID = UUID cur, SynthesisAttempt = Attempts cur + 1\<rparr>"
    using LoadEnv_newPod [OF assms(1,2)] assms(4,6-8) by simp
  then have "\<exists>rs err. Synthesize ex \<lparr>CompositionName = Name co, CompositionNamespace = Namespace co,
          ee_SynthesisUUID = UUID cur, SynthesisAttempt = Attempts cur + 1\<rparr> = (rs, err) \<and>
        runExecutor w getenv = (rs, Some (if err = None then 0 else 1))"
    by (simp add: runExecutor_def assms(9) case_prod_beta prod_eq_iff)
  moreover have "fs (hd (c_Command ic)) \<noteq> None" using assms(5) by (auto simp: installExecutor_def split: option.splits)
  ultimately show ?thesis
    using spec assms(5)
    by (auto simp: pod_spec_def controller_main_def installExecutor_def executor_path_def HasSuffix_def HasPrefix_def
        split: option.splits if_splits)
qed

theorem pod_bootstraps_executor_witness:
  "\<exists>pod fs' rs err. newPod sample_config hijack_comp sample_synth = Inr pod \<and>
     installExecutor (\<lambda>_. True) ''/eno-controller'' [''/eno-controller'' \<mapsto> ''ELF''] = Some fs' \<and>
     fs' (hd (c_Command (hd (Containers (pod_Spec pod))))) = Some ''ELF'' \<and>
     Synthesize sample_executor sample_exec_env = (rs, err) \<and>
     runExecutor \<lparr>ew_zap = None, ew_HTTPClientFor = None, ew_NewDynamicRESTMapper = None, ew_scheme_Build = None,
         ew_client_New = None, ew_executor = sample_executor\<rparr> hijack_getenv = (rs, Some (if err = None then 0 else 1))"
proof -
  obtain pod where pod: "newPod sample_config hijack_comp sample_synth = Inr pod"
    by (simp add: newPod_def hijack_comp_def sample_comp_def Let_def)
  note env = hijack_env [OF pod]
  have cmd: "hd (c_Command (hd (InitContainers (pod_Spec pod)))) = ''/eno-controller''"
    using pod by (auto simp: newPod_def pod_spec_def Let_def split: option.splits)
  obtain fs' where fs': "installExecutor (\<lambda>_. True) ''/eno-controller'' [''/eno-controller'' \<mapsto> ''ELF''] = Some fs'"
    by (simp add: installExecutor_def)
  have att: "- int int64_cutoff \<le> Attempts sample_synthesis + 1" "Attempts sample_synthesis + 1 < int int64_cutoff"
    by (simp_all add: sample_synthesis_def zero_Synthesis_def int64_cutoff_def)
  have e: "\<lparr>CompositionName = Name hijack_comp, CompositionNamespace = Namespace hijack_comp,
      ee_SynthesisUUID = UUID sample_synthesis, SynthesisAttempt = Attempts sample_synthesis + 1\<rparr> = sample_exec_env"
    by (simp add: hijack_comp_def sample_comp_def sample_exec_env_def sample_synthesis_def zero_Synthesis_def)
  note p = pod_bootstraps_executor [OF pod env(1) refl refl, unfolded cmd, OF fs' env(2) att refl, of sample_executor, unfolded e]
  then show ?thesis using pod fs' by auto
qed

section \<open>Flags come through\<close>

lemma parseKeyValue_pair: "CHR ''='' \<notin> set k \<Longrightarrow> parseKeyValue (k @ ''='' @ v) = (k, v)"
  using SplitN2_append [of "CHR ''=''" k v] by (simp add: parseKeyValue_def)

lemma parseKeyValue_key: "CHR ''='' \<notin> set k \<Longrightarrow> parseKeyValue k = (k, [])"
  by (simp add: parseKeyValue_def SplitN2_none)

text \<open>The scheduling constraints of the pods are those that the flags ask for, with or without a value.\<close>

lemma scheduling_flags:
  assumes "fstr f ''taint-toleration'' = k @ ''='' @ v" "fstr f ''node-affinity'' = k'"
    and "CHR ''='' \<notin> set k" "CHR ''='' \<notin> set k'" "k \<noteq> []" "v \<noteq> []" "k' \<noteq> []"
    and "newPod (controller_config f) co syn = Inr pod"
  shows "Tolerations (pod_Spec pod) = [\<lparr>tol_Key = k, tol_Operator = ''Equal'', tol_Value = v, tol_Effect = ''NoSchedule''\<rparr>] \<and>
     NodeAffinity (pod_Spec pod) = Some \<lparr>nsr_Key = k', nsr_Operator = ''Exists'', nsr_Values = []\<rparr>"
  using assms parseKeyValue_pair [OF assms(3), of v] parseKeyValue_key [OF assms(4)]
  by (auto simp: newPod_def pod_spec_def pod_tolerations_def pod_node_affinity_def controller_config_def Let_def split: option.splits)

lemma fold_assignments:
  assumes "distinct (map fst kvs)"
  shows "fold (\<lambda>(n, s) f. f(n := Option.bind (f n) (\<lambda>v. flag_Set ps v s))) kvs f0 n =
     (case map_of kvs n of None \<Rightarrow> f0 n | Some s \<Rightarrow> Option.bind (f0 n) (\<lambda>v. flag_Set ps v s))"
  using assms
proof (induction kvs arbitrary: f0)
  case (Cons kv kvs)
  obtain m s where kv: "kv = (m, s)" by force
  with Cons.prems have "map_of kvs m = None" by (simp add: map_of_eq_None_iff)
  with Cons kv show ?case by (auto split: option.splits)
qed simp

lemma controller_flag_names: "controller_flags getenv = Some defs \<Longrightarrow> n \<in> fst ` set defs \<Longrightarrow> flag_name n"
  by (auto simp: controller_flags_def Options_Bind_def flag_var_def Let_def flag_name_def)

text \<open>
  The command line is read back: for flags of the controller given once each in the form
  \<open>--name=value\<close> with acceptable values, parsing succeeds, each given flag has the converted value and
  every other flag its default.
\<close>
theorem command_line_roundtrip:
  assumes "controller_flags getenv = Some defs" and "distinct (map fst kvs)"
    and "list_all (\<lambda>(n, s). \<exists>v v'. map_of defs n = Some v \<and> flag_Set ps v s = Some v') kvs"
  shows "flag_Parse ps defs (map (\<lambda>(n, s). ''--'' @ n @ ''='' @ s) kvs) =
     Inr (\<lambda>n. case map_of kvs n of
            None \<Rightarrow> map_of defs n
          | Some s \<Rightarrow> Option.bind (map_of defs n) (\<lambda>v. flag_Set ps v s))"
proof -
  have "flag_name n \<and> (\<exists>v v'. map_of defs n = Some v \<and> flag_Set ps v s = Some v')" if "(n, s) \<in> set kvs" for n s
    using assms(3) that controller_flag_names [OF assms(1)] by (force simp: list_all_iff dest: map_of_SomeD)
  from parse_assignments [OF this] show ?thesis
    by (simp add: flag_Parse_def fold_assignments [OF assms(2)] fun_eq_iff)
qed

theorem command_line_roundtrip_witness:
  "\<exists>defs f. controller_flags (\<lambda>_. []) = Some defs \<and>
     flag_Parse sample_parsers defs [''--executor-image=a=b'', ''--concurrency-limit=3''] = Inr f \<and>
     f ''executor-image'' = Some (VString ''a=b'') \<and> f ''concurrency-limit'' = Some (VInt 3) \<and> f ''debug'' = Some (VBool True)"
proof -
  let ?kvs = "[(''executor-image'', ''a=b''), (''concurrency-limit'', ''3'')]"
  obtain defs where d: "controller_flags (\<lambda>_. []) = Some defs" "map_of defs ''executor-image'' = Some (VString [])"
    "map_of defs ''concurrency-limit'' = Some (VInt 10)" "map_of defs ''debug'' = Some (VBool True)"
    by (simp add: controller_flags_def Options_Bind_def flag_var_def Let_def)
  have three: "fp_int sample_parsers ''3'' = Some 3"
    by (simp add: sample_parsers_def ParseInt_def ParseUint_def max_uint64_def int64_cutoff_def)
  have "list_all (\<lambda>(n, s). \<exists>v v'. map_of defs n = Some v \<and> flag_Set sample_parsers v s = Some v') ?kvs"
    using d three by simp
  from command_line_roundtrip [OF d(1) _ this] d three show ?thesis by auto
qed

section \<open>What a reconciler handles\<close>

lemma run_reconciler_Reconciling:
  assumes "run_reconciler w args = Reconciling m live opts rc"
  obtains defs f sel where "reconciler_flags (rw_getenv w) (rw_everything w) = Some defs"
    "flag_Parse (rw_parsers w) defs args = Inr f"
    "composition_selector w (fstr f ''composition-label-selector'') = Inr sel"
    "NewReconciler (rw_mgr w) ((bound_options f ''eno-reconciler'')\<lparr>opt_CompositionNamespace := fstr f ''composition-namespace'',
       CompositionSelector := Some sel\<rparr>) = Inr m" "burst opts = 1" "batchInterval opts = fdur f ''write-batch-interval''"
    "rcn_discovery rc = Downstream opts"
  using assms
  by (auto simp: run_reconciler_def run_manager_def run_remote_def reconciliation_New_def discovery_NewCache_def Let_def split: option.splits sum.splits if_splits)

text \<open>
  The configured rate of the discovery cache has no effect: the discovery client of a running reconciler
  has the rate limiter that the downstream configuration came with.
\<close>
lemma discovery_not_limited:
  "run_reconciler w args = Reconciling m live opts rc \<Longrightarrow> rc_RateLimiter (rcn_discovery rc) = rc_RateLimiter (Downstream opts)"
  by (elim run_reconciler_Reconciling) simp

text \<open>
  A reconciler process handles the compositions it was asked to: its composition cache holds exactly
  the compositions of the configured namespace, or of all namespaces when none is given, that the label
  selector selects; its slice cache holds every slice of that namespace, without manifests.
\<close>
theorem reconciler_scope:
  assumes "run_reconciler w args = Reconciling m live opts rc" and "informer watched"
    and "label_selectors (mw_SelectorFromSet (rw_mgr w)) (mw_Everything (rw_mgr w))"
  shows "\<exists>defs f sel. reconciler_flags (rw_getenv w) (rw_everything w) = Some defs \<and> flag_Parse (rw_parsers w) defs args = Inr f \<and>
     composition_selector w (fstr f ''composition-label-selector'') = Inr sel \<and>
     (let scope = fstr f ''composition-namespace'' in
      watched (mo_ByObject (m_options m) KComposition) ns ls = ((scope = [] \<or> ns = scope) \<and> sel ls) \<and>
      watched (mo_ByObject (m_options m) KResourceSlice) ns ls = (scope = [] \<or> ns = scope)) \<and>
     Option.bind (mo_ByObject (m_options m) KResourceSlice) Transform = Some slice_transform"
proof -
  from run_reconciler_Reconciling [OF assms(1)] obtain defs f sel where f:
    "reconciler_flags (rw_getenv w) (rw_everything w) = Some defs" "flag_Parse (rw_parsers w) defs args = Inr f"
    "composition_selector w (fstr f ''composition-label-selector'') = Inr sel"
    "NewReconciler (rw_mgr w) ((bound_options f ''eno-reconciler'')\<lparr>opt_CompositionNamespace := fstr f ''composition-namespace'',
       CompositionSelector := Some sel\<rparr>) = Inr m" by metis
  note cfg = newMgr_Inr(1) [OF f(4) [unfolded NewReconciler_def]]
  let ?ns = "fstr f ''composition-namespace''"
  have "watched (mo_ByObject (m_options m) KComposition) ns ls = ((?ns = [] \<or> ns = ?ns) \<and> sel ls)"
    using informer.newCacheOptions_watched [OF assms(2), of "newCacheOptions ?ns (Some sel)" ?ns "Some sel" ns ls]
    by (simp add: cfg cache_config_def matches_def)
  moreover have "watched (mo_ByObject (m_options m) KResourceSlice) ns ls = (?ns = [] \<or> ns = ?ns)"
    using informer.newCacheOptions_watched [OF assms(2), of "(newCacheOptions ?ns (Some (mw_Everything (rw_mgr w))))\<lparr>
        UnsafeDisableDeepCopy := True, Transform := Some slice_transform\<rparr>" ?ns "Some (mw_Everything (rw_mgr w))" ns ls]
      label_selectors.everything [OF assms(3)]
    by (simp add: cfg cache_config_def matches_def)
  ultimately show ?thesis using f(1-3) by (simp add: cfg cache_config_def)
qed

definition sample_rec_world :: rec_world where
  "sample_rec_world = \<lparr>rw_getenv = (\<lambda>_. []), rw_parsers = sample_parsers, rw_mgr = sample_world_mgr, rw_zap = (\<lambda>_. None),
     rw_everything = [], rw_labels_Parse = (\<lambda>s. Inr (set_selector [parseKeyValue s])), rw_liveness = (\<lambda>_ _. None),
     rw_config = (\<lambda>_. \<lparr>rc_Host = ''local'', rc_QPS = 20, rc_RateLimiter = None\<rparr>), rw_readFile = Inl, rw_fromKubeConfig = Inl,
     rw_client_New = (\<lambda>_. None), rw_NewDiscoveryClient = (\<lambda>_. None), rw_reconstitution = None\<rparr>"

lemma sample_reconciler_flags:
  "\<exists>defs f. reconciler_flags (\<lambda>_. []) [] = Some defs \<and>
     flag_Parse sample_parsers defs [''--composition-namespace=tenant'', ''--composition-label-selector'', ''app=web''] = Inr f \<and>
     fstr f ''composition-namespace'' = ''tenant'' \<and> fstr f ''composition-label-selector'' = ''app=web'' \<and>
     fstr f ''remote-kubeconfig'' = [] \<and> fbool f ''namespace-cleanup''"
  by (simp add: reconciler_flags_def Options_Bind_def flag_var_def Let_def flag_Parse_def
      parse_all.simps parseOne_def cut_value_def fstr_def fbool_def)

theorem reconciler_scope_witness:
  "\<exists>m live opts rc. run_reconciler sample_rec_world [''--composition-namespace=tenant'', ''--composition-label-selector'', ''app=web''] =
       Reconciling m live opts rc \<and>
     in_cache (mo_ByObject (m_options m) KComposition) ''tenant'' (Some [(''app'', ''web'')]) \<and>
     \<not> in_cache (mo_ByObject (m_options m) KComposition) ''tenant'' None \<and>
     in_cache (mo_ByObject (m_options m) KResourceSlice) ''tenant'' None"
proof -
  let ?args = "[''--composition-namespace=tenant'', ''--composition-label-selector'', ''app=web'']"
  obtain defs f where f: "reconciler_flags (\<lambda>_. []) [] = Some defs" "flag_Parse sample_parsers defs ?args = Inr f"
    "fstr f ''composition-namespace'' = ''tenant''" "fstr f ''composition-label-selector'' = ''app=web''"
    "fstr f ''remote-kubeconfig'' = []" "fbool f ''namespace-cleanup''"
    using sample_reconciler_flags by blast
  obtain m live opts rc where r: "run_reconciler sample_rec_world ?args = Reconciling m live opts rc"
    using f by (auto simp: run_reconciler_def run_manager_def run_remote_def remote_config_def composition_selector_def
        reconciliation_New_def discovery_NewCache_def sample_rec_world_def NewReconciler_def newMgr_def sample_world_mgr_def Let_def)
  have sel: "label_selectors (mw_SelectorFromSet (rw_mgr sample_rec_world)) (mw_Everything (rw_mgr sample_rec_world))"
    using kube_selectors.label_selectors_axioms by (simp add: sample_rec_world_def sample_world_mgr_def)
  have parsed: "parseKeyValue ''app=web'' = (''app'', ''web'')" by (simp add: parseKeyValue_def)
  note scope = reconciler_scope [OF r kube_informer.informer_axioms sel]
  have "in_cache (mo_ByObject (m_options m) KComposition) ''tenant'' (Some [(''app'', ''web'')])"
    "\<not> in_cache (mo_ByObject (m_options m) KComposition) ''tenant'' None"
    "in_cache (mo_ByObject (m_options m) KResourceSlice) ''tenant'' None"
    using scope [of "''tenant''" "Some [(''app'', ''web'')]"] scope [of "''tenant''" None] f parsed
    by (auto simp: sample_rec_world_def composition_selector_def set_selector_def label_value_def Let_def)
  with r show ?thesis by blast
qed

end
