(* ===== verification/Watch_Events.thy ===== *)
theory Watch_Events
  imports Watch
begin

text \<open>
  How the kind watch controllers come to run and to be asked (\<open>controllers/watch/kind.go\<close>,
  \<open>watch.go\<close>): the functions that map events of compositions and synthesizers to requests, which are
  closures that share one error variable and run in different goroutines, and the life of the
  controllers' own goroutines, which the watch controller starts and cancels. \<open>Watch\<close> holds the
  handlers themselves.
\<close>

section \<open>Requests for an event\<close>

lemma buildRequests_fold:
  assumes "distinct acc"
  shows "distinct (fold (\<lambda>b reqs. if b_Key b \<notin> K then reqs
        else (let nsn = f b in if nsn \<in> set reqs then reqs else reqs @ [nsn])) bs acc) \<and>
     set (fold (\<lambda>b reqs. if b_Key b \<notin> K then reqs
        else (let nsn = f b in if nsn \<in> set reqs then reqs else reqs @ [nsn])) bs acc) =
     set acc \<union> f ` {b \<in> set bs. b_Key b \<in> K}"
  using assms
proof (induction bs arbitrary: acc)
  case (Cons b bs)
  show ?case
  proof (cases "b_Key b \<in> K \<and> f b \<notin> set acc")
    case True
    then have "distinct (acc @ [f b])" using Cons.prems by simp
    from Cons.IH [OF this] True show ?thesis by (auto simp: Let_def)
  next
    case False
    then show ?thesis using Cons.IH [OF Cons.prems] by (auto simp: Let_def)
  qed
qed simp

definition input_name :: "Binding \<Rightarrow> NamespacedName" where
  "input_name b = \<lparr>nn_Namespace = rb_Namespace (b_Resource b), nn_Name = rb_Name (b_Resource b)\<rparr>"

definition referenced_inputs :: "Synthesizer \<Rightarrow> Composition \<Rightarrow> NamespacedName set" where
  "referenced_inputs synth co =
     input_name ` {b \<in> set (Bindings (comp_Spec co)). b_Key b \<in> ref_Key ` set (Refs (synth_Spec synth))}"

lemma buildRequests_named:
  "buildRequests synth comps =
     fold (\<lambda>b reqs. if b_Key b \<notin> ref_Key ` set (Refs (synth_Spec synth)) then reqs
        else (let nsn = input_name b in if nsn \<in> set reqs then reqs else reqs @ [nsn]))
       (concat (map (\<lambda>co. Bindings (comp_Spec co)) comps)) []"
  by (simp only: buildRequests_def input_name_def)

lemma buildRequests_spec:
  "distinct (buildRequests synth comps)"
  "set (buildRequests synth comps) = (\<Union>co \<in> set comps. referenced_inputs synth co)"
proof -
  note fold = buildRequests_fold [of "[]" "ref_Key ` set (Refs (synth_Spec synth))" input_name
      "concat (map (\<lambda>co. Bindings (comp_Spec co)) comps)", folded buildRequests_named]
  show "distinct (buildRequests synth comps)" using fold by simp
  have "{b \<in> set (concat (map (\<lambda>co. Bindings (comp_Spec co)) comps)). b_Key b \<in> ref_Key ` set (Refs (synth_Spec synth))} =
      (\<Union>co \<in> set comps. {b \<in> set (Bindings (comp_Spec co)). b_Key b \<in> ref_Key ` set (Refs (synth_Spec synth))})"
    by auto
  with fold show "set (buildRequests synth comps) = (\<Union>co \<in> set comps. referenced_inputs synth co)"
    by (simp only: referenced_inputs_def image_UN list.set distinct.simps simp_thms Un_empty_left)
qed

text \<open>
  What the closures read. \<open>Get\<close> and \<open>List\<close> fill an object that is empty when they fail.
\<close>

record map_reads =
  mr_get_synth :: "string \<Rightarrow> api_err + Synthesizer"
  mr_list_comps :: "string \<Rightarrow> api_err + Composition list"

datatype watch_event = CompositionEvent Composition | SynthesizerEvent Synthesizer

text \<open>The closures as they run alone.\<close>

definition composition_requests :: "map_reads \<Rightarrow> Composition \<Rightarrow> NamespacedName list" where
  "composition_requests rd co =
     (if SynthesizerName (comp_Spec co) = [] then []
      else (case mr_get_synth rd (SynthesizerName (comp_Spec co)) of
              Inl e \<Rightarrow> []
            | Inr synth \<Rightarrow> buildRequests synth [co]))"

definition synthesizer_requests :: "map_reads \<Rightarrow> Synthesizer \<Rightarrow> NamespacedName list" where
  "synthesizer_requests rd synth =
     (case mr_list_comps rd (Name synth) of
        Inl e \<Rightarrow> []
      | Inr comps \<Rightarrow> buildRequests synth comps)"

fun event_requests :: "map_reads \<Rightarrow> watch_event \<Rightarrow> NamespacedName list" where
  "event_requests rd (CompositionEvent co) = composition_requests rd co"
| "event_requests rd (SynthesizerEvent synth) = synthesizer_requests rd synth"

section \<open>The shared error variable\<close>

text \<open>
  Both closures assign the variable \<open>err\<close> of the function that registers them instead of one of their
  own. A closure is therefore two steps, in between which another one may run: the read, which assigns
  the variable, and the check of the variable, after which it returns. (An assignment is atomic here;
  the memory model of Go does not even promise that.)
\<close>

datatype closure =
    Called watch_event
  | Read Synthesizer "Composition list"
  | Returned "NamespacedName list"

fun read_fails :: "map_reads \<Rightarrow> watch_event \<Rightarrow> bool" where
  "read_fails rd (CompositionEvent co) \<longleftrightarrow>
     SynthesizerName (comp_Spec co) \<noteq> [] \<and> isl (mr_get_synth rd (SynthesizerName (comp_Spec co)))"
| "read_fails rd (SynthesizerEvent synth) \<longleftrightarrow> isl (mr_list_comps rd (Name synth))"

fun call_closure :: "map_reads \<Rightarrow> watch_event \<Rightarrow> api_err option \<Rightarrow> api_err option \<times> closure" where
  "call_closure rd (CompositionEvent co) err =
     (if SynthesizerName (comp_Spec co) = [] then (err, Returned [])
      else (case mr_get_synth rd (SynthesizerName (comp_Spec co)) of
              Inl e \<Rightarrow> (Some e, Read zero_Synthesizer [co])
            | Inr synth \<Rightarrow> (None, Read synth [co])))"
| "call_closure rd (SynthesizerEvent synth) err =
     (case mr_list_comps rd (Name synth) of
        Inl e \<Rightarrow> (Some e, Read synth [])
      | Inr comps \<Rightarrow> (None, Read synth comps))"

definition check_closure :: "api_err option \<Rightarrow> Synthesizer \<Rightarrow> Composition list \<Rightarrow> closure" where
  "check_closure err synth comps = Returned (if err \<noteq> None then [] else buildRequests synth comps)"

text \<open>The variable and the running closures; a schedule says which closure takes the next step.\<close>

type_synonym closures = "api_err option \<times> closure list"

definition closure_step :: "map_reads \<Rightarrow> nat \<Rightarrow> closures \<Rightarrow> closures" where
  "closure_step rd i s =
     (case s of (err, cs) \<Rightarrow>
        if i < length cs then
          (case cs ! i of
             Called ev \<Rightarrow> (case call_closure rd ev err of (err', c) \<Rightarrow> (err', cs[i := c]))
           | Read synth comps \<Rightarrow> (err, cs[i := check_closure err synth comps])
           | Returned reqs \<Rightarrow> (err, cs))
        else (err, cs))"

definition run_schedule :: "map_reads \<Rightarrow> nat list \<Rightarrow> watch_event list \<Rightarrow> closures" where
  "run_schedule rd sched evs = fold (closure_step rd) sched (None, map Called evs)"

subsection \<open>Lemmas\<close>

lemma buildRequests_empty [simp]: "buildRequests synth [] = []"
  by (simp add: buildRequests_def)

lemma buildRequests_zero [simp]: "buildRequests zero_Synthesizer comps = []"
  using buildRequests_spec(2) [of zero_Synthesizer comps] by (simp add: referenced_inputs_def zero_Synthesizer_def)

lemma failed_read: "read_fails rd ev \<Longrightarrow> \<exists>e c. call_closure rd ev err = (Some e, c)"
  by (cases ev) (auto split: sum.splits)

lemma successful_read:
  "event_requests rd ev \<noteq> [] \<Longrightarrow> \<exists>synth comps. call_closure rd ev err = (None, Read synth comps)"
  by (cases ev) (auto simp: composition_requests_def synthesizer_requests_def split: sum.splits if_splits)

text \<open>What a closure holds: the requests it would return unless it sees an error.\<close>

fun pending :: "map_reads \<Rightarrow> watch_event \<Rightarrow> closure \<Rightarrow> bool" where
  "pending rd ev (Called ev') \<longleftrightarrow> ev' = ev"
| "pending rd ev (Read synth comps) \<longleftrightarrow> buildRequests synth comps = event_requests rd ev"
| "pending rd ev (Returned reqs) \<longleftrightarrow> reqs = event_requests rd ev"

fun settled :: "map_reads \<Rightarrow> watch_event \<Rightarrow> closure \<Rightarrow> bool" where
  "settled rd ev (Returned reqs) \<longleftrightarrow> reqs \<in> {[], event_requests rd ev}"
| "settled rd ev c \<longleftrightarrow> pending rd ev c"

lemma call_closure_pending: "call_closure rd ev err = (err', c) \<Longrightarrow> pending rd ev c \<and> (read_fails rd ev \<or> err' = None \<or> err' = err)"
  by (cases ev) (auto simp: composition_requests_def synthesizer_requests_def split: sum.splits if_splits)

lemma check_closure_settled: "pending rd ev (Read synth comps) \<Longrightarrow> settled rd ev (check_closure err synth comps)"
  by (simp add: check_closure_def)

lemma pending_settled: "pending rd ev c \<Longrightarrow> settled rd ev c"
  by (cases c) auto

lemma call_closure_settled: "call_closure rd ev err = (err', c) \<Longrightarrow> settled rd ev c"
  using call_closure_pending pending_settled by blast

lemma all_upd: "list_all2 P evs cs \<Longrightarrow> P (evs ! i) c \<Longrightarrow> list_all2 P evs (cs[i := c])"
  using list_all2_update_cong [of P evs cs "evs ! i" c i] by simp

lemma closure_step_settled:
  assumes "list_all2 (settled rd) evs (snd s)"
  shows "list_all2 (settled rd) evs (snd (closure_step rd i s))"
proof (cases "i < length (snd s)")
  case True
  have len: "length (snd s) = length evs" using assms by (simp add: list_all2_lengthD)
  with True assms have si: "settled rd (evs ! i) (snd s ! i)" by (simp add: list_all2_conv_all_nth)
  show ?thesis
  proof (cases "snd s ! i")
    case (Called ev)
    then have "ev = evs ! i" using si by simp
    with Called True show ?thesis
      by (auto simp: closure_step_def case_prod_beta intro!: all_upd [OF assms] call_closure_settled [of rd _ "fst s"] prod.collapse [symmetric])
  next
    case (Read synth comps)
    with si have "settled rd (evs ! i) (check_closure (fst s) synth comps)" by (intro check_closure_settled) simp
    with Read True show ?thesis by (simp add: closure_step_def case_prod_beta all_upd [OF assms])
  qed (simp add: closure_step_def case_prod_beta True assms)
qed (simp add: closure_step_def case_prod_beta assms)

lemma closure_step_pending:
  assumes "list_all2 (pending rd) evs (snd s)" "fst s = None" "\<forall>ev \<in> set evs. \<not> read_fails rd ev"
  shows "list_all2 (pending rd) evs (snd (closure_step rd i s)) \<and> fst (closure_step rd i s) = None"
proof (cases "i < length (snd s)")
  case True
  have len: "length (snd s) = length evs" using assms(1) by (simp add: list_all2_lengthD)
  with True assms(1) have si: "pending rd (evs ! i) (snd s ! i)" by (simp add: list_all2_conv_all_nth)
  show ?thesis
  proof (cases "snd s ! i")
    case (Called ev)
    then have ev: "ev = evs ! i" using si by simp
    obtain err' c where c: "call_closure rd ev (fst s) = (err', c)" by force
    from call_closure_pending [OF c] assms(2,3) True len ev have "pending rd (evs ! i) c" "err' = None" by auto
    with Called True c show ?thesis by (simp add: closure_step_def case_prod_beta all_upd [OF assms(1)])
  next
    case (Read synth comps)
    with si have "pending rd (evs ! i) (check_closure (fst s) synth comps)" by (simp add: check_closure_def assms(2))
    with Read True assms(2) show ?thesis by (simp add: closure_step_def case_prod_beta all_upd [OF assms(1)])
  qed (simp add: closure_step_def case_prod_beta True assms)
qed (simp add: closure_step_def case_prod_beta assms)

lemma run_settled: "list_all2 (settled rd) evs (snd (run_schedule rd sched evs))"
proof -
  have "list_all2 (settled rd) evs (snd s) \<Longrightarrow> list_all2 (settled rd) evs (snd (fold (closure_step rd) sched s))" for s
    by (induction sched arbitrary: s) (simp_all add: closure_step_settled)
  then show ?thesis by (simp add: run_schedule_def list_all2_conv_all_nth)
qed

lemma run_pending:
  assumes "\<forall>ev \<in> set evs. \<not> read_fails rd ev"
  shows "list_all2 (pending rd) evs (snd (run_schedule rd sched evs))"
proof -
  have "list_all2 (pending rd) evs (snd s) \<Longrightarrow> fst s = None \<Longrightarrow> list_all2 (pending rd) evs (snd (fold (closure_step rd) sched s))" for s
    by (induction sched arbitrary: s) (simp_all add: closure_step_pending assms)
  then show ?thesis by (simp add: run_schedule_def list_all2_conv_all_nth)
qed

lemma overlapping_failure:
  assumes "i < length evs" "j < length evs" "i \<noteq> j" "event_requests rd (evs ! i) \<noteq> []" "read_fails rd (evs ! j)"
  shows "snd (run_schedule rd [i, j, i] evs) ! i = Returned []"
proof -
  from successful_read [OF assms(4)] obtain synth comps where i: "call_closure rd (evs ! i) None = (None, Read synth comps)" by blast
  from failed_read [OF assms(5)] obtain e c where j: "call_closure rd (evs ! j) None = (Some e, c)" by blast
  show ?thesis using assms(1-3) i j by (simp add: run_schedule_def closure_step_def check_closure_def)
qed

text \<open>The steps a closure still has to take.\<close>

fun steps_left :: "closure \<Rightarrow> nat" where
  "steps_left (Called ev) = 2"
| "steps_left (Read synth comps) = 1"
| "steps_left (Returned reqs) = 0"

lemma call_steps_left: "call_closure rd ev err = (err', c) \<Longrightarrow> steps_left c \<le> 1"
  by (cases ev) (auto split: sum.splits if_splits)

lemma closure_step_length [simp]: "length (snd (closure_step rd i s)) = length (snd s)"
  by (auto simp: closure_step_def split: prod.splits closure.splits)

lemma closure_step_other: "j \<noteq> i \<Longrightarrow> snd (closure_step rd j s) ! i = snd s ! i"
  by (auto simp: closure_step_def split: prod.splits closure.splits)

lemma closure_step_progress:
  "i < length (snd s) \<Longrightarrow> steps_left (snd (closure_step rd i s) ! i) \<le> steps_left (snd s ! i) - 1"
  using call_steps_left by (fastforce simp: closure_step_def check_closure_def split: prod.splits closure.splits)

lemma run_steps_left:
  "i < length (snd s) \<Longrightarrow> steps_left (snd (fold (closure_step rd) sched s) ! i) \<le> steps_left (snd s ! i) - count_list sched i"
proof (induction sched arbitrary: s)
  case (Cons j sched)
  have "i < length (snd (closure_step rd j s))" using Cons.prems by simp
  from Cons.IH [OF this] show ?case
    using closure_step_progress [OF Cons.prems, of rd] closure_step_other [of j i rd s]
    by (cases "j = i") auto
qed simp

lemma run_returns:
  assumes "i < length evs" "2 \<le> count_list sched i"
  shows "\<exists>reqs. snd (run_schedule rd sched evs) ! i = Returned reqs"
proof -
  have "steps_left (snd (run_schedule rd sched evs) ! i) = 0"
    using run_steps_left [of i "(None, map Called evs)" rd sched] assms by (simp add: run_schedule_def)
  then show ?thesis by (cases "snd (run_schedule rd sched evs) ! i") simp_all
qed

text \<open>
  Events of compositions and synthesizers under every interleaving of their handlers: a handler
  that got its two steps has returned, and asks for exactly the inputs of its event or for nothing; when
  no read fails it never asks for nothing instead. But because the handlers share one error variable,
  the failed read of one event can make the handler of another event, whose own read succeeded, drop
  its requests.
\<close>
theorem event_interleavings:
  assumes i: "i < length evs" and sched: "2 \<le> count_list sched i"
  shows "(\<exists>reqs. snd (run_schedule rd sched evs) ! i = Returned reqs \<and>
       reqs \<in> {[], event_requests rd (evs ! i)} \<and>
       ((\<forall>ev \<in> set evs. \<not> read_fails rd ev) \<longrightarrow> reqs = event_requests rd (evs ! i))) \<and>
     (event_requests rd (evs ! i) \<noteq> [] \<and> (\<exists>j < length evs. j \<noteq> i \<and> read_fails rd (evs ! j)) \<longrightarrow>
        (\<exists>sched'. 2 \<le> count_list sched' i \<and> snd (run_schedule rd sched' evs) ! i = Returned []))"
proof (intro conjI impI)
  from run_returns [OF i sched] obtain reqs where r: "snd (run_schedule rd sched evs) ! i = Returned reqs" by blast
  have "settled rd (evs ! i) (Returned reqs)"
    using list_all2_nthD [OF run_settled i, of rd sched] r by simp
  moreover have "(\<forall>ev \<in> set evs. \<not> read_fails rd ev) \<longrightarrow> pending rd (evs ! i) (Returned reqs)"
    using list_all2_nthD [OF run_pending i, of rd sched] r by auto
  ultimately show "\<exists>reqs. snd (run_schedule rd sched evs) ! i = Returned reqs \<and>
       reqs \<in> {[], event_requests rd (evs ! i)} \<and>
       ((\<forall>ev \<in> set evs. \<not> read_fails rd ev) \<longrightarrow> reqs = event_requests rd (evs ! i))"
    using r by auto
next
  assume "event_requests rd (evs ! i) \<noteq> [] \<and> (\<exists>j < length evs. j \<noteq> i \<and> read_fails rd (evs ! j))"
  then obtain j where "j < length evs" "j \<noteq> i" "event_requests rd (evs ! i) \<noteq> []" "read_fails rd (evs ! j)" by blast
  with overlapping_failure [of i evs j rd] i
  show "\<exists>sched'. 2 \<le> count_list sched' i \<and> snd (run_schedule rd sched' evs) ! i = Returned []"
    by (intro exI [of _ "[i, j, i]"]) simp
qed

text \<open>The events of a composition whose synthesizer is read, and of a synthesizer whose compositions are not.\<close>

definition sample_reads :: map_reads where
  "sample_reads = \<lparr>mr_get_synth = (\<lambda>_. Inr input_synth), mr_list_comps = (\<lambda>_. Inl ServerTimeout)\<rparr>"

lemmas event_eval = sample_reads_def composition_requests_def buildRequests_def input_comp_def input_synth_def
  input_gvk_def sample_comp_def Let_def

theorem event_interleavings_witness:
  "event_requests sample_reads (CompositionEvent input_comp) = [\<lparr>nn_Namespace = ''ns'', nn_Name = ''cm''\<rparr>] \<and>
   (\<exists>sched'. 2 \<le> count_list sched' 0 \<and>
      snd (run_schedule sample_reads sched' [CompositionEvent input_comp, SynthesizerEvent input_synth]) ! 0 = Returned [])"
proof -
  let ?evs = "[CompositionEvent input_comp, SynthesizerEvent input_synth]"
  have r: "event_requests sample_reads (CompositionEvent input_comp) = [\<lparr>nn_Namespace = ''ns'', nn_Name = ''cm''\<rparr>]"
    by (simp add: event_eval)
  have "\<exists>j < length ?evs. j \<noteq> 0 \<and> read_fails sample_reads (?evs ! j)"
    by (rule exI [of _ 1]) (simp add: sample_reads_def)
  with event_interleavings [of 0 ?evs "[0, 0]" sample_reads] r show ?thesis by simp
qed

end
