(* ===== verification/Watch_Runtime.thy ===== *)
theory Watch_Runtime
  imports Watch_Events
begin

text \<open>
  The life of the kind watch controllers (\<open>controllers/watch/kind.go\<close>, \<open>watch.go\<close>): their construction
  with its three watches, the goroutine each of them runs in, its context, and the handler of the watch
  controller with its map of controllers. Controllers of controller-runtime are parameters: creating one
  and adding a watch may fail, and \<open>Start\<close> returns when its context is cancelled or when it fails.
\<close>

section \<open>Construction\<close>

datatype watch_source = InputSource ResourceRef | CompositionSource | SynthesizerSource

record controller_runtime =
  NewUnmanaged :: "api_err option"
  AddWatch :: "watch_source \<Rightarrow> api_err option"

text \<open>The sources of the controller, or the error of the first call that fails.\<close>

definition newResourceWatchController :: "controller_runtime \<Rightarrow> ResourceRef \<Rightarrow> api_err + watch_source list" where
  "newResourceWatchController rt ref =
     (case NewUnmanaged rt of
        Some e \<Rightarrow> Inl e
      | None \<Rightarrow>
          (case AddWatch rt (InputSource ref) of
             Some e \<Rightarrow> Inl e
           | None \<Rightarrow>
               (case AddWatch rt CompositionSource of
                  Some e \<Rightarrow> Inl e
                | None \<Rightarrow>
                    (case AddWatch rt SynthesizerSource of
                       Some e \<Rightarrow> Inl e
                     | None \<Rightarrow> Inr [InputSource ref, CompositionSource, SynthesizerSource]))))"

text \<open>
  A goroutine runs \<open>Start\<close> of the controller for a kind. Its context is cancelled through the function
  that the controller keeps, here the number of the goroutine. A goroutine has returned when its
  \<open>Start\<close> has; the error of \<open>Start\<close> is dropped.
\<close>

record goroutine =
  go_gvk :: ResourceRef
  go_sources :: "watch_source list"
  go_cancelled :: bool
  go_returned :: bool

record KindWatchController =
  kwc_gvk :: ResourceRef
  kwc_cancel :: "nat option"

record WatchController =
  refControllers :: "(ResourceRef \<times> KindWatchController) list"
  goroutines :: "goroutine list"

definition NewKindWatchController ::
  "controller_runtime \<Rightarrow> ResourceRef \<Rightarrow> WatchController \<Rightarrow> api_err + KindWatchController \<times> WatchController" where
  "NewKindWatchController rt ref w =
     (let gvk = \<lparr>rr_Group = rr_Group ref, rr_Version = rr_Version ref, rr_Kind = rr_Kind ref\<rparr>
      in case newResourceWatchController rt gvk of
           Inl e \<Rightarrow> Inl e
         | Inr srcs \<Rightarrow>
             Inr (\<lparr>kwc_gvk = gvk, kwc_cancel = Some (length (goroutines w))\<rparr>,
                  w\<lparr>goroutines := goroutines w @ [\<lparr>go_gvk = gvk, go_sources = srcs, go_cancelled = False, go_returned = False\<rparr>]\<rparr>))"

definition Stop :: "KindWatchController \<Rightarrow> WatchController \<Rightarrow> WatchController" where
  "Stop k w =
     (case kwc_cancel k of
        None \<Rightarrow> w
      | Some n \<Rightarrow> w\<lparr>goroutines := (goroutines w)[n := (goroutines w ! n)\<lparr>go_cancelled := True\<rparr>]\<rparr>)"

section \<open>The handler on the map of controllers\<close>

definition wk_Reconcile ::
  "(Synthesizer list \<Rightarrow> Synthesizer list) \<Rightarrow> controller_runtime \<Rightarrow> api_err + Synthesizer list \<Rightarrow> WatchController \<Rightarrow>
   WatchController \<times> (error + ctrl_Result)" where
  "wk_Reconcile shuffle rt synths w =
     (case synths of
        Inl e \<Rightarrow> (w, Inl (Wrap [] e))
      | Inr syns \<Rightarrow>
          let wanted = wanted_refs (shuffle syns) in
          (case find (\<lambda>ref. map_of (refControllers w) ref = None) wanted of
             Some ref \<Rightarrow>
               (case NewKindWatchController rt ref w of
                  Inl e \<Rightarrow> (w, Inl (Wrap [] e))
                | Inr (rc, w') \<Rightarrow> (w'\<lparr>refControllers := refControllers w' @ [(ref, rc)]\<rparr>, Inr requeue_result))
           | None \<Rightarrow>
               (case find (\<lambda>(ref, rc). ref \<notin> set wanted) (refControllers w) of
                  Some (ref, rc) \<Rightarrow>
                    ((Stop rc w)\<lparr>refControllers := filter (\<lambda>p. fst p \<noteq> ref) (refControllers w)\<rparr>, Inr requeue_result)
                | None \<Rightarrow> (w, Inr done_result))))"

text \<open>
  The process: runs of the handler, on whatever the reads answer, and goroutines that return.
\<close>

definition start_returns :: "nat \<Rightarrow> WatchController \<Rightarrow> WatchController" where
  "start_returns n w = w\<lparr>goroutines := (goroutines w)[n := (goroutines w ! n)\<lparr>go_returned := True\<rparr>]\<rparr>"

inductive watch_process :: "WatchController \<Rightarrow> bool" where
  init: "watch_process \<lparr>refControllers = [], goroutines = []\<rparr>"
| reconcile: "watch_process w \<Longrightarrow> watch_process (fst (wk_Reconcile shuffle rt synths w))"
| returns: "watch_process w \<Longrightarrow> n < length (goroutines w) \<Longrightarrow> watch_process (start_returns n w)"

section \<open>Lemmas\<close>

lemma newResourceWatchController_sources:
  "newResourceWatchController rt ref = Inr srcs \<Longrightarrow> srcs = [InputSource ref, CompositionSource, SynthesizerSource]"
  by (auto simp: newResourceWatchController_def split: option.splits)

lemma same_gvk [simp]: "\<lparr>rr_Group = rr_Group ref, rr_Version = rr_Version ref, rr_Kind = rr_Kind ref\<rparr> = (ref :: ResourceRef)"
  by (cases ref) simp

definition start_error :: "controller_runtime \<Rightarrow> ResourceRef \<Rightarrow> api_err option" where
  "start_error rt ref = (case newResourceWatchController rt ref of Inl e \<Rightarrow> Some e | Inr _ \<Rightarrow> None)"

lemma map_of_None_running: "map_of (refControllers w) ref = None \<longleftrightarrow> ref \<notin> set (map fst (refControllers w))"
  by (simp add: map_of_eq_None_iff)

lemma find_pair: "map_option fst (find (\<lambda>(x, y). P x) ps) = find P (map fst ps)"
  by (induction ps) auto

lemma Stop_refControllers [simp]: "refControllers (Stop k w) = refControllers w"
  by (simp add: Stop_def split: option.splits)

lemma map_fst_filter: "map fst (filter (\<lambda>p. fst p \<noteq> x) ps) = removeAll x (map fst ps)"
  by (induction ps) auto

text \<open>
  The handler implements the one of \<open>Watch\<close>, which knows only which kinds are watched.
\<close>

lemma wk_Reconcile_refines:
  "wc_Reconcile shuffle (start_error rt) synths (map fst (refControllers w)) =
     (case wk_Reconcile shuffle rt synths w of (w', r) \<Rightarrow> (map fst (refControllers w'), r))"
proof (cases synths)
  case (Inr syns)
  let ?w = "wanted_refs (shuffle syns)" and ?run = "map fst (refControllers w)"
  have gone: "find (\<lambda>ref. ref \<notin> set ?w) ?run = map_option fst (find (\<lambda>(ref, rc). ref \<notin> set ?w) (refControllers w))"
    by (simp only: find_pair)
  show ?thesis
  proof (cases "find (\<lambda>ref. ref \<notin> set ?run) ?w")
    case (Some ref)
    then show ?thesis
      by (auto simp: Inr wc_Reconcile_def wk_Reconcile_def map_of_None_running NewKindWatchController_def start_error_def Let_def
          split: sum.splits)
  next
    case None
    then show ?thesis
      by (auto simp: Inr wc_Reconcile_def wk_Reconcile_def map_of_None_running gone map_fst_filter split: option.splits)
  qed
qed (simp add: wc_Reconcile_def wk_Reconcile_def)

section \<open>No controller is lost or doubled\<close>

definition live :: "WatchController \<Rightarrow> ResourceRef \<Rightarrow> nat set" where
  "live w ref = {n. n < length (goroutines w) \<and> go_gvk (goroutines w ! n) = ref \<and> \<not> go_cancelled (goroutines w ! n)}"

definition watched_by :: "WatchController \<Rightarrow> ResourceRef \<Rightarrow> nat set" where
  "watched_by w ref = (case map_of (refControllers w) ref of None \<Rightarrow> {} | Some k \<Rightarrow> set_option (kwc_cancel k))"

definition watch_inv :: "WatchController \<Rightarrow> bool" where
  "watch_inv w \<longleftrightarrow>
     distinct (map fst (refControllers w)) \<and>
     (\<forall>ref. live w ref = watched_by w ref) \<and>
     (\<forall>(ref, k) \<in> set (refControllers w). kwc_gvk k = ref \<and> kwc_cancel k \<noteq> None) \<and>
     (\<forall>g \<in> set (goroutines w). go_sources g = [InputSource (go_gvk g), CompositionSource, SynthesizerSource])"

lemma nth_update_in: "i < length xs \<Longrightarrow> xs[n := x] ! i = (if n = i then x else xs ! i)"
  by (cases "n = i") simp_all

lemma live_start:
  "live (w\<lparr>goroutines := goroutines w @ [\<lparr>go_gvk = ref, go_sources = srcs, go_cancelled = False, go_returned = False\<rparr>],
      refControllers := cs\<rparr>) ref' =
     live w ref' \<union> (if ref' = ref then {length (goroutines w)} else {})"
  by (auto simp: live_def nth_append less_Suc_eq)

lemma live_cancel:
  "live (w\<lparr>goroutines := (goroutines w)[n := (goroutines w ! n)\<lparr>go_cancelled := True\<rparr>], refControllers := cs\<rparr>) ref = live w ref - {n}"
  by (auto simp: live_def nth_update_in split: if_splits)

lemma live_returns [simp]: "live (start_returns n w) ref = live w ref"
  by (auto simp: live_def start_returns_def nth_update_in split: if_splits)

lemma start_inv:
  assumes "watch_inv w" "map_of (refControllers w) ref = None" "NewKindWatchController rt ref w = Inr (rc, w')"
  shows "watch_inv (w'\<lparr>refControllers := refControllers w' @ [(ref, rc)]\<rparr>)"
proof -
  from assms(3) obtain srcs where srcs: "newResourceWatchController rt ref = Inr srcs"
    "rc = \<lparr>kwc_gvk = ref, kwc_cancel = Some (length (goroutines w))\<rparr>"
    "w' = w\<lparr>goroutines := goroutines w @ [\<lparr>go_gvk = ref, go_sources = srcs, go_cancelled = False, go_returned = False\<rparr>]\<rparr>"
    by (auto simp: NewKindWatchController_def Let_def split: sum.splits)
  note inv = assms(1) [unfolded watch_inv_def]
  have "live w ref' \<union> (if ref' = ref then {length (goroutines w)} else {}) =
      (case map_of (refControllers w @ [(ref, rc)]) ref' of None \<Rightarrow> {} | Some k \<Rightarrow> set_option (kwc_cancel k))" for ref'
    using inv assms(2) by (auto simp: map_add_def watched_by_def srcs(2) split: option.splits)
  moreover have "ref \<notin> fst ` set (refControllers w)" using assms(2) by (simp add: map_of_eq_None_iff)
  ultimately show ?thesis
    using inv newResourceWatchController_sources [OF srcs(1)]
    by (auto simp: watch_inv_def watched_by_def srcs(2,3) live_start)
qed

lemma map_of_filter_key: "map_of (filter (\<lambda>p. fst p \<noteq> ref) ps) ref' = (if ref' = ref then None else map_of ps ref')"
  by (induction ps) auto

lemma live_disjoint: "n \<in> live w ref \<Longrightarrow> n \<in> live w ref' \<Longrightarrow> ref = ref'"
  by (simp add: live_def)

lemma stop_inv:
  assumes "watch_inv w" "(ref, rc) \<in> set (refControllers w)"
  shows "watch_inv ((Stop rc w)\<lparr>refControllers := filter (\<lambda>p. fst p \<noteq> ref) (refControllers w)\<rparr>)"
proof -
  note inv = assms(1) [unfolded watch_inv_def]
  from inv assms(2) obtain n where n: "kwc_cancel rc = Some n" by fastforce
  have rc: "map_of (refControllers w) ref = Some rc" using inv assms(2) by simp
  with n inv have live: "live w ref = {n}" by (simp add: watched_by_def)
  have "n < length (goroutines w)" using live by (auto simp: live_def)
  have "live w ref' - {n} = (case map_of (filter (\<lambda>p. fst p \<noteq> ref) (refControllers w)) ref' of
      None \<Rightarrow> {} | Some k \<Rightarrow> set_option (kwc_cancel k))" for ref'
  proof (cases "ref' = ref")
    case False
    then have "n \<notin> live w ref'" using live live_disjoint by blast
    with False inv show ?thesis by (auto simp: map_of_filter_key watched_by_def)
  qed (simp add: live map_of_filter_key)
  moreover have "distinct (map fst (filter (\<lambda>p. fst p \<noteq> ref) (refControllers w)))"
    using inv by (simp add: map_fst_filter distinct_removeAll)
  moreover have "\<forall>g \<in> set ((goroutines w)[n := (goroutines w ! n)\<lparr>go_cancelled := True\<rparr>]).
      go_sources g = [InputSource (go_gvk g), CompositionSource, SynthesizerSource]"
    using inv \<open>n < length (goroutines w)\<close> by (auto dest!: set_update_subset_insert [THEN subsetD])
  ultimately show ?thesis
    using inv by (auto simp: watch_inv_def watched_by_def Stop_def n live_cancel)
qed

lemma wk_Reconcile_inv:
  assumes "watch_inv w"
  shows "watch_inv (fst (wk_Reconcile shuffle rt synths w))"
proof (cases synths)
  case (Inr syns)
  let ?w = "wanted_refs (shuffle syns)"
  show ?thesis
  proof (cases "find (\<lambda>ref. map_of (refControllers w) ref = None) ?w")
    case (Some ref)
    with start_inv [OF assms, of ref rt] find_Some_P [OF Some] show ?thesis
      by (auto simp: wk_Reconcile_def Inr assms split: sum.splits)
  next
    case None
    with stop_inv [OF assms] show ?thesis
      by (auto simp: wk_Reconcile_def Inr assms split: option.splits dest: find_Some_P)
  qed
qed (simp add: wk_Reconcile_def assms)

lemma returns_inv: "watch_inv w \<Longrightarrow> n < length (goroutines w) \<Longrightarrow> watch_inv (start_returns n w)"
  by (auto simp: watch_inv_def watched_by_def)
    (auto simp: start_returns_def dest!: set_update_subset_insert [THEN subsetD])

lemma watch_process_inv: "watch_process w \<Longrightarrow> watch_inv w"
proof (induction rule: watch_process.induct)
  case init
  show ?case by (simp add: watch_inv_def watched_by_def live_def)
qed (simp_all add: wk_Reconcile_inv returns_inv)


definition healthy_runtime :: controller_runtime where
  "healthy_runtime = \<lparr>NewUnmanaged = None, AddWatch = (\<lambda>_. None)\<rparr>"

definition one_watch :: WatchController where
  "one_watch =
     \<lparr>refControllers = [(input_gvk ''ConfigMap'', \<lparr>kwc_gvk = input_gvk ''ConfigMap'', kwc_cancel = Some 0\<rparr>)],
      goroutines = [\<lparr>go_gvk = input_gvk ''ConfigMap'',
        go_sources = [InputSource (input_gvk ''ConfigMap''), CompositionSource, SynthesizerSource],
        go_cancelled = False, go_returned = False\<rparr>]\<rparr>"

lemma wanted_input_synth: "wanted_refs [input_synth] = [input_gvk ''ConfigMap'']"
  by (simp add: wanted_refs_def input_synth_def sample_synth_def zero_Synthesizer_def)

lemma one_watch_started:
  "one_watch = fst (wk_Reconcile (\<lambda>xs. xs) healthy_runtime (Inr [input_synth]) \<lparr>refControllers = [], goroutines = []\<rparr>)"
  by (simp add: wk_Reconcile_def wanted_input_synth NewKindWatchController_def newResourceWatchController_def
      healthy_runtime_def one_watch_def Let_def)

lemma one_watch_process: "watch_process one_watch"
  unfolding one_watch_started by (intro watch_process.intros)


section \<open>A controller that stopped by itself\<close>

lemma wk_Reconcile_keeps:
  assumes inv: "watch_inv w" and k: "map_of (refControllers w) ref = Some k" "kwc_cancel k = Some n"
    and ret: "go_returned (goroutines w ! n)"
    and wanted: "\<forall>syns. synths = Inr syns \<longrightarrow> ref \<in> set (wanted_refs (shuffle syns))"
    and step: "w' = fst (wk_Reconcile shuffle rt synths w)"
  shows "map_of (refControllers w') ref = Some k \<and> go_returned (goroutines w' ! n)"
proof -
  have "live w ref = watched_by w ref" using inv by (simp add: watch_inv_def)
  then have "n \<in> live w ref" by (simp add: watched_by_def k)
  then have n: "n < length (goroutines w)" by (simp add: live_def)
  show ?thesis
  proof (cases synths)
    case (Inr syns)
    let ?w = "wanted_refs (shuffle syns)"
    have ref: "ref \<in> set ?w" using wanted Inr by blast
    show ?thesis
    proof (cases "find (\<lambda>ref. map_of (refControllers w) ref = None) ?w")
      case (Some ref')
      then show ?thesis
        using k ret n unfolding step
        by (auto simp: wk_Reconcile_def Inr NewKindWatchController_def Let_def nth_append map_add_def split: sum.splits option.splits)
    next
      case None
      show ?thesis
      proof (cases "find (\<lambda>(ref, rc). ref \<notin> set ?w) (refControllers w)")
        case (Some p)
        from find_Some_P [OF Some] ref have "fst p \<noteq> ref" by auto
        with None Some k ret n show ?thesis unfolding step
          by (auto simp: wk_Reconcile_def Inr map_of_filter_key Stop_def nth_update_in case_prod_beta split: option.splits)
      qed (use None k ret in \<open>simp add: step wk_Reconcile_def Inr\<close>)
    qed
  qed (simp add: step wk_Reconcile_def k ret)
qed

text \<open>
  Later runs of the handler: what it is given and reads in each of them.
\<close>

definition run_handler ::
  "(Synthesizer list \<Rightarrow> Synthesizer list) \<times> controller_runtime \<times> (api_err + Synthesizer list) \<Rightarrow> WatchController \<Rightarrow> WatchController" where
  "run_handler r w = (case r of (shuffle, rt, synths) \<Rightarrow> fst (wk_Reconcile shuffle rt synths w))"

definition keeps_referring :: "ResourceRef \<Rightarrow>
  (Synthesizer list \<Rightarrow> Synthesizer list) \<times> controller_runtime \<times> (api_err + Synthesizer list) \<Rightarrow> bool" where
  "keeps_referring ref r \<longleftrightarrow>
     (case r of (shuffle, rt, Inl e) \<Rightarrow> True | (shuffle, rt, Inr syns) \<Rightarrow> ref \<in> set (wanted_refs (shuffle syns)))"

lemma run_handler_keeps:
  assumes "watch_inv w" "map_of (refControllers w) ref = Some k" "kwc_cancel k = Some n" "go_returned (goroutines w ! n)"
    and "list_all (keeps_referring ref) rs"
  shows "watch_inv (fold run_handler rs w) \<and> map_of (refControllers (fold run_handler rs w)) ref = Some k \<and>
     go_returned (goroutines (fold run_handler rs w) ! n)"
  using assms(1,2,4,5)
proof (induction rs arbitrary: w)
  case (Cons r rs)
  obtain shuffle rt synths where r: "r = (shuffle, rt, synths)" by (cases r)
  have "\<forall>syns. synths = Inr syns \<longrightarrow> ref \<in> set (wanted_refs (shuffle syns))"
    using Cons.prems(4) r by (auto simp: keeps_referring_def)
  with wk_Reconcile_keeps [OF Cons.prems(1,2) assms(3) Cons.prems(3) _ refl, of synths shuffle rt]
  have "map_of (refControllers (run_handler r w)) ref = Some k \<and> go_returned (goroutines (run_handler r w) ! n)"
    by (simp add: run_handler_def r)
  moreover have "watch_inv (run_handler r w)" using Cons.prems(1) by (simp add: run_handler_def r wk_Reconcile_inv)
  ultimately show ?case using Cons.IH [of "run_handler r w"] Cons.prems(4) by simp
qed simp

text \<open>
  A kind watch controller whose \<open>Start\<close> returned by itself is never replaced: as long as a synthesizer
  refers to the kind, every later run of the watch controller finds the entry in its map and leaves it
  there, and no goroutine that still runs watches the kind.
\<close>
theorem failed_watch_not_restarted:
  assumes "watch_process w" "map_of (refControllers w) ref = Some k" "go_returned (goroutines w ! the (kwc_cancel k))"
    and "list_all (keeps_referring ref) rs"
  shows "map_of (refControllers (fold run_handler rs w)) ref = Some k \<and>
     (\<forall>g \<in> set (goroutines (fold run_handler rs w)). go_gvk g = ref \<and> \<not> go_cancelled g \<longrightarrow> go_returned g)"
proof -
  note inv = watch_process_inv [OF assms(1)]
  then obtain n where n: "kwc_cancel k = Some n" using assms(2) by (fastforce simp: watch_inv_def dest: map_of_SomeD)
  with assms(3) have "go_returned (goroutines w ! n)" by simp
  note later = run_handler_keeps [OF inv assms(2) n this assms(4)]
  let ?w = "fold run_handler rs w"
  from later n have "live ?w ref = {n}" by (simp add: watch_inv_def watched_by_def)
  then have "\<forall>i < length (goroutines ?w). go_gvk (goroutines ?w ! i) = ref \<and> \<not> go_cancelled (goroutines ?w ! i) \<longrightarrow> i = n"
    by (auto simp: live_def)
  with later show ?thesis by (metis in_set_conv_nth)
qed

theorem failed_watch_not_restarted_witness:
  "map_of (refControllers (run_handler (\<lambda>xs. xs, healthy_runtime, Inr [input_synth]) (start_returns 0 one_watch)))
      (input_gvk ''ConfigMap'') = Some \<lparr>kwc_gvk = input_gvk ''ConfigMap'', kwc_cancel = Some 0\<rparr> \<and>
   map go_returned (goroutines (start_returns 0 one_watch)) = [True]"
proof -
  have w: "watch_process (start_returns 0 one_watch)"
    by (rule watch_process.returns [OF one_watch_process]) (simp add: one_watch_def)
  have "list_all (keeps_referring (input_gvk ''ConfigMap'')) [(\<lambda>xs. xs, healthy_runtime, Inr [input_synth])]"
    by (simp add: keeps_referring_def wanted_input_synth)
  from failed_watch_not_restarted [OF w _ _ this, of "\<lparr>kwc_gvk = input_gvk ''ConfigMap'', kwc_cancel = Some 0\<rparr>"]
  show ?thesis by (simp add: start_returns_def one_watch_def)
qed

end
