(* ===== verification/Liveness.thy ===== *)
theory Liveness
  imports Eno_Samples
begin

text \<open>
  The namespace liveness controller (\<open>controllers/liveness/namespace.go\<close>): a namespace that was
  removed by force while it still holds Eno resources is recreated, deleted again and emptied, so
  that finalizers can be removed. The lists that successive checks read and the clock readings are
  functions of the iteration and the kind.
\<close>

definition orphanableKinds :: "string list" where
  "orphanableKinds = [''Symphony'', ''Composition'', ''ResourceSlice'']"

definition annoKey :: string where
  "annoKey = ''eno.azure.io/recreation-reason''"

definition annoValue :: string where
  "annoValue = ''OrphanedResources''"

datatype ns_request =
    DeleteNamespace string
  | CreateNamespace string strmap
  | DeleteAllOf string string

record nc_client =
  creationGracePeriod :: duration
  orphanCheckIterations :: int
  nc_get :: "string \<Rightarrow> api_err + ObjectMeta"
  nc_list :: "nat \<Rightarrow> string \<Rightarrow> string \<Rightarrow> api_err + ObjectMeta list"
  nc_now :: "nat \<Rightarrow> string \<Rightarrow> time"
  nc_write :: "ns_request \<Rightarrow> api_err option"

definition mostRecentCreation :: "ObjectMeta list \<Rightarrow> time" where
  "mostRecentCreation items =
     fold (\<lambda>item mx. if CreationTimestamp item > mx then CreationTimestamp item else mx) items 0"

text \<open>\<open>Inl\<close> is an early return of the handler, \<open>Inr\<close> whether the kind has orphans.\<close>

definition findOrphans :: "nc_client \<Rightarrow> nat \<Rightarrow> string \<Rightarrow> string \<Rightarrow> (error + ctrl_Result) + bool" where
  "findOrphans cl i ns kind =
     (case nc_list cl i ns kind of
        Inl e \<Rightarrow> Inl (Inl (Wrap ''listing resources of kind'' e))
      | Inr items \<Rightarrow>
          if items = [] then Inr False
          else
            let delta = nc_now cl i kind - mostRecentCreation items in
            if delta < creationGracePeriod cl then Inl (Inr (requeue_after delta)) else Inr True)"

fun check_kinds :: "nc_client \<Rightarrow> nat \<Rightarrow> string \<Rightarrow> bool \<Rightarrow> string list \<Rightarrow> (error + ctrl_Result) + bool" where
  "check_kinds cl i ns foundOrphans [] = Inr foundOrphans"
| "check_kinds cl i ns foundOrphans (kind # kinds) =
     (case findOrphans cl i ns kind of
        Inl early \<Rightarrow> Inl early
      | Inr hasOrphans \<Rightarrow> check_kinds cl i ns (foundOrphans \<or> hasOrphans) kinds)"

text \<open>
  The loop, with the number of checks that remain after iteration \<open>i\<close>; \<open>None\<close> when it breaks and the
  handler goes on.
\<close>

fun orphan_loop :: "nc_client \<Rightarrow> string \<Rightarrow> nat \<Rightarrow> nat \<Rightarrow> (error + ctrl_Result) option" where
  "orphan_loop cl ns i rest =
     (case check_kinds cl i ns False orphanableKinds of
        Inl early \<Rightarrow> Some early
      | Inr False \<Rightarrow> Some (Inr done_result)
      | Inr True \<Rightarrow> (case rest of 0 \<Rightarrow> None | Suc rest' \<Rightarrow> orphan_loop cl ns (Suc i) rest'))"

fun cleanup :: "nc_client \<Rightarrow> string \<Rightarrow> string list \<Rightarrow> ns_request handler_out" where
  "cleanup cl ns [] = ([], Inr done_result)"
| "cleanup cl ns (kind # kinds) =
     (case nc_write cl (DeleteAllOf kind ns) of
        Some e \<Rightarrow> ([DeleteAllOf kind ns], Inl (Wrap ''deleting resources of kind'' e))
      | None \<Rightarrow> (case cleanup cl ns kinds of (rs, res) \<Rightarrow> (DeleteAllOf kind ns # rs, res)))"

definition ns_send :: "nc_client \<Rightarrow> ns_request \<Rightarrow> string \<Rightarrow> ns_request handler_out" where
  "ns_send cl r ctx = ([r], case nc_write cl r of None \<Rightarrow> Inr done_result | Some e \<Rightarrow> Inl (Wrap ctx e))"

definition nc_Reconcile :: "nc_client \<Rightarrow> string \<Rightarrow> ns_request handler_out" where
  "nc_Reconcile cl name =
     (case nc_get cl name of
        Inr ns \<Rightarrow>
          if gomap_get (Annotations ns) annoKey = annoValue then
            if DeletionTimestamp ns \<noteq> None then cleanup cl name orphanableKinds
            else ns_send cl (DeleteNamespace (Name ns)) ''deleting namespace''
          else ([], Inr done_result)
      | Inl NotFound \<Rightarrow>
          (case orphan_loop cl name 1 (nat (orphanCheckIterations cl - 1)) of
             Some early \<Rightarrow> ([], early)
           | None \<Rightarrow> ns_send cl (CreateNamespace name (Some [(annoKey, annoValue)])) ''creating namespace'')
      | Inl e \<Rightarrow> ([], Inl (Wrap ''getting namespace'' e)))"

section \<open>Lemmas\<close>

lemma mostRecentCreation_ge: "item \<in> set items \<Longrightarrow> CreationTimestamp item \<le> mostRecentCreation items"
proof -
  have "mx \<le> fold (\<lambda>item mx. if CreationTimestamp item > mx then CreationTimestamp item else mx) items mx \<and>
      (\<forall>item \<in> set items. CreationTimestamp item \<le>
        fold (\<lambda>item mx. if CreationTimestamp item > mx then CreationTimestamp item else mx) items mx)" for mx
    by (induction items arbitrary: mx) (auto, (meson le_cases order_trans not_le)+)
  then show "item \<in> set items \<Longrightarrow> ?thesis" by (simp add: mostRecentCreation_def)
qed

text \<open>One kind at one check: listed, and everything listed is past the grace period.\<close>

definition settled_kind :: "nc_client \<Rightarrow> string \<Rightarrow> nat \<Rightarrow> string \<Rightarrow> bool" where
  "settled_kind cl ns i kind \<longleftrightarrow>
     (\<exists>items. nc_list cl i ns kind = Inr items \<and>
        (\<forall>item \<in> set items. creationGracePeriod cl \<le> nc_now cl i kind - CreationTimestamp item))"

definition has_orphans :: "nc_client \<Rightarrow> string \<Rightarrow> nat \<Rightarrow> string \<Rightarrow> bool" where
  "has_orphans cl ns i kind \<longleftrightarrow> (\<exists>item items. nc_list cl i ns kind = Inr (item # items))"

lemma findOrphans_Inr:
  "findOrphans cl i ns kind = Inr b \<Longrightarrow> settled_kind cl ns i kind \<and> b = has_orphans cl ns i kind"
  by (auto simp: findOrphans_def settled_kind_def has_orphans_def Let_def split: sum.splits if_splits
      dest!: mostRecentCreation_ge) (auto simp: neq_Nil_conv)

lemma check_kinds_Inr:
  "check_kinds cl i ns f kinds = Inr b \<Longrightarrow>
     (\<forall>kind \<in> set kinds. settled_kind cl ns i kind) \<and> b = (f \<or> (\<exists>kind \<in> set kinds. has_orphans cl ns i kind))"
  by (induction kinds arbitrary: f) (auto split: sum.splits dest!: findOrphans_Inr)

lemma orphan_loop_None:
  "orphan_loop cl ns i rest = None \<Longrightarrow> i \<le> j \<Longrightarrow> j \<le> i + rest \<Longrightarrow>
     (\<forall>kind \<in> set orphanableKinds. settled_kind cl ns j kind) \<and>
     (\<exists>kind \<in> set orphanableKinds. has_orphans cl ns j kind)"
proof (induction rest arbitrary: i)
  case 0
  then show ?case by (auto split: sum.splits bool.splits dest!: check_kinds_Inr)
next
  case (Suc rest)
  from Suc.prems(1) have now: "check_kinds cl i ns False orphanableKinds = Inr True"
    and later: "orphan_loop cl ns (Suc i) rest = None"
    by (auto simp del: orphan_loop.simps simp: orphan_loop.simps [of cl ns i] split: sum.splits bool.splits)
  show ?case
  proof (cases "j = i")
    case True
    with check_kinds_Inr [OF now] show ?thesis by auto
  next
    case False
    with Suc.prems Suc.IH [OF later] show ?thesis by simp
  qed
qed

lemma cleanup_requests: "set (fst (cleanup cl ns kinds)) \<subseteq> (\<lambda>kind. DeleteAllOf kind ns) ` set kinds"
  by (induction kinds) (auto split: option.splits prod.splits)

lemma cleanup_all: "(\<And>r. nc_write cl r = None) \<Longrightarrow> cleanup cl ns kinds = (map (\<lambda>kind. DeleteAllOf kind ns) kinds, Inr done_result)"
  by (induction kinds) auto

definition recreated :: "ObjectMeta \<Rightarrow> bool" where
  "recreated ns \<longleftrightarrow> gomap_get (Annotations ns) annoKey = annoValue"

text \<open>
  What the namespace controller does to namespaces. It creates only a namespace that is missing,
  and only when every one of its checks (at least one) saw an orphaned resource and nothing younger
  than the grace period; it deletes only a namespace that carries the mark of its own recreation, and
  empties only such a namespace that is being deleted.
\<close>
theorem namespace_controller_guard:
  assumes "r \<in> set (fst (nc_Reconcile cl name))"
  shows "case r of
      CreateNamespace n anno \<Rightarrow> n = name \<and> gomap_get anno annoKey = annoValue \<and> nc_get cl name = Inl NotFound \<and>
        (\<forall>j. 1 \<le> j \<and> j \<le> max 1 (nat (orphanCheckIterations cl)) \<longrightarrow>
           (\<forall>kind \<in> set orphanableKinds. settled_kind cl name j kind) \<and>
           (\<exists>kind \<in> set orphanableKinds. has_orphans cl name j kind))
    | DeleteNamespace n \<Rightarrow>
        \<exists>ns. nc_get cl name = Inr ns \<and> n = Name ns \<and> recreated ns \<and> DeletionTimestamp ns = None
    | DeleteAllOf kind n \<Rightarrow> n = name \<and> kind \<in> set orphanableKinds \<and>
        (\<exists>ns. nc_get cl name = Inr ns \<and> recreated ns \<and> DeletionTimestamp ns \<noteq> None)"
proof (cases "nc_get cl name")
  case (Inr ns)
  with assms show ?thesis
    using cleanup_requests [of cl name orphanableKinds]
    by (auto simp: nc_Reconcile_def ns_send_def recreated_def split: if_splits)
next
  case (Inl e)
  with assms have r: "e = NotFound" "r = CreateNamespace name (Some [(annoKey, annoValue)])"
    and none: "orphan_loop cl name 1 (nat (orphanCheckIterations cl - 1)) = None"
    by (auto simp: nc_Reconcile_def ns_send_def simp del: orphan_loop.simps
        split: api_err.splits option.splits)
  have "(\<forall>kind \<in> set orphanableKinds. settled_kind cl name j kind) \<and>
      (\<exists>kind \<in> set orphanableKinds. has_orphans cl name j kind)"
    if "1 \<le> j \<and> j \<le> max 1 (nat (orphanCheckIterations cl))" for j
    by (rule orphan_loop_None [OF none]) (use that in auto)
  with Inl r show ?thesis by (simp add: gomap_get_def)
qed

definition orphan_slice :: ObjectMeta where
  "orphan_slice =
     \<lparr>Name = ''slice'', Namespace = ''ns'', GenerateName = [], UID = [], ResourceVersion = [], Generation = 1,
      CreationTimestamp = 5, DeletionTimestamp = None, Labels = None, Annotations = None,
      Finalizers = [cleanup_finalizer], OwnerReferences = []\<rparr>"

definition sample_nc_client :: nc_client where
  "sample_nc_client =
     \<lparr>creationGracePeriod = 60, orphanCheckIterations = 2, nc_get = (\<lambda>_. Inl NotFound),
      nc_list = (\<lambda>_ _ kind. Inr (if kind = ''ResourceSlice'' then [orphan_slice] else [])),
      nc_now = (\<lambda>_ _. 100), nc_write = (\<lambda>_. None)\<rparr>"

theorem namespace_controller_guard_witness:
  "fst (nc_Reconcile sample_nc_client ''ns'') = [CreateNamespace ''ns'' (Some [(annoKey, annoValue)])] \<and>
   has_orphans sample_nc_client ''ns'' 2 ''ResourceSlice''"
proof -
  have kinds: "check_kinds sample_nc_client i ''ns'' False orphanableKinds = Inr True" for i
    by (simp add: orphanableKinds_def findOrphans_def sample_nc_client_def mostRecentCreation_def orphan_slice_def)
  have "orphan_loop sample_nc_client ''ns'' 1 1 = None"
    using kinds by (simp add: One_nat_def)
  then have run: "fst (nc_Reconcile sample_nc_client ''ns'') = [CreateNamespace ''ns'' (Some [(annoKey, annoValue)])]"
    by (simp add: nc_Reconcile_def ns_send_def sample_nc_client_def del: orphan_loop.simps)
  then have "CreateNamespace ''ns'' (Some [(annoKey, annoValue)]) \<in> set (fst (nc_Reconcile sample_nc_client ''ns''))"
    by simp
  from namespace_controller_guard [OF this]
  have "\<exists>kind \<in> set orphanableKinds. has_orphans sample_nc_client ''ns'' 2 kind"
    by (simp add: sample_nc_client_def)
  with run show ?thesis
    by (auto simp: orphanableKinds_def has_orphans_def sample_nc_client_def)
qed

text \<open>
  The way back: an accepted recreation is followed by the deletion of the marked namespace, and that
  by the deletion of everything of the orphanable kinds in it.
\<close>

lemma recreation_then_cleanup:
  assumes "\<And>r. nc_write cl r = None" and "nc_get cl name = Inr ns" and "Name ns = name"
    and "Annotations ns = Some [(annoKey, annoValue)]"
  shows "nc_Reconcile cl name =
     ((case DeletionTimestamp ns of
         None \<Rightarrow> [DeleteNamespace name]
       | Some _ \<Rightarrow> map (\<lambda>kind. DeleteAllOf kind name) orphanableKinds), Inr done_result)"
  using assms by (auto simp: nc_Reconcile_def gomap_get_def cleanup_all ns_send_def split: option.splits)

end
