(* ===== verification/Reconstitution.thy ===== *)
theory Reconstitution
  imports Resource "HOL-Library.RBT_Impl"
begin

text \<open>
  The reconstitution of resources from slices (\<open>internal/reconstitution\<close>): the cache, the
  controller that fills and purges it, the responder to readiness transitions and the queue
  processor. The red-black tree of the gods library is a parameter: its nodes are visible to the
  code, its operations are the fields of \<open>tree_ops\<close>, and the locale \<open>gods_tree\<close> states what the
  library documents of them.
\<close>

section \<open>The ordered tree of readiness groups\<close>

type_synonym gtree = "(int, Res list) rbt"

record tree_ops =
  t_Get :: "gtree \<Rightarrow> int \<Rightarrow> Res list option"
  t_GetNode :: "gtree \<Rightarrow> int \<Rightarrow> gtree"
  t_Put :: "gtree \<Rightarrow> int \<Rightarrow> Res list \<Rightarrow> gtree"
  t_Ceiling :: "gtree \<Rightarrow> int \<Rightarrow> Res list option"
  t_Floor :: "gtree \<Rightarrow> int \<Rightarrow> Res list option"

definition least_ge :: "int set \<Rightarrow> int \<Rightarrow> int \<Rightarrow> bool" where
  "least_ge D k c = (c \<in> D \<and> k \<le> c \<and> (\<forall>c' \<in> D. k \<le> c' \<longrightarrow> c \<le> c'))"

definition greatest_le :: "int set \<Rightarrow> int \<Rightarrow> int \<Rightarrow> bool" where
  "greatest_le D k c = (c \<in> D \<and> c \<le> k \<and> (\<forall>c' \<in> D. c' \<le> k \<longrightarrow> c' \<le> c))"

abbreviation tkeys :: "gtree \<Rightarrow> int set" where
  "tkeys t \<equiv> dom (rbt_lookup t)"

fun subtree_of :: "gtree \<Rightarrow> gtree \<Rightarrow> bool" where
  "subtree_of s rbt.Empty = (s = rbt.Empty)"
| "subtree_of s (Branch c l k v r) = (s = Branch c l k v r \<or> subtree_of s l \<or> subtree_of s r)"

locale gods_tree =
  fixes ops :: tree_ops
  assumes get: "rbt_sorted t \<Longrightarrow> t_Get ops t k = rbt_lookup t k"
    and node_none: "rbt_sorted t \<Longrightarrow> rbt_lookup t k = None \<Longrightarrow> t_GetNode ops t k = rbt.Empty"
    and node_some: "rbt_sorted t \<Longrightarrow> rbt_lookup t k = Some v \<Longrightarrow>
       \<exists>c l r. t_GetNode ops t k = Branch c l k v r \<and> subtree_of (Branch c l k v r) t"
    and put_sorted: "rbt_sorted t \<Longrightarrow> rbt_sorted (t_Put ops t k v)"
    and put_lookup: "rbt_sorted t \<Longrightarrow> rbt_lookup (t_Put ops t k v) = (rbt_lookup t)(k \<mapsto> v)"
    and ceiling: "rbt_sorted t \<Longrightarrow>
       (case t_Ceiling ops t k of
          None \<Rightarrow> \<forall>c \<in> tkeys t. c < k
        | Some w \<Rightarrow> \<exists>c. least_ge (tkeys t) k c \<and> rbt_lookup t c = Some w)"
    and floor: "rbt_sorted t \<Longrightarrow>
       (case t_Floor ops t k of
          None \<Rightarrow> \<forall>c \<in> tkeys t. k < c
        | Some w \<Rightarrow> \<exists>c. greatest_le (tkeys t) k c \<and> rbt_lookup t c = Some w)"

section \<open>The cache\<close>

record SynthesisRef =
  sref_CompositionName :: string
  sref_Namespace :: string
  sref_UUID :: string

record sliceIndex =
  si_Index :: nat
  si_SliceName :: string
  si_Namespace :: string

record ReconRequest =
  req_Resource :: ResRef
  req_Composition :: NamespacedName

record resources =
  ByRef :: "ResRef \<rightharpoonup> Res"
  ByReadinessGroup :: gtree
  ByGroupKind :: "GroupKind \<Rightarrow> Res list"
  CrdsByGroupKind :: "GroupKind \<rightharpoonup> Res"

record Cache =
  c_resources :: "SynthesisRef \<rightharpoonup> resources"
  synthesisUUIDsByComposition :: "NamespacedName \<Rightarrow> string list"
  byIndex :: "sliceIndex \<rightharpoonup> Res"

definition NewCache :: Cache where
  "NewCache = \<lparr>c_resources = Map.empty, synthesisUUIDsByComposition = (\<lambda>_. []), byIndex = Map.empty\<rparr>"

definition Cache_Get :: "Cache \<Rightarrow> SynthesisRef \<Rightarrow> ResRef \<Rightarrow> Res option" where
  "Cache_Get c syn ref = (case c_resources c syn of None \<Rightarrow> None | Some rs \<Rightarrow> ByRef rs ref)"

definition node_value :: "gtree \<Rightarrow> Res list" where
  "node_value t = (case t of rbt.Empty \<Rightarrow> [] | Branch _ _ _ v _ \<Rightarrow> v)"

text \<open>\<open>asc\<close> is the direction; \<open>node.Right\<close> and \<open>node.Left\<close> are the children of the node in the tree.\<close>

definition RangeByReadinessGroup :: "tree_ops \<Rightarrow> Cache \<Rightarrow> SynthesisRef \<Rightarrow> int \<Rightarrow> bool \<Rightarrow> Res list" where
  "RangeByReadinessGroup ops c syn grp asc =
     (if grp = 0 \<and> \<not> asc then []
      else (case c_resources c syn of
              None \<Rightarrow> []
            | Some rs \<Rightarrow>
                (case t_GetNode ops (ByReadinessGroup rs) grp of
                   rbt.Empty \<Rightarrow> []
                 | Branch _ left _ _ right \<Rightarrow>
                     if asc \<and> right \<noteq> rbt.Empty then node_value right
                     else if \<not> asc \<and> left \<noteq> rbt.Empty then node_value left
                     else (case (if asc then t_Ceiling ops (ByReadinessGroup rs) (grp + 1)
                                 else t_Floor ops (ByReadinessGroup rs) (grp - 1)) of
                             None \<Rightarrow> [] | Some v \<Rightarrow> v))))"

definition GetDefiningCRD :: "Cache \<Rightarrow> SynthesisRef \<Rightarrow> GroupKind \<Rightarrow> Res option" where
  "GetDefiningCRD c syn gk = (case c_resources c syn of None \<Rightarrow> None | Some rs \<Rightarrow> CrdsByGroupKind rs gk)"

definition getByGK :: "Cache \<Rightarrow> SynthesisRef \<Rightarrow> GroupKind \<Rightarrow> Res list" where
  "getByGK c syn gk = (case c_resources c syn of None \<Rightarrow> [] | Some rs \<Rightarrow> ByGroupKind rs gk)"

definition getByIndex :: "Cache \<Rightarrow> sliceIndex \<Rightarrow> Res option" where
  "getByIndex c idx = byIndex c idx"

definition syn_key :: "Composition \<Rightarrow> string \<Rightarrow> SynthesisRef" where
  "syn_key co uuid = \<lparr>sref_CompositionName = Name co, sref_Namespace = Namespace co, sref_UUID = uuid\<rparr>"

definition NewSynthesisRef :: "Composition \<Rightarrow> SynthesisRef" where
  "NewSynthesisRef co = syn_key co (case current co of None \<Rightarrow> [] | Some s \<Rightarrow> UUID s)"

definition hasSynthesis :: "Cache \<Rightarrow> Composition \<Rightarrow> Synthesis \<Rightarrow> bool" where
  "hasSynthesis c co s = (c_resources c (syn_key co (UUID s)) \<noteq> None)"

definition gk_of :: "Res \<Rightarrow> GroupKind" where
  "gk_of r = \<lparr>gk_Group = gvk_Group (res_GVK r), gk_Kind = gvk_Kind (res_GVK r)\<rparr>"

definition no_resources :: resources where
  "no_resources = \<lparr>ByRef = Map.empty, ByReadinessGroup = rbt.Empty, ByGroupKind = (\<lambda>_. []), CrdsByGroupKind = Map.empty\<rparr>"

definition add_resource :: "tree_ops \<Rightarrow> Res \<Rightarrow> resources \<Rightarrow> resources" where
  "add_resource ops res rs =
     rs\<lparr>ByRef := (ByRef rs)(res_Ref res \<mapsto> res),
        ByGroupKind := (ByGroupKind rs)(gk_of res := ByGroupKind rs (gk_of res) @ [res]),
        ByReadinessGroup := t_Put ops (ByReadinessGroup rs) (res_ReadinessGroup res)
          ((case t_Get ops (ByReadinessGroup rs) (res_ReadinessGroup res) of None \<Rightarrow> [] | Some cur \<Rightarrow> cur) @ [res]),
        CrdsByGroupKind := (case res_DefinedGroupKind res of
            None \<Rightarrow> CrdsByGroupKind rs | Some gk \<Rightarrow> (CrdsByGroupKind rs)(gk \<mapsto> res))\<rparr>"

record build_state =
  bs_resources :: resources
  bs_byIndex :: "sliceIndex \<rightharpoonup> Res"
  bs_requests :: "ReconRequest list"

text \<open>
  The loops of \<open>buildResources\<close>. The index \<open>byIndex\<close> belongs to the cache and is written while the
  resources are built, so it is part of the answer on errors too.
\<close>

fun build_slice ::
  "tree_ops \<Rightarrow> rcodec \<Rightarrow> Composition \<Rightarrow> ResourceSlice \<Rightarrow> nat list \<Rightarrow> build_state \<Rightarrow> build_state \<times> error option" where
  "build_slice ops cd co slice [] st = (st, None)"
| "build_slice ops cd co slice (i # is) st =
     (case NewResource cd slice i of
        Inl e \<Rightarrow> (st, Some e)
      | Inr res \<Rightarrow>
          build_slice ops cd co slice is
            \<lparr>bs_resources = add_resource ops res (bs_resources st),
             bs_byIndex = (bs_byIndex st)(\<lparr>si_Index = i, si_SliceName = Name slice, si_Namespace = Namespace slice\<rparr> \<mapsto> res),
             bs_requests = bs_requests st @ [\<lparr>req_Resource = res_Ref res, req_Composition = key_of co\<rparr>]\<rparr>)"

fun build_slices ::
  "tree_ops \<Rightarrow> rcodec \<Rightarrow> Composition \<Rightarrow> ResourceSlice list \<Rightarrow> build_state \<Rightarrow> build_state \<times> error option" where
  "build_slices ops cd co [] st = (st, None)"
| "build_slices ops cd co (slice # slices) st =
     (if DeletionTimestamp slice = None \<and> DeletionTimestamp co \<noteq> None
      then (st, Some (Plain ''stale informer - refusing to fill cache''))
      else (case build_slice ops cd co slice [0 ..< length (Resources (slice_Spec slice))] st of
              (st', Some e) \<Rightarrow> (st', Some e)
            | (st', None) \<Rightarrow> build_slices ops cd co slices st'))"

definition buildResources ::
  "tree_ops \<Rightarrow> rcodec \<Rightarrow> Cache \<Rightarrow> Composition \<Rightarrow> ResourceSlice list \<Rightarrow> build_state \<times> error option" where
  "buildResources ops cd c co items =
     build_slices ops cd co items \<lparr>bs_resources = no_resources, bs_byIndex = byIndex c, bs_requests = []\<rparr>"

definition fill ::
  "tree_ops \<Rightarrow> rcodec \<Rightarrow> Composition \<Rightarrow> Synthesis \<Rightarrow> ResourceSlice list \<Rightarrow> Cache \<Rightarrow> Cache \<times> (error + ReconRequest list)" where
  "fill ops cd co s items c =
     (case buildResources ops cd c co items of
        (st, Some e) \<Rightarrow> (c\<lparr>byIndex := bs_byIndex st\<rparr>, Inl e)
      | (st, None) \<Rightarrow>
          (c\<lparr>byIndex := bs_byIndex st,
             c_resources := (c_resources c)(syn_key co (UUID s) \<mapsto> bs_resources st),
             synthesisUUIDsByComposition := (synthesisUUIDsByComposition c)
               (key_of co := synthesisUUIDsByComposition c (key_of co) @ [UUID s])\<rparr>,
           Inr (bs_requests st)))"

definition still_referenced :: "Composition option \<Rightarrow> string \<Rightarrow> bool" where
  "still_referenced mco uuid =
     (case mco of
        None \<Rightarrow> False
      | Some co \<Rightarrow>
          (case current co of None \<Rightarrow> False | Some s \<Rightarrow> UUID s = uuid) \<or>
          (case previous co of None \<Rightarrow> False | Some s \<Rightarrow> UUID s = uuid))"

fun purge_uuids ::
  "NamespacedName \<Rightarrow> Composition option \<Rightarrow> string list \<Rightarrow> (SynthesisRef \<rightharpoonup> resources) \<times> string list \<Rightarrow>
   (SynthesisRef \<rightharpoonup> resources) \<times> string list" where
  "purge_uuids nn mco [] st = st"
| "purge_uuids nn mco (uuid # uuids) (rs, remaining) =
     (if still_referenced mco uuid then purge_uuids nn mco uuids (rs, remaining @ [uuid])
      else purge_uuids nn mco uuids
             (rs(\<lparr>sref_CompositionName = nn_Name nn, sref_Namespace = nn_Namespace nn, sref_UUID = uuid\<rparr> := None), remaining))"

definition purge :: "NamespacedName \<Rightarrow> Composition option \<Rightarrow> Cache \<Rightarrow> Cache" where
  "purge nn mco c =
     (case purge_uuids nn mco (synthesisUUIDsByComposition c nn) (c_resources c, []) of
        (rs, remaining) \<Rightarrow>
          c\<lparr>c_resources := rs, synthesisUUIDsByComposition := (synthesisUUIDsByComposition c)(nn := remaining)\<rparr>)"

section \<open>The controller\<close>

record rc_client =
  rc_get_comp :: "NamespacedName \<Rightarrow> api_err + Composition"
  rc_get_slice :: "NamespacedName \<Rightarrow> api_err + ResourceSlice"
  rc_noCache_slice :: "NamespacedName \<Rightarrow> api_err + ResourceSlice"

fun read_slices :: "(NamespacedName \<Rightarrow> api_err + ResourceSlice) \<Rightarrow> string \<Rightarrow> string list \<Rightarrow> api_err + ResourceSlice list" where
  "read_slices get ns [] = Inr []"
| "read_slices get ns (ref # refs) =
     (case get \<lparr>nn_Namespace = ns, nn_Name = ref\<rparr> of
        Inl e \<Rightarrow> Inl e
      | Inr s \<Rightarrow> (case read_slices get ns refs of Inl e \<Rightarrow> Inl e | Inr ss \<Rightarrow> Inr (s # ss)))"

definition populateCache ::
  "tree_ops \<Rightarrow> rcodec \<Rightarrow> rc_client \<Rightarrow> Composition \<Rightarrow> Synthesis option \<Rightarrow> Cache \<Rightarrow> Cache \<times> (error + ReconRequest list)" where
  "populateCache ops cd cl co syn c =
     (case syn of
        None \<Rightarrow> (c, Inr [])
      | Some s \<Rightarrow>
          if Synthesized s = None then (c, Inr [])
          else if UUID s = [] then (c, Inr [])
          else if hasSynthesis c co s then (c, Inr [])
          else
            (case read_slices (rc_noCache_slice cl) (Namespace co) (ResourceSlices s) of
               Inl e \<Rightarrow>
                 (c, case IgnoreNotFound (Wrap ''unable to get resource slice'' e) of
                       None \<Rightarrow> Inr [] | Some e' \<Rightarrow> Inl e')
             | Inr slices \<Rightarrow> fill ops cd co s slices c))"

text \<open>The handler threads the cache and answers with the requests it adds to the work queue.\<close>

definition rc_Reconcile ::
  "tree_ops \<Rightarrow> rcodec \<Rightarrow> rc_client \<Rightarrow> NamespacedName \<Rightarrow> Cache \<Rightarrow> Cache \<times> ReconRequest list \<times> (error + ctrl_Result)" where
  "rc_Reconcile ops cd cl req c =
     (case rc_get_comp cl req of
        Inl NotFound \<Rightarrow> (purge req None c, [], Inr done_result)
      | Inl e \<Rightarrow> (c, [], Inl (Wrap ''getting resource'' e))
      | Inr co \<Rightarrow>
          (case populateCache ops cd cl co (previous co) c of
             (c1, Inl e) \<Rightarrow> (c1, [], Inl e)
           | (c1, Inr prevReqs) \<Rightarrow>
               (case populateCache ops cd cl co (current co) c1 of
                  (c2, Inl e) \<Rightarrow> (c2, [], Inl e)
                | (c2, Inr currentReqs) \<Rightarrow>
                    (purge req (Some co) c2, prevReqs @ currentReqs,
                     Inr (if length currentReqs + length prevReqs > 0 then requeue_result else done_result)))))"

fun transition_requests ::
  "tree_ops \<Rightarrow> Cache \<Rightarrow> ResourceSlice \<Rightarrow> OwnerReference \<Rightarrow> string \<Rightarrow> nat \<Rightarrow> ResourceState list \<Rightarrow> ReconRequest list" where
  "transition_requests ops c slice owner ns i [] = []"
| "transition_requests ops c slice owner ns i (st # sts) =
     (if rs_Ready st = None then transition_requests ops c slice owner ns (Suc i) sts
      else (case getByIndex c \<lparr>si_Index = i, si_SliceName = Name slice, si_Namespace = Namespace slice\<rparr> of
              None \<Rightarrow> []
            | Some res \<Rightarrow>
                let synRef = \<lparr>sref_CompositionName = or_Name owner, sref_Namespace = ns,
                              sref_UUID = SynthesisUUID (slice_Spec slice)\<rparr>;
                    rs = RangeByReadinessGroup ops c synRef (res_ReadinessGroup res) True @
                         (case res_DefinedGroupKind res of None \<Rightarrow> [] | Some gk \<Rightarrow> getByGK c synRef gk)
                in map (\<lambda>r. \<lparr>req_Resource = res_Ref r,
                     req_Composition = \<lparr>nn_Namespace = Namespace slice, nn_Name = or_Name owner\<rparr>\<rparr>) rs @
                   transition_requests ops c slice owner ns (Suc i) sts))"

definition HandleReadinessTransition ::
  "tree_ops \<Rightarrow> rc_client \<Rightarrow> Cache \<Rightarrow> NamespacedName \<Rightarrow> ReconRequest list \<times> (error + ctrl_Result)" where
  "HandleReadinessTransition ops cl c req =
     (case rc_get_slice cl req of
        Inl e \<Rightarrow> ([], ignore_not_found (Wrap ''unable to get resource slice'' e))
      | Inr slice \<Rightarrow>
          (case GetControllerOf slice of
             None \<Rightarrow> ([], Inr done_result)
           | Some owner \<Rightarrow>
               (transition_requests ops c slice owner (nn_Namespace req) 0 (slice_states slice), Inr done_result)))"

text \<open>
  When every ready resource of the slice is in the cache, the transition wakes up exactly what the code
  finds after each of them: the range in ascending direction, and the custom resources whose definition
  became ready.
\<close>

definition woken :: "tree_ops \<Rightarrow> Cache \<Rightarrow> SynthesisRef \<Rightarrow> Res \<Rightarrow> Res set" where
  "woken ops c syn res =
     set (RangeByReadinessGroup ops c syn (res_ReadinessGroup res) True) \<union>
     (case res_DefinedGroupKind res of None \<Rightarrow> {} | Some gk \<Rightarrow> set (getByGK c syn gk))"

lemma transition_requests_woken:
  assumes "\<forall>j < length sts. rs_Ready (sts ! j) \<noteq> None \<longrightarrow>
      getByIndex c \<lparr>si_Index = i + j, si_SliceName = Name slice, si_Namespace = Namespace slice\<rparr> = Some (f (i + j))"
    and "syn = \<lparr>sref_CompositionName = or_Name owner, sref_Namespace = ns, sref_UUID = SynthesisUUID (slice_Spec slice)\<rparr>"
  shows "req_Resource ` set (transition_requests ops c slice owner ns i sts) =
     res_Ref ` (\<Union>j \<in> {j. j < length sts \<and> rs_Ready (sts ! j) \<noteq> None}. woken ops c syn (f (i + j)))"
  using assms(1)
proof (induction sts arbitrary: i)
  case (Cons st sts)
  have IH: "req_Resource ` set (transition_requests ops c slice owner ns (Suc i) sts) =
     res_Ref ` (\<Union>j \<in> {j. j < length sts \<and> rs_Ready (sts ! j) \<noteq> None}. woken ops c syn (f (Suc i + j)))"
    using Cons.prems by (intro Cons.IH) fastforce
  have split: "{j. j < length (st # sts) \<and> rs_Ready ((st # sts) ! j) \<noteq> None} =
     (if rs_Ready st = None then {} else {0}) \<union> Suc ` {j. j < length sts \<and> rs_Ready (sts ! j) \<noteq> None}"
    by (auto simp: less_Suc_eq_0_disj)
  show ?case
  proof (cases "rs_Ready st = None")
    case True
    with IH show ?thesis unfolding split by simp
  next
    case False
    with Cons.prems have "getByIndex c \<lparr>si_Index = i, si_SliceName = Name slice, si_Namespace = Namespace slice\<rparr> = Some (f i)" by auto
    then have eq: "req_Resource ` set (transition_requests ops c slice owner ns i (st # sts)) =
        res_Ref ` woken ops c syn (f i) \<union> req_Resource ` set (transition_requests ops c slice owner ns (Suc i) sts)"
      using False by (cases "res_DefinedGroupKind (f i)") (auto simp: woken_def assms(2) Let_def image_Un image_image)
    show ?thesis unfolding eq IH split if_not_P [OF False] by (simp add: image_Un)
  qed
qed simp

section \<open>The queue processor\<close>

datatype queue_action = AddRateLimited | Forget | AddAfter duration | Done

text \<open>
  One round of the processor on an item of the queue, \<open>None\<close> when the queue is shut down and
  \<open>Some None\<close> when the item is not a request: what happens to the item, and whether to go on.
\<close>

definition processQueueItem ::
  "(ReconRequest \<Rightarrow> error + ctrl_Result) \<Rightarrow> ReconRequest option option \<Rightarrow> queue_action list \<times> bool" where
  "processQueueItem handler item =
     (case item of
        None \<Rightarrow> ([], False)
      | Some None \<Rightarrow> ([Done], False)
      | Some (Some req) \<Rightarrow>
          (case handler req of
             Inl e \<Rightarrow> ([AddRateLimited, Done], True)
           | Inr result \<Rightarrow>
               if Requeue result then ([AddRateLimited, Done], True)
               else if RequeueAfter result \<noteq> 0 then ([Forget, AddAfter (RequeueAfter result), Done], True)
               else ([Forget, Done], True)))"

text \<open>The loop of \<open>Start\<close> on the items that the queue hands out one after the other.\<close>

fun qp_Start :: "(ReconRequest \<Rightarrow> error + ctrl_Result) \<Rightarrow> ReconRequest option option list \<Rightarrow> queue_action list" where
  "qp_Start handler [] = []"
| "qp_Start handler (item # items) =
     (case processQueueItem handler item of
        (acts, True) \<Rightarrow> acts @ qp_Start handler items
      | (acts, False) \<Rightarrow> acts)"

lemma qp_Start_requests:
  "qp_Start handler (map (\<lambda>r. Some (Some r)) reqs @ None # rest) =
     concat (map (\<lambda>r. fst (processQueueItem handler (Some (Some r)))) reqs)"
  by (induction reqs) (auto simp: processQueueItem_def split: sum.splits)

text \<open>No work is dropped: a request is forgotten only when its handler succeeded and did not ask for a requeue with backoff.\<close>

lemma processQueueItem_keeps_failures:
  "fst (processQueueItem handler (Some (Some r))) = acts \<Longrightarrow>
     AddRateLimited \<in> set acts \<longleftrightarrow> (\<exists>e. handler r = Inl e) \<or> (\<exists>res. handler r = Inr res \<and> Requeue res)"
  by (auto simp: processQueueItem_def split: sum.splits if_splits)

section \<open>An instance of the tree\<close>

fun rb_GetNode :: "gtree \<Rightarrow> int \<Rightarrow> gtree" where
  "rb_GetNode rbt.Empty k = rbt.Empty"
| "rb_GetNode (Branch c l k' v r) k =
     (if k < k' then rb_GetNode l k else if k' < k then rb_GetNode r k else Branch c l k' v r)"

fun rb_Ceiling :: "gtree \<Rightarrow> int \<Rightarrow> Res list option" where
  "rb_Ceiling rbt.Empty k = None"
| "rb_Ceiling (Branch c l k' v r) k =
     (if k' < k then rb_Ceiling r k else (case rb_Ceiling l k of None \<Rightarrow> Some v | Some w \<Rightarrow> Some w))"

fun rb_Floor :: "gtree \<Rightarrow> int \<Rightarrow> Res list option" where
  "rb_Floor rbt.Empty k = None"
| "rb_Floor (Branch c l k' v r) k =
     (if k < k' then rb_Floor l k else (case rb_Floor r k of None \<Rightarrow> Some v | Some w \<Rightarrow> Some w))"

definition rb_ops :: tree_ops where
  "rb_ops = \<lparr>t_Get = rbt_lookup, t_GetNode = rb_GetNode, t_Put = (\<lambda>t k v. rbt_insert k v t),
     t_Ceiling = rb_Ceiling, t_Floor = rb_Floor\<rparr>"

lemma tkeys_Branch:
  assumes "rbt_sorted (Branch c l k v r)"
  shows "tkeys (Branch c l k v r) = insert k (tkeys l \<union> tkeys r)"
    "\<forall>x \<in> tkeys l. x < k" "\<forall>x \<in> tkeys r. k < x"
proof -
  have s: "rbt_sorted l" "rbt_sorted r" "l |\<guillemotleft> k" "k \<guillemotleft>| r"
    using assms by auto
  show "\<forall>x \<in> tkeys l. x < k"
    using s(1,3) by (simp add: rbt_lookup_keys rbt_less_prop)
  show "\<forall>x \<in> tkeys r. k < x"
    using s(2,4) by (simp add: rbt_lookup_keys rbt_greater_prop)
  show "tkeys (Branch c l k v r) = insert k (tkeys l \<union> tkeys r)"
    unfolding rbt_lookup_keys [OF assms] rbt_lookup_keys [OF s(1)] rbt_lookup_keys [OF s(2)]
    by (simp add: keys_def)
qed

lemma lookup_left:
  assumes "rbt_sorted (Branch c l k v r)" "rbt_lookup l x = Some w"
  shows "rbt_lookup (Branch c l k v (r :: gtree)) x = Some w"
proof -
  have "x < k" using tkeys_Branch(2) [OF assms(1)] assms(2) by blast
  with assms(2) show ?thesis by simp
qed

lemma lookup_right:
  assumes "rbt_sorted (Branch c l k v r)" "rbt_lookup r x = Some w"
  shows "rbt_lookup (Branch c l k v (r :: gtree)) x = Some w"
proof -
  have "k < x" using tkeys_Branch(3) [OF assms(1)] assms(2) by blast
  with assms(2) show ?thesis by simp
qed

lemma least_ge_Un:
  "\<forall>y \<in> A. y < k' \<Longrightarrow> k' < k \<Longrightarrow> least_ge B k x \<Longrightarrow> least_ge (insert k' (A \<union> B)) k x"
  "\<forall>y \<in> A. y < k' \<Longrightarrow> \<forall>y \<in> B. k' < y \<Longrightarrow> least_ge A k x \<Longrightarrow> least_ge (insert k' (A \<union> B)) k x"
  "\<forall>y \<in> A. y < k \<Longrightarrow> \<forall>y \<in> B. k' < y \<Longrightarrow> k \<le> k' \<Longrightarrow> least_ge (insert k' (A \<union> B)) k k'"
  by (force simp: least_ge_def)+

lemma greatest_le_Un:
  "\<forall>y \<in> B. k' < y \<Longrightarrow> k < k' \<Longrightarrow> greatest_le A k x \<Longrightarrow> greatest_le (insert k' (A \<union> B)) k x"
  "\<forall>y \<in> A. y < k' \<Longrightarrow> \<forall>y \<in> B. k' < y \<Longrightarrow> greatest_le B k x \<Longrightarrow> greatest_le (insert k' (A \<union> B)) k x"
  "\<forall>y \<in> A. y < k' \<Longrightarrow> \<forall>y \<in> B. k < y \<Longrightarrow> k' \<le> k \<Longrightarrow> greatest_le (insert k' (A \<union> B)) k k'"
  by (force simp: greatest_le_def)+

lemma all_below:
  "\<forall>y \<in> A. y < k' \<Longrightarrow> k' < k \<Longrightarrow> \<forall>y \<in> B. y < k \<Longrightarrow> \<forall>c \<in> insert k' (A \<union> B). c < (k :: int)"
  by force

lemma all_above:
  "\<forall>y \<in> B. k' < y \<Longrightarrow> k < k' \<Longrightarrow> \<forall>y \<in> A. k < y \<Longrightarrow> \<forall>c \<in> insert k' (A \<union> B). (k :: int) < c"
  by force

lemma rb_GetNode_none: "rbt_lookup t k = None \<Longrightarrow> rb_GetNode t k = rbt.Empty"
  by (induction t) (auto split: if_splits)

lemma rb_GetNode_some:
  "rbt_lookup t k = Some v \<Longrightarrow> \<exists>c l r. rb_GetNode t k = Branch c l k v r \<and> subtree_of (Branch c l k v r) t"
  by (induction t) (fastforce split: if_splits)+

lemma rb_Ceiling_spec:
  "rbt_sorted t \<Longrightarrow>
     (case rb_Ceiling t k of
        None \<Rightarrow> \<forall>c \<in> tkeys t. c < k
      | Some w \<Rightarrow> \<exists>c. least_ge (tkeys t) k c \<and> rbt_lookup t c = Some w)"
proof (induction t)
  case (Branch c l k' v r)
  note d = tkeys_Branch [OF Branch.prems]
  have s: "rbt_sorted l" "rbt_sorted r" using Branch.prems by auto
  show ?case
  proof (cases "k' < k")
    case True
    show ?thesis
    proof (cases "rb_Ceiling r k")
      case None
      then have "\<forall>c \<in> tkeys r. c < k" using Branch.IH(2) [OF s(2)] by simp
      from all_below [OF d(2) True this] have "\<forall>c \<in> insert k' (tkeys l \<union> tkeys r). c < k" .
      with True None show ?thesis unfolding d(1) by simp
    next
      case (Some w)
      with Branch.IH(2) [OF s(2)] obtain x where x: "least_ge (tkeys r) k x" "rbt_lookup r x = Some w" by auto
      have "\<exists>y. least_ge (insert k' (tkeys l \<union> tkeys r)) k y \<and> rbt_lookup (Branch c l k' v r) y = Some w"
        using least_ge_Un(1) [OF d(2) True x(1)] lookup_right [OF Branch.prems x(2)] by blast
      with True Some show ?thesis unfolding d(1) by (simp del: rbt_lookup.simps)
    qed
  next
    case False
    show ?thesis
    proof (cases "rb_Ceiling l k")
      case None
      then have "\<forall>y \<in> tkeys l. y < k" using Branch.IH(1) [OF s(1)] by simp
      from least_ge_Un(3) [OF this d(3)] False None show ?thesis
        unfolding d(1) by (auto intro!: exI [of _ k'])
    next
      case (Some w)
      with Branch.IH(1) [OF s(1)] obtain x where x: "least_ge (tkeys l) k x" "rbt_lookup l x = Some w" by auto
      have "\<exists>y. least_ge (insert k' (tkeys l \<union> tkeys r)) k y \<and> rbt_lookup (Branch c l k' v r) y = Some w"
        using least_ge_Un(2) [OF d(2,3) x(1)] lookup_left [OF Branch.prems x(2)] by blast
      with False Some show ?thesis unfolding d(1) by (simp del: rbt_lookup.simps)
    qed
  qed
qed (simp add: rbt_lookup_Empty)

lemma rb_Floor_spec:
  "rbt_sorted t \<Longrightarrow>
     (case rb_Floor t k of
        None \<Rightarrow> \<forall>c \<in> tkeys t. k < c
      | Some w \<Rightarrow> \<exists>c. greatest_le (tkeys t) k c \<and> rbt_lookup t c = Some w)"
proof (induction t)
  case (Branch c l k' v r)
  note d = tkeys_Branch [OF Branch.prems]
  have s: "rbt_sorted l" "rbt_sorted r" using Branch.prems by auto
  show ?case
  proof (cases "k < k'")
    case True
    show ?thesis
    proof (cases "rb_Floor l k")
      case None
      then have "\<forall>c \<in> tkeys l. k < c" using Branch.IH(1) [OF s(1)] by simp
      from all_above [OF d(3) True this] have "\<forall>c \<in> insert k' (tkeys l \<union> tkeys r). k < c" .
      with True None show ?thesis unfolding d(1) by simp
    next
      case (Some w)
      with Branch.IH(1) [OF s(1)] obtain x where x: "greatest_le (tkeys l) k x" "rbt_lookup l x = Some w" by auto
      have "\<exists>y. greatest_le (insert k' (tkeys l \<union> tkeys r)) k y \<and> rbt_lookup (Branch c l k' v r) y = Some w"
        using greatest_le_Un(1) [OF d(3) True x(1)] lookup_left [OF Branch.prems x(2)] by blast
      with True Some show ?thesis unfolding d(1) by (simp del: rbt_lookup.simps)
    qed
  next
    case False
    show ?thesis
    proof (cases "rb_Floor r k")
      case None
      then have "\<forall>y \<in> tkeys r. k < y" using Branch.IH(2) [OF s(2)] by simp
      from greatest_le_Un(3) [OF d(2) this] False None show ?thesis
        unfolding d(1) by (auto intro!: exI [of _ k'])
    next
      case (Some w)
      with Branch.IH(2) [OF s(2)] obtain x where x: "greatest_le (tkeys r) k x" "rbt_lookup r x = Some w" by auto
      have "\<exists>y. greatest_le (insert k' (tkeys l \<union> tkeys r)) k y \<and> rbt_lookup (Branch c l k' v r) y = Some w"
        using greatest_le_Un(2) [OF d(2,3) x(1)] lookup_right [OF Branch.prems x(2)] by blast
      with False Some show ?thesis unfolding d(1) by (simp del: rbt_lookup.simps)
    qed
  qed
qed (simp add: rbt_lookup_Empty)

lemma lookup_insert_sorted:
  "rbt_sorted t \<Longrightarrow> rbt_lookup (rbt_insert k v t) = (rbt_lookup t)(k \<mapsto> v)"
  by (rule ext) (simp add: rbt_insert_def rbt_lookup_rbt_insertwk split: option.split)

interpretation rb: gods_tree rb_ops
proof
  fix t :: gtree and k v
  assume t: "rbt_sorted t"
  show "t_Get rb_ops t k = rbt_lookup t k" by (simp add: rb_ops_def)
  show "rbt_lookup t k = None \<Longrightarrow> t_GetNode rb_ops t k = rbt.Empty"
    by (simp add: rb_ops_def rb_GetNode_none)
  show "rbt_lookup t k = Some v \<Longrightarrow>
       \<exists>c l r. t_GetNode rb_ops t k = Branch c l k v r \<and> subtree_of (Branch c l k v r) t"
    by (simp add: rb_ops_def rb_GetNode_some)
  show "rbt_sorted (t_Put rb_ops t k v)" "rbt_lookup (t_Put rb_ops t k v) = (rbt_lookup t)(k \<mapsto> v)"
    using t by (simp_all add: rb_ops_def rbt_insert_rbt_sorted lookup_insert_sorted)
  show "case t_Ceiling rb_ops t k of
          None \<Rightarrow> \<forall>c \<in> tkeys t. c < k
        | Some w \<Rightarrow> \<exists>c. least_ge (tkeys t) k c \<and> rbt_lookup t c = Some w"
    using rb_Ceiling_spec [OF t] by (simp add: rb_ops_def)
  show "case t_Floor rb_ops t k of
          None \<Rightarrow> \<forall>c \<in> tkeys t. k < c
        | Some w \<Rightarrow> \<exists>c. greatest_le (tkeys t) k c \<and> rbt_lookup t c = Some w"
    using rb_Floor_spec [OF t] by (simp add: rb_ops_def)
qed

end
