(* ===== verification/Wiring.thy ===== *)
theory Wiring
  imports Commands Watch_Runtime Symphony_Replication Aggregation Liveness Reconstitution
begin

text \<open>
  Which events wake which controller: the constructors \<open>New...Controller\<close> of the controllers register with
  controller-runtime what they watch and how an event becomes requests. The three event handlers that
  controller-runtime provides are arguments whose documented behaviour is the locale \<open>event_sources\<close>.
  The objects that the controllers create are such that their events come back to the controller that
  has to look at them, and the pod lifecycle controller misses the events of synthesizers.
\<close>

section \<open>Events\<close>

datatype obj =
    OPod Pod
  | OComposition Composition
  | OSynthesizer Synthesizer
  | OResourceSlice ResourceSlice
  | OSymphony Symphony
  | ONamespace ObjectMeta

fun kind_of :: "obj \<Rightarrow> kind" where
  "kind_of (OPod _) = KPod"
| "kind_of (OComposition _) = KComposition"
| "kind_of (OSynthesizer _) = KSynthesizer"
| "kind_of (OResourceSlice _) = KResourceSlice"
| "kind_of (OSymphony _) = KSymphony"
| "kind_of (ONamespace _) = KNamespace"

fun obj_key :: "obj \<Rightarrow> NamespacedName" where
  "obj_key (OPod o') = key_of o'"
| "obj_key (OComposition o') = key_of o'"
| "obj_key (OSynthesizer o') = key_of o'"
| "obj_key (OResourceSlice o') = key_of o'"
| "obj_key (OSymphony o') = key_of o'"
| "obj_key (ONamespace o') = key_of o'"

fun obj_controller :: "obj \<Rightarrow> OwnerReference option" where
  "obj_controller (OPod o') = GetControllerOf o'"
| "obj_controller (OComposition o') = GetControllerOf o'"
| "obj_controller (OSynthesizer o') = GetControllerOf o'"
| "obj_controller (OResourceSlice o') = GetControllerOf o'"
| "obj_controller (OSymphony o') = GetControllerOf o'"
| "obj_controller (ONamespace o') = GetControllerOf o'"

datatype event = Created obj | Updated obj obj | Deleted obj

fun subject :: "event \<Rightarrow> obj" where
  "subject (Created o') = o'"
| "subject (Updated old new) = new"
| "subject (Deleted o') = o'"

fun objects :: "event \<Rightarrow> obj list" where
  "objects (Created o') = [o']"
| "objects (Updated old new) = [old, new]"
| "objects (Deleted o') = [o']"

text \<open>
  The request for the controlling owner of a given kind, in the namespace of the object. (References in
  the model have no API group; all owners here are of Eno's group.)
\<close>

definition owner_requests :: "string \<Rightarrow> obj \<Rightarrow> NamespacedName list" where
  "owner_requests k o' =
     (case obj_controller o' of
        None \<Rightarrow> []
      | Some owner \<Rightarrow>
          if or_Kind owner = k then [\<lparr>nn_Namespace = nn_Namespace (obj_key o'), nn_Name = or_Name owner\<rparr>] else [])"

record builder =
  EnqueueRequestForObject :: "event \<Rightarrow> NamespacedName list"
  EnqueueRequestForOwner :: "string \<Rightarrow> event \<Rightarrow> NamespacedName list"
  EnqueueRequestsFromMapFunc :: "(obj \<Rightarrow> NamespacedName list) \<Rightarrow> event \<Rightarrow> NamespacedName list"

locale event_sources =
  fixes b :: builder
  assumes for_object: "set (EnqueueRequestForObject b ev) = {obj_key (subject ev)}"
    and for_owner: "set (EnqueueRequestForOwner b k ev) = (\<Union>o' \<in> set (objects ev). set (owner_requests k o'))"
    and from_map: "set (EnqueueRequestsFromMapFunc b f ev) = (\<Union>o' \<in> set (objects ev). set (f o'))"

definition kube_builder :: builder where
  "kube_builder =
     \<lparr>EnqueueRequestForObject = (\<lambda>ev. [obj_key (subject ev)]),
      EnqueueRequestForOwner = (\<lambda>k ev. concat (map (owner_requests k) (objects ev))),
      EnqueueRequestsFromMapFunc = (\<lambda>f ev. remdups (concat (map f (objects ev))))\<rparr>"

interpretation kube_events: event_sources kube_builder
  by unfold_locales (simp_all add: kube_builder_def)

text \<open>A registration: what is watched, with the handler of its events.\<close>

type_synonym registration = "(kind \<times> (event \<Rightarrow> NamespacedName list)) list"

definition deliver :: "registration \<Rightarrow> event \<Rightarrow> NamespacedName list" where
  "deliver reg ev = concat (map (\<lambda>(k, h). if k = kind_of (subject ev) then h ev else []) reg)"

section \<open>The constructors of the controllers\<close>

definition rollout_NewController :: "builder \<Rightarrow> registration" where
  "rollout_NewController b = [(KComposition, EnqueueRequestsFromMapFunc b SingleEventHandler)]"

fun newCompositionHandler :: "event \<Rightarrow> NamespacedName list" where
  "newCompositionHandler (Updated old new) =
     (case comp_update_event (case new of OComposition co \<Rightarrow> Some co | _ \<Rightarrow> None)
        (case old of OComposition co \<Rightarrow> Some co | _ \<Rightarrow> None) of
        None \<Rightarrow> []
      | Some name \<Rightarrow> [\<lparr>nn_Namespace = [], nn_Name = name\<rparr>])"
| "newCompositionHandler _ = []"

definition NewSynthesizerController :: "builder \<Rightarrow> registration" where
  "NewSynthesizerController b =
     [(KSynthesizer, EnqueueRequestForObject b), (KComposition, newCompositionHandler)]"

fun pod_map_func :: "obj \<Rightarrow> NamespacedName list" where
  "pod_map_func (OPod pod) = PodToCompMapFunc pod"
| "pod_map_func _ = []"

definition NewPodLifecycleController :: "builder \<Rightarrow> registration" where
  "NewPodLifecycleController b =
     [(KComposition, EnqueueRequestForObject b), (KPod, EnqueueRequestsFromMapFunc b pod_map_func)]"

text \<open>The handler of composition events lists the slices of the composition; the list may fail.\<close>

fun as_comp_event :: "event \<Rightarrow> comp_event option" where
  "as_comp_event (Created (OComposition co)) = Some (CreateEvent co)"
| "as_comp_event (Updated (OComposition old) (OComposition new)) = Some (UpdateEvent old new)"
| "as_comp_event (Deleted (OComposition co)) = Some (DeleteEvent co)"
| "as_comp_event _ = None"

definition NewSliceCleanupController :: "builder \<Rightarrow> (Composition \<Rightarrow> api_err option) \<Rightarrow> ResourceSlice list \<Rightarrow> registration" where
  "NewSliceCleanupController b list_err slices =
     [(KResourceSlice, EnqueueRequestForObject b),
      (KComposition, \<lambda>ev. case as_comp_event ev of
                              None \<Rightarrow> []
                            | Some e \<Rightarrow> CompositionToResourceSliceHandler list_err slices e)]"

definition watchdog_NewController :: "builder \<Rightarrow> registration" where
  "watchdog_NewController b = [(KComposition, EnqueueRequestsFromMapFunc b SingleEventHandler)]"

definition replication_NewSymphonyController :: "builder \<Rightarrow> registration" where
  "replication_NewSymphonyController b =
     [(KSymphony, EnqueueRequestForObject b), (KComposition, EnqueueRequestForOwner b ''Symphony'')]"

definition aggregation_NewSymphonyController :: "builder \<Rightarrow> registration" where
  "aggregation_NewSymphonyController b =
     [(KSymphony, EnqueueRequestForObject b), (KComposition, EnqueueRequestForOwner b ''Symphony'')]"

definition NewCompositionController :: "builder \<Rightarrow> registration" where
  "NewCompositionController b = [(KComposition, EnqueueRequestForObject b)]"

definition NewSliceController :: "builder \<Rightarrow> registration" where
  "NewSliceController b =
     [(KComposition, EnqueueRequestForObject b), (KResourceSlice, EnqueueRequestForOwner b ''Composition'')]"

text \<open>The watch controller and the pruning controller are registered one after the other.\<close>

definition watch_NewController :: "builder \<Rightarrow> registration \<times> registration" where
  "watch_NewController b =
     ([(KSynthesizer, EnqueueRequestsFromMapFunc b SingleEventHandler)], [(KComposition, EnqueueRequestForObject b)])"

definition NewSynthesisConcurrencyLimiter :: "builder \<Rightarrow> registration" where
  "NewSynthesisConcurrencyLimiter b = [(KComposition, EnqueueRequestsFromMapFunc b SingleEventHandler)]"

definition namespace_request :: "obj \<Rightarrow> NamespacedName list" where
  "namespace_request o' = [\<lparr>nn_Namespace = [], nn_Name = nn_Namespace (obj_key o')\<rparr>]"

fun kind_named :: "string \<Rightarrow> kind option" where
  "kind_named k =
     (if k = ''Symphony'' then Some KSymphony
      else if k = ''Composition'' then Some KComposition
      else if k = ''ResourceSlice'' then Some KResourceSlice
      else None)"

definition NewNamespaceController :: "builder \<Rightarrow> registration" where
  "NewNamespaceController b =
     (KNamespace, EnqueueRequestForObject b) #
     concat (map (\<lambda>kind. case kind_named kind of
                             None \<Rightarrow> []
                           | Some k \<Rightarrow> [(k, EnqueueRequestsFromMapFunc b namespace_request)]) orphanableKinds)"

text \<open>The two controllers of the reconstitution: readiness transitions and the reconstituter.\<close>

definition reconstitution_newController :: "builder \<Rightarrow> registration \<times> registration" where
  "reconstitution_newController b =
     ([(KResourceSlice, EnqueueRequestForObject b)],
      [(KComposition, EnqueueRequestForObject b), (KResourceSlice, EnqueueRequestForOwner b ''Composition'')])"

section \<open>Lemmas\<close>

text \<open>What the API server keeps of an object that is created: names and versions are its own.\<close>

definition stored_from :: "'a ObjectMeta_scheme \<Rightarrow> 'a ObjectMeta_scheme \<Rightarrow> bool" where
  "stored_from o' orig \<longleftrightarrow>
     Namespace o' = Namespace orig \<and> Labels o' = Labels orig \<and> OwnerReferences o' = OwnerReferences orig"

lemma deliver_in: "(k, h) \<in> set reg \<Longrightarrow> k = kind_of (subject ev) \<Longrightarrow> set (h ev) \<subseteq> set (deliver reg ev)"
  by (auto simp: deliver_def)

lemma subject_object: "subject ev \<in> set (objects ev)"
  by (cases ev) auto

lemma PodToCompMapFunc_cong: "Labels q = Labels p \<Longrightarrow> PodToCompMapFunc q = PodToCompMapFunc p"
  by (simp add: PodToCompMapFunc_def PodReferencesComposition_def)

lemma lc_Reconcile_created_pod:
  assumes "CreatePod p \<in> set (fst (lc_Reconcile cfg en cl req))"
  shows "\<exists>co syn co'. lc_get_comp cl req = Inr co \<and> lc_get_synth cl (SynthesizerName (comp_Spec co)) = Inr syn \<and>
     newPod cfg co' syn = Inr p \<and> Name co' = Name co \<and> Namespace co' = Namespace co"
proof -
  from assms obtain co pods syn where co: "lc_get_comp cl req = Inr co" "find_synth cl co = Inr syn"
    "CreatePod p \<in> set (fst (lc_with_pods cfg en cl co syn pods))"
    by (auto simp: lc_Reconcile_def split: sum.splits api_err.splits if_splits)
  from co(3) obtain s where s: "syn = Some s" "CreatePod p \<in> set (fst (synthesize cfg en cl co s))"
    by (rule lc_with_pods_creates)
  have synth: "lc_get_synth cl (SynthesizerName (comp_Spec co)) = Inr s"
    using co(2) s(1) by (auto simp: find_synth_def split: sum.splits api_err.splits if_splits)
  obtain sw co' where sw: "shouldSwapStates (sort_revs en) s co = (sw, co')" by force
  with s(2) obtain cur where "CreatePod p \<in> set (fst (createPod cfg cl co' s cur))"
    by (auto simp: synthesize_def Let_def split: bool.splits option.splits if_splits)
  then have "newPod cfg co' s = Inr p" by (rule createPod_creates)
  with co(1) synth shouldSwapStates_frame [OF sw] show ?thesis by blast
qed

lemma Synthesize_created_slice:
  assumes "CreateSlice s \<in> set (fst (Synthesize ex env))"
  shows "\<exists>co ms. ex_get_comp ex 0 \<lparr>nn_Namespace = CompositionNamespace env, nn_Name = CompositionName env\<rparr> = Inr co \<and> s = new_slice co ms"
proof -
  have "CreateSlice s \<notin> set (fst (updateComposition ex env co f))" for co f
    by (auto simp: updateComposition_def update_attempt_def Let_def split: sum.splits)
  then have no: "CreateSlice s \<notin> set us" if "updateComposition ex env co f = (us, res)" for co f us res
    using that by (metis fst_conv)
  from assms no obtain co out where co: "ex_get_comp ex 0 \<lparr>nn_Namespace = CompositionNamespace env, nn_Name = CompositionName env\<rparr> = Inr co"
    "CreateSlice s \<in> set (fst (writeSlices ex co out))"
    by (auto simp: Synthesize_def split: sum.splits prod.splits if_splits dest: no) (metis fst_conv)+
  from co(2) write_all_requests obtain prev slices where "Slice (ex_codec ex) co prev (rl_Items out) maxSliceJsonBytes = Inr slices" "s \<in> set slices"
    by (fastforce simp: writeSlices_def split: sum.splits)
  then have "s \<in> range (new_slice co)" by (auto simp: Slice_def split: sum.splits)
  with co(1) show ?thesis by blast
qed

lemma reconcileForward_created:
  "CreateComposition co \<in> set (fst (reconcileForward env cl symph existing vs)) \<Longrightarrow> \<exists>v \<in> set vs. co = variation_comp symph v"
  by (induction vs) (auto simp: create_for_def Let_def split: list.splits option.splits sum.splits if_splits)

lemma stage_requests: "r \<in> set (fst (stage x next)) \<Longrightarrow> r \<in> set (fst x) \<or> r \<in> set (fst next)"
  by (auto simp: stage_def split: prod.splits sum.splits bool.splits)

lemma yr_Reconcile_created_comp:
  assumes "CreateComposition co \<in> set (fst (yr_Reconcile env cl req))"
  shows "\<exists>symph v. yr_get_symph cl req = Inr symph \<and> v \<in> set (Variations (symph_Spec symph)) \<and> co = variation_comp symph v"
proof -
  have "CreateComposition co \<notin> set (fst (reconcileReverse env wr symph comps))"
    "CreateComposition co \<notin> set (fst (syncStatus env wr symph comps))"
    "CreateComposition co \<notin> set (fst (release_symphony wr symph comps))" for wr symph comps
    by (auto simp: reconcileReverse_def syncStatus_def release_symphony_def Let_def
        split: sum.splits option.splits prod.splits if_splits list.splits)
  with assms obtain symph existing where "yr_get_symph cl req = Inr symph"
    "CreateComposition co \<in> set (fst (reconcileForward env cl symph existing (Variations (symph_Spec symph))))"
    unfolding yr_Reconcile_def by (auto split: sum.splits if_splits dest!: stage_requests)
  with reconcileForward_created show ?thesis by blast
qed

lemma owner_event:
  assumes "event_sources b" "(k, EnqueueRequestForOwner b ok) \<in> set reg" "kind_of (subject ev) = k"
    and "obj_controller (subject ev) = Some owner" "or_Kind owner = ok"
  shows "\<lparr>nn_Namespace = nn_Namespace (obj_key (subject ev)), nn_Name = or_Name owner\<rparr> \<in> set (deliver reg ev)"
proof -
  have "\<lparr>nn_Namespace = nn_Namespace (obj_key (subject ev)), nn_Name = or_Name owner\<rparr> \<in> set (owner_requests ok (subject ev))"
    using assms(4,5) by (simp add: owner_requests_def)
  with event_sources.for_owner [OF assms(1), of ok ev] subject_object [of ev] deliver_in [OF assms(2), of ev] assms(3)
  show ?thesis by blast
qed

lemma pod_event:
  assumes "event_sources b" "subject ev = OPod q"
  shows "set (PodToCompMapFunc q) \<subseteq> set (deliver (NewPodLifecycleController b) ev)"
proof -
  have "set (pod_map_func (OPod q)) \<subseteq> set (EnqueueRequestsFromMapFunc b pod_map_func ev)"
    using event_sources.from_map [OF assms(1), of pod_map_func ev] subject_object [of ev] assms(2) by fastforce
  moreover have "set (EnqueueRequestsFromMapFunc b pod_map_func ev) \<subseteq> set (deliver (NewPodLifecycleController b) ev)"
    by (rule deliver_in [where k = KPod]) (simp_all add: NewPodLifecycleController_def assms(2))
  ultimately show ?thesis by simp
qed

lemma created_pod_wakes:
  assumes "event_sources b" "CreatePod p \<in> set (fst (lc_Reconcile cfg en cl req))"
    and "\<forall>co. lc_get_comp cl req = Inr co \<longrightarrow> key_of co = req"
    and "\<forall>n syn. lc_get_synth cl n = Inr syn \<longrightarrow> overrides_spare_labels syn"
    and "nn_Name req \<noteq> []" "nn_Namespace req \<noteq> []" "subject ev = OPod q" "stored_from q p"
  shows "req \<in> set (deliver (NewPodLifecycleController b) ev)"
proof -
  from lc_Reconcile_created_pod [OF assms(2)] obtain co syn co' where co: "lc_get_comp cl req = Inr co"
    "lc_get_synth cl (SynthesizerName (comp_Spec co)) = Inr syn" "newPod cfg co' syn = Inr p"
    "Name co' = Name co" "Namespace co' = Namespace co" by blast
  have key: "key_of co = req" using assms(3) co(1) by blast
  then have names: "Name co' = nn_Name req" "Namespace co' = nn_Namespace req" using co(4,5) by (auto simp: key_of_def)
  have "PodToCompMapFunc p = [key_of co']"
    using newPod_indexed [OF co(3)] assms(4-6) co(2) names by auto
  moreover have "key_of co' = req" using key co(4,5) by (simp add: key_of_def)
  ultimately have "PodToCompMapFunc q = [req]"
    using PodToCompMapFunc_cong [of q p] assms(8) by (simp add: stored_from_def)
  with pod_event [OF assms(1,7)] show ?thesis by simp
qed

lemma created_slice_wakes:
  assumes "event_sources b" "CreateSlice s \<in> set (fst (Synthesize ex env))"
    and "\<forall>co. ex_get_comp ex 0 nn = Inr co \<longrightarrow> key_of co = nn" "subject ev = OResourceSlice s'" "stored_from s' s"
    and comp_def: "nn = \<lparr>nn_Namespace = CompositionNamespace env, nn_Name = CompositionName env\<rparr>"
  shows "nn \<in> set (deliver (NewSliceController b) ev) \<and> nn \<in> set (deliver (snd (reconstitution_newController b)) ev)"
proof -
  from Synthesize_created_slice [OF assms(2)] assms(3) obtain co ms where co: "key_of co = nn" "s = new_slice co ms"
    unfolding comp_def by blast
  let ?owner = "\<lparr>or_Kind = ''Composition'', or_Name = Name co, or_UID = UID co, or_Controller = True\<rparr>"
  have owner: "obj_controller (subject ev) = Some ?owner" "or_Kind ?owner = ''Composition''"
    "\<lparr>nn_Namespace = nn_Namespace (obj_key (subject ev)), nn_Name = or_Name ?owner\<rparr> = nn"
    using assms(4,5) co by (auto simp: stored_from_def new_slice_def GetControllerOf_def key_of_def)
  show ?thesis
    using owner_event [OF assms(1) _ _ owner(1,2), of KResourceSlice "NewSliceController b", unfolded owner(3)]
      owner_event [OF assms(1) _ _ owner(1,2), of KResourceSlice "snd (reconstitution_newController b)", unfolded owner(3)] assms(4)
    by (simp add: NewSliceController_def reconstitution_newController_def)
qed

lemma created_composition_wakes:
  assumes "event_sources b" "CreateComposition co \<in> set (fst (yr_Reconcile env cl req))"
    and "\<forall>symph. yr_get_symph cl req = Inr symph \<longrightarrow> key_of symph = req" "subject ev = OComposition co'" "stored_from co' co"
  shows "req \<in> set (deliver (replication_NewSymphonyController b) ev) \<and> req \<in> set (deliver (aggregation_NewSymphonyController b) ev)"
proof -
  from yr_Reconcile_created_comp [OF assms(2)] assms(3) obtain symph v where co: "key_of symph = req" "co = variation_comp symph v"
    by blast
  let ?owner = "\<lparr>or_Kind = ''Symphony'', or_Name = Name symph, or_UID = UID symph, or_Controller = True\<rparr>"
  have owner: "obj_controller (subject ev) = Some ?owner" "or_Kind ?owner = ''Symphony''"
    "\<lparr>nn_Namespace = nn_Namespace (obj_key (subject ev)), nn_Name = or_Name ?owner\<rparr> = req"
    using assms(4,5) co by (auto simp: stored_from_def variation_comp_def GetControllerOf_def key_of_def)
  show ?thesis
    using owner_event [OF assms(1) _ _ owner(1,2), of KComposition "replication_NewSymphonyController b", unfolded owner(3)]
      owner_event [OF assms(1) _ _ owner(1,2), of KComposition "aggregation_NewSymphonyController b", unfolded owner(3)] assms(4)
    by (simp add: replication_NewSymphonyController_def aggregation_NewSymphonyController_def)
qed

text \<open>
  C15. The objects that the controllers create report back: whatever happens to a pod that the pod
  lifecycle controller created, to a slice that the executor created, or to a composition that the
  symphony controller created, as long as its namespace, labels and owner references stay, the event
  wakes the pod lifecycle controller for the composition that the pod belongs to, the slice aggregation
  and the reconstituter for the composition of the slice, and both symphony controllers for the symphony.
  (Reads answer the object that was asked for, and no synthesizer overrides the labels that Eno uses.)
\<close>
theorem created_objects_report_back:
  assumes "event_sources b"
    and "\<forall>co. lc_get_comp lcl req = Inr co \<longrightarrow> key_of co = req" "nn_Name req \<noteq> []" "nn_Namespace req \<noteq> []"
    and "\<forall>n syn. lc_get_synth lcl n = Inr syn \<longrightarrow> overrides_spare_labels syn"
    and "\<forall>co. ex_get_comp ex 0 nn = Inr co \<longrightarrow> key_of co = nn"
      "nn = \<lparr>nn_Namespace = CompositionNamespace env, nn_Name = CompositionName env\<rparr>"
    and "\<forall>symph. yr_get_symph ycl sreq = Inr symph \<longrightarrow> key_of symph = sreq"
  shows "(CreatePod p \<in> set (fst (lc_Reconcile cfg en lcl req)) \<and> subject ev = OPod q \<and> stored_from q p \<longrightarrow>
        req \<in> set (deliver (NewPodLifecycleController b) ev)) \<and>
     (CreateSlice s \<in> set (fst (Synthesize ex env)) \<and> subject ev = OResourceSlice s' \<and> stored_from s' s \<longrightarrow>
        nn \<in> set (deliver (NewSliceController b) ev) \<inter> set (deliver (snd (reconstitution_newController b)) ev)) \<and>
     (CreateComposition co \<in> set (fst (yr_Reconcile yenv ycl sreq)) \<and> subject ev = OComposition co' \<and> stored_from co' co \<longrightarrow>
        sreq \<in> set (deliver (replication_NewSymphonyController b) ev) \<inter> set (deliver (aggregation_NewSymphonyController b) ev))"
  using created_pod_wakes [OF assms(1), of p cfg en lcl req ev q] created_slice_wakes [OF assms(1), of s ex env nn ev s']
    created_composition_wakes [OF assms(1), of co yenv ycl sreq ev co'] assms(2-)
  by blast

lemma sample_exec_creates: "\<exists>s. CreateSlice s \<in> set (fst (Synthesize sample_executor sample_exec_env))"
  by (simp add: exec_eval sample_comp_def sample_synth_def sample_synthesis_def zero_Synthesizer_def zero_Synthesis_def)

lemma sample_overrides: "overrides_spare_labels sample_synth"
  by (simp add: overrides_spare_labels_def reserved_label_keys_def sample_synth_def zero_Synthesizer_def)

theorem created_objects_report_back_witness:
  "(\<exists>p. CreatePod p \<in> set (fst (lc_Reconcile sample_config sample_env sample_lc_client (key_of sample_comp))) \<and>
      key_of sample_comp \<in> set (deliver (NewPodLifecycleController kube_builder) (Deleted (OPod p)))) \<and>
   (\<exists>s. CreateSlice s \<in> set (fst (Synthesize sample_executor sample_exec_env)) \<and>
      key_of sample_comp \<in> set (deliver (NewSliceController kube_builder) (Created (OResourceSlice s))))"
proof -
  let ?k = "key_of sample_comp"
  have k: "?k = \<lparr>nn_Namespace = CompositionNamespace sample_exec_env, nn_Name = CompositionName sample_exec_env\<rparr>"
    "nn_Name ?k \<noteq> []" "nn_Namespace ?k \<noteq> []"
    by (simp_all add: sample_comp_def key_of_def sample_exec_env_def)
  have reads: "\<forall>co. lc_get_comp sample_lc_client ?k = Inr co \<longrightarrow> key_of co = ?k"
    "\<forall>n syn. lc_get_synth sample_lc_client n = Inr syn \<longrightarrow> overrides_spare_labels syn"
    "\<forall>co. ex_get_comp sample_executor 0 ?k = Inr co \<longrightarrow> key_of co = ?k"
    "\<forall>symph. yr_get_symph (sample_yr_client sample_symph []) (key_of sample_symph) = Inr symph \<longrightarrow> key_of symph = key_of sample_symph"
    by (simp_all add: sample_lc_client_def sample_executor_def sample_yr_client_def sample_overrides)
  note report = created_objects_report_back [OF kube_events.event_sources_axioms reads(1) k(2,3) reads(2,3) k(1) reads(4)]
  obtain p where p: "CreatePod p \<in> set (fst (lc_Reconcile sample_config sample_env sample_lc_client ?k))"
    using sample_creates by blast
  obtain s where s: "CreateSlice s \<in> set (fst (Synthesize sample_executor sample_exec_env))"
    using sample_exec_creates by blast
  show ?thesis
    using report [of p sample_config sample_env "Deleted (OPod p)" p] report [of _ _ _ "Created (OResourceSlice s)" _ s s] p s
    by (auto simp: stored_from_def)
qed

section \<open>Events that are missed\<close>

lemma no_synthesizer_events: "kind_of (subject ev) = KSynthesizer \<Longrightarrow> deliver (NewPodLifecycleController b) ev = []"
  by (simp add: deliver_def NewPodLifecycleController_def)

text \<open>
  The pod lifecycle controller reads the synthesizer of a composition but does not watch
  synthesizers. When the synthesizer is not there while a synthesis is under way and has no pod, the
  handler gives up without an error and without asking to be called again, the event that tells of the
  synthesizer's return is not delivered to it, and the controller that does get this event leaves the
  composition as it is, because its synthesis is not complete. So the synthesis, which counts as
  active, waits for an unrelated event.
\<close>
theorem returning_synthesizer_missed:
  assumes "lc_get_comp cl req = Inr co" "cleanup_finalizer \<in> set (Finalizers co)" "DeletionTimestamp co = None"
    and "current co = Some cur" "Synthesized cur = None"
    and "lc_list_pods cl (PodNamespace cfg) (PodByCompIdxValueFromComp co) = Inr []"
    and "lc_get_synth cl (SynthesizerName (comp_Spec co)) = Inl NotFound"
    and "\<forall>n comps c. sr_list_comps scl n = Inr comps \<and> c \<in> set comps \<and> key_of c = key_of co \<longrightarrow> c = co"
    and "set (shuffle comps) = set comps" "sr_list_comps scl (Name syn) = Inr comps" "sr_get_synth scl (key_of syn) = Inr syn"
  shows "lc_Reconcile cfg en cl req = ([], Inr done_result) \<and>
     (\<forall>ev. subject ev = OSynthesizer syn \<longrightarrow> deliver (NewPodLifecycleController b) ev = []) \<and>
     (\<forall>co'. UpdateCompositionStatus co' \<in> set (fst (sr_Reconcile shuffle t scl (key_of syn))) \<longrightarrow> key_of co' \<noteq> key_of co) \<and>
     (UUID cur \<noteq> [] \<longrightarrow> is_active co)"
proof (intro conjI allI impI)
  have "AddFinalizer co cleanup_finalizer = (co, False)" using assms(2) by (simp add: AddFinalizer_def)
  moreover have "find_synth cl co = Inr None" using assms(4,7) by (simp add: find_synth_def)
  moreover have "shouldDeletePod (now en) co None [] (ContainerCreationTimeout cfg) = Inr (None, False)"
    by (simp add: shouldDeletePod_def)
  ultimately show "lc_Reconcile cfg en cl req = ([], Inr done_result)"
    using assms(1,3,6) by (simp add: lc_Reconcile_def lc_with_pods_def)
next
  fix co' assume u: "UpdateCompositionStatus co' \<in> set (fst (sr_Reconcile shuffle t scl (key_of syn)))"
  then obtain c where c: "find (rollout_eligible syn) (shuffle comps) = Some c" "key_of co' = key_of c"
    using assms(10,11) by (auto simp: sr_Reconcile_def key_of_def split: option.splits)
  from find_Some_P [OF c(1)] assms(9) have "c \<in> set comps" "rollout_eligible syn c" by auto
  moreover have "\<not> rollout_eligible syn co" using assms(4,5) by (simp add: rollout_eligible_def)
  ultimately show "key_of co' \<noteq> key_of co" using assms(8,10) c(2) by metis
next
  show "deliver (NewPodLifecycleController b) ev = []" if "subject ev = OSynthesizer syn" for ev
    using that by (simp add: no_synthesizer_events)
qed (simp add: is_active_def assms(4,5))

definition returned_synth_client :: sr_client where
  "returned_synth_client =
     \<lparr>sr_get_synth = (\<lambda>_. Inr sample_synth), sr_list_comps = (\<lambda>_. Inr [sample_comp]), sr_write = (\<lambda>_. None)\<rparr>"

theorem returning_synthesizer_missed_witness:
  "lc_Reconcile sample_config sample_env (sample_lc_client\<lparr>lc_get_synth := (\<lambda>_. Inl NotFound)\<rparr>) (key_of sample_comp) =
     ([], Inr done_result) \<and>
   deliver (NewPodLifecycleController kube_builder) (Created (OSynthesizer sample_synth)) = [] \<and> is_active sample_comp"
proof -
  let ?cl = "sample_lc_client\<lparr>lc_get_synth := (\<lambda>_. Inl NotFound)\<rparr>"
  obtain cur where cur: "current sample_comp = Some cur" "Synthesized cur = None" "UUID cur \<noteq> []"
    by (simp add: sample_comp_def sample_synthesis_def zero_Synthesis_def)
  have "lc_get_comp ?cl (key_of sample_comp) = Inr sample_comp" "cleanup_finalizer \<in> set (Finalizers sample_comp)"
    "DeletionTimestamp sample_comp = None" by (simp_all add: sample_lc_client_def sample_comp_def)
  note r = returning_synthesizer_missed [OF this cur(1,2), of sample_config returned_synth_client "\<lambda>xs. xs" "[sample_comp]"
      sample_synth sample_env kube_builder]
  show ?thesis
    using r cur(3) by (simp add: sample_lc_client_def returned_synth_client_def)
qed

end
