(* ===== verification/Write_Buffer.thy ===== *)
theory Write_Buffer
  imports Resource
begin

text \<open>
  The buffer that batches status updates of resource slices (\<open>internal/flowcontrol/writebuffer.go\<close>).
  Callers of \<open>PatchStatusAsync\<close> run concurrently with the worker, which releases the lock while it
  talks to the API server: the worker is modelled by its two critical sections, taking the updates
  of a slice and settling them, with any number of calls in between. The buffers of different
  slices are independent, so the state of one of them is modelled; the work queue is seen through
  whether it holds the slice's key.
\<close>

section \<open>The buffer of one slice\<close>

type_synonym StatusPatchFn = "ResourceState \<Rightarrow> ResourceState option"

text \<open>An update is a reference and the patch function; the buffer does not look into the latter.\<close>

type_synonym 'f update = "ManifestRef \<times> 'f"

record 'f buffer =
  wb_state :: "'f update list"
  wb_taken :: "'f update list option"
  wb_queued :: bool

fun replace_first :: "ManifestRef \<Rightarrow> 'f \<Rightarrow> 'f update list \<Rightarrow> 'f update list option" where
  "replace_first ref f [] = None"
| "replace_first ref f ((r, g) # us) =
     (if r = ref then Some ((r, f) # us)
      else map_option ((#) (r, g)) (replace_first ref f us))"

definition PatchStatusAsync :: "ManifestRef \<Rightarrow> 'f \<Rightarrow> 'f buffer \<Rightarrow> 'f buffer" where
  "PatchStatusAsync ref f w =
     (case replace_first ref f (wb_state w) of
        Some us \<Rightarrow> w\<lparr>wb_state := us\<rparr>
      | None \<Rightarrow> w\<lparr>wb_state := wb_state w @ [(ref, f)], wb_queued := True\<rparr>)"

text \<open>The first critical section of \<open>processQueueItem\<close>; without updates the item is forgotten.\<close>

definition take_updates :: "'f buffer \<Rightarrow> 'f buffer" where
  "take_updates w =
     (if wb_queued w \<and> wb_taken w = None then
        if wb_state w = [] then w\<lparr>wb_queued := False\<rparr>
        else w\<lparr>wb_state := [], wb_taken := Some (wb_state w), wb_queued := False\<rparr>
      else w)"

text \<open>The rest of \<open>processQueueItem\<close>, given what \<open>updateSlice\<close> returned.\<close>

definition settle :: "bool \<Rightarrow> 'f buffer \<Rightarrow> 'f buffer" where
  "settle ok w =
     (case wb_taken w of
        None \<Rightarrow> w
      | Some us \<Rightarrow>
          if ok then w\<lparr>wb_taken := None, wb_queued := True\<rparr>
          else w\<lparr>wb_state := us @ wb_state w, wb_taken := None, wb_queued := True\<rparr>)"

datatype 'f event = Async ManifestRef 'f | Take | Settle bool

fun wb_step :: "'f event \<Rightarrow> 'f buffer \<Rightarrow> 'f buffer" where
  "wb_step (Async ref f) w = PatchStatusAsync ref f w"
| "wb_step Take w = take_updates w"
| "wb_step (Settle ok) w = settle ok w"

definition wb_init :: "'f buffer" where
  "wb_init = \<lparr>wb_state = [], wb_taken = None, wb_queued = False\<rparr>"

definition wb_run :: "'f event list \<Rightarrow> 'f buffer" where
  "wb_run es = fold wb_step es wb_init"

section \<open>Applying the updates\<close>

datatype wb_request =
    UpdateSliceStatus ResourceSlice
  | PatchSliceStatus NamespacedName "(nat \<times> ResourceState) list"

record wb_client =
  wb_get_slice :: "NamespacedName \<Rightarrow> api_err + ResourceSlice"
  wb_write :: "wb_request \<Rightarrow> api_err option"

fun build_patches ::
  "ResourceState list \<Rightarrow> StatusPatchFn update list \<Rightarrow> error + (nat \<times> ResourceState) list" where
  "build_patches sts [] = Inr []"
| "build_patches sts ((ref, f) # us) =
     (if mr_Index ref \<ge> length sts then Inl IndexOutOfRange
      else (case build_patches sts us of
              Inl e \<Rightarrow> Inl e
            | Inr ps \<Rightarrow>
                Inr ((case f (sts ! mr_Index ref) of None \<Rightarrow> [] | Some st \<Rightarrow> [(mr_Index ref, st)]) @ ps)))"

definition missing_slice :: "NamespacedName \<Rightarrow> ResourceSlice" where
  "missing_slice nn =
     \<lparr>Name = nn_Name nn, Namespace = nn_Namespace nn, GenerateName = [], UID = [], ResourceVersion = ''1'',
      Generation = 0, CreationTimestamp = 0, DeletionTimestamp = None, Labels = None, Annotations = None,
      Finalizers = [], OwnerReferences = [],
      slice_Spec = \<lparr>CompositionGeneration = 0, SynthesisUUID = [], Attempt = 0, Resources = []\<rparr>,
      slice_Status = None\<rparr>"

definition apply_updates ::
  "wb_client \<Rightarrow> NamespacedName \<Rightarrow> ResourceState list \<Rightarrow> StatusPatchFn update list \<Rightarrow> wb_request list \<times> (error + bool)" where
  "apply_updates cl nn sts updates =
     (case build_patches sts updates of
        Inl e \<Rightarrow> ([], Inl e)
      | Inr patches \<Rightarrow>
          if patches = [] then ([], Inr True)
          else ([PatchSliceStatus nn patches],
                Inr (case wb_write cl (PatchSliceStatus nn patches) of
                       None \<Rightarrow> True | Some e \<Rightarrow> e = NotFound)))"

definition preallocated :: "ResourceSlice \<Rightarrow> ResourceSlice" where
  "preallocated slice =
     slice\<lparr>slice_Status := Some (replicate (length (Resources (slice_Spec slice))) zero_ResourceState)\<rparr>"

definition updateSlice ::
  "wb_client \<Rightarrow> NamespacedName \<Rightarrow> StatusPatchFn update list \<Rightarrow> wb_request list \<times> (error + bool)" where
  "updateSlice cl nn updates =
     (let got = wb_get_slice cl nn;
          slice = (case got of Inl _ \<Rightarrow> missing_slice nn | Inr s \<Rightarrow> s)
      in if (case got of Inl e \<Rightarrow> e \<noteq> NotFound | Inr _ \<Rightarrow> False) then ([], Inr False)
         else if slice_states slice = [] then
           (let cp = preallocated slice in
            case wb_write cl (UpdateSliceStatus cp) of
              Some e \<Rightarrow> ([UpdateSliceStatus cp], Inr (e = NotFound))
            | None \<Rightarrow>
                (case apply_updates cl nn (slice_states cp) updates of
                   (rs, res) \<Rightarrow> (UpdateSliceStatus cp # rs, res)))
         else apply_updates cl nn (slice_states slice) updates)"

text \<open>What the \<open>replace\<close> operations of a patch do to the statuses, in order.\<close>

definition apply_patches :: "(nat \<times> ResourceState) list \<Rightarrow> ResourceState list \<Rightarrow> ResourceState list" where
  "apply_patches ps sts = fold (\<lambda>(i, st) xs. xs[i := st]) ps sts"

section \<open>The rate limiter\<close>

text \<open>
  \<open>When\<close> on an item with its failure count so far; \<open>reserve\<close> is the delay that the token bucket
  answers with. The result is the delay and the new count.
\<close>

definition When :: "duration \<Rightarrow> nat \<Rightarrow> duration \<times> nat" where
  "When reserve failures =
     (if failures > 0 \<and> failures < 5 then 10 * 2 ^ (failures - 1) * millisecond else reserve,
      Suc failures)"

text \<open>
  The limiter of the buffer: the failure counts, and the rate and burst of its token bucket.
\<close>

record rateLimiter =
  failures :: "NamespacedName \<Rightarrow> nat"
  limiter_every :: duration
  limiter_burst :: int

definition newRateLimiter :: "duration \<Rightarrow> int \<Rightarrow> rateLimiter" where
  "newRateLimiter batchInterval b = \<lparr>failures = (\<lambda>_. 0), limiter_every = batchInterval, limiter_burst = b\<rparr>"

definition NumRequeues :: "rateLimiter \<Rightarrow> NamespacedName \<Rightarrow> nat" where
  "NumRequeues r item = failures r item"

definition limiter_When :: "duration \<Rightarrow> NamespacedName \<Rightarrow> rateLimiter \<Rightarrow> duration \<times> rateLimiter" where
  "limiter_When reserve item r =
     (case When reserve (failures r item) of (d, n) \<Rightarrow> (d, r\<lparr>failures := (failures r)(item := n)\<rparr>))"

definition limiter_Forget :: "NamespacedName \<Rightarrow> rateLimiter \<Rightarrow> rateLimiter" where
  "limiter_Forget item r = r\<lparr>failures := (failures r)(item := 0)\<rparr>"

section \<open>Lemmas\<close>

lemma replace_first_None: "replace_first ref f us = None \<longleftrightarrow> ref \<notin> fst ` set us"
  by (induction us) (auto split: if_splits)

lemma replace_first_refs: "replace_first ref f us = Some us' \<Longrightarrow> map fst us' = map fst us \<and> ref \<in> fst ` set us"
  by (induction us arbitrary: us') (auto split: if_splits)

lemma replace_first_map_of:
  "replace_first ref f us = Some us' \<Longrightarrow> map_of us' = (map_of us)(ref \<mapsto> f)"
  by (induction us arbitrary: us') (auto split: if_splits simp: fun_eq_iff)

lemma map_of_snoc: "ref \<notin> fst ` set us \<Longrightarrow> map_of (us @ [(ref, f)]) = (map_of us)(ref \<mapsto> f)"
  by (induction us) (auto simp: fun_eq_iff)

subsection \<open>The abstract buffer: which resources are owed an update\<close>

text \<open>Two sets of references: waiting in the buffer, and in the hands of the worker.\<close>

type_synonym owed = "ManifestRef set \<times> ManifestRef set option \<times> bool"

fun owed_step :: "'f event \<Rightarrow> owed \<Rightarrow> owed" where
  "owed_step (Async ref f) (p, i, q) = (insert ref p, i, q \<or> ref \<notin> p)"
| "owed_step Take (p, i, q) =
     (if q \<and> i = None then (if p = {} then (p, i, False) else ({}, Some p, False)) else (p, i, q))"
| "owed_step (Settle ok) (p, i, q) =
     (case i of None \<Rightarrow> (p, i, q) | Some t \<Rightarrow> (if ok then p else t \<union> p, None, True))"

definition owed_of :: "'f buffer \<Rightarrow> owed" where
  "owed_of w = (fst ` set (wb_state w), map_option (\<lambda>us. fst ` set us) (wb_taken w), wb_queued w)"

lemma owed_step_refines: "owed_of (wb_step e w) = owed_step e (owed_of w)"
proof (cases e)
  case (Async ref f)
  show ?thesis
  proof (cases "replace_first ref f (wb_state w)")
    case None
    then have "ref \<notin> fst ` set (wb_state w)" by (simp only: replace_first_None simp_thms)
    with None Async show ?thesis
      by (simp add: owed_of_def PatchStatusAsync_def)
  next
    case (Some us)
    with replace_first_refs [OF Some] Async show ?thesis
      by (simp add: owed_of_def PatchStatusAsync_def insert_absorb flip: set_map)
  qed
qed (auto simp: owed_of_def take_updates_def settle_def split: option.splits)

lemma owed_queued:
  assumes "case s of (p, i, q) \<Rightarrow> p \<noteq> {} \<and> i = None \<longrightarrow> q"
  shows "case owed_step e s of (p, i, q) \<Rightarrow> p \<noteq> {} \<and> i = None \<longrightarrow> q"
  using assms by (cases s; cases e) (auto split: option.splits if_splits)

lemma fold_owed: "owed_of (fold wb_step es w) = fold owed_step es (owed_of w)"
  by (induction es arbitrary: w) (simp_all add: owed_step_refines)

lemma fold_queued:
  assumes "case s of (p, i, q) \<Rightarrow> p \<noteq> {} \<and> i = None \<longrightarrow> q"
  shows "case fold owed_step es s of (p, i, q) \<Rightarrow> p \<noteq> {} \<and> i = None \<longrightarrow> q"
  using assms
proof (induction es arbitrary: s)
  case (Cons e es)
  from Cons.IH [OF owed_queued [OF Cons.prems]] show ?case by simp
qed simp

lemma owed_init: "owed_of wb_init = ({}, None, False)"
  by (simp add: owed_of_def wb_init_def)

lemma run_owed: "owed_of (wb_run es) = fold owed_step es ({}, None, False)"
  by (simp add: wb_run_def fold_owed owed_init)

lemma run_queued:
  assumes "wb_state (wb_run es) \<noteq> []" "wb_taken (wb_run es) = None"
  shows "wb_queued (wb_run es)"
proof -
  have "case owed_of (wb_run es) of (p, i, q) \<Rightarrow> p \<noteq> {} \<and> i = None \<longrightarrow> q"
    unfolding run_owed by (rule fold_queued) simp
  with assms show ?thesis by (simp add: owed_of_def)
qed



subsection \<open>Without failed flushes the latest update wins\<close>

text \<open>The latest function requested for each reference since the worker last took the updates.\<close>

fun latest :: "(ManifestRef \<rightharpoonup> 'f) \<times> bool \<times> bool \<Rightarrow> 'f event list \<Rightarrow> (ManifestRef \<rightharpoonup> 'f)" where
  "latest (m, busy, queued) [] = m"
| "latest (m, busy, queued) (Async ref f # es) = latest (m(ref \<mapsto> f), busy, queued \<or> m ref = None) es"
| "latest (m, busy, queued) (Take # es) =
     (if queued \<and> \<not> busy then (if m = Map.empty then latest (m, busy, False) es else latest (Map.empty, True, False) es)
      else latest (m, busy, queued) es)"
| "latest (m, busy, queued) (Settle ok # es) =
     (if busy then latest (m, False, True) es else latest (m, busy, queued) es)"

lemma PatchStatusAsync_distinct:
  assumes "distinct (map fst (wb_state w))"
  shows "distinct (map fst (wb_state (PatchStatusAsync ref f w))) \<and>
    map_of (wb_state (PatchStatusAsync ref f w)) = (map_of (wb_state w))(ref \<mapsto> f) \<and>
    wb_taken (PatchStatusAsync ref f w) = wb_taken w \<and>
    wb_queued (PatchStatusAsync ref f w) = (wb_queued w \<or> map_of (wb_state w) ref = None)"
proof (cases "replace_first ref f (wb_state w)")
  case None
  then have n: "ref \<notin> fst ` set (wb_state w)" by (simp only: replace_first_None simp_thms)
  with None assms map_of_snoc [OF n, of f] show ?thesis
    by (simp add: PatchStatusAsync_def map_of_eq_None_iff)
next
  case (Some us)
  from replace_first_refs [OF Some] replace_first_map_of [OF Some] assms Some show ?thesis
    by (simp add: PatchStatusAsync_def map_of_eq_None_iff)
qed

lemma fold_latest:
  assumes "distinct (map fst (wb_state w))" "Settle False \<notin> set es"
  shows "distinct (map fst (wb_state (fold wb_step es w))) \<and>
     map_of (wb_state (fold wb_step es w)) = latest (map_of (wb_state w), wb_taken w \<noteq> None, wb_queued w) es"
  using assms
proof (induction es arbitrary: w)
  case (Cons e es)
  show ?case
  proof (cases e)
    case (Async ref f)
    note d = PatchStatusAsync_distinct [OF Cons.prems(1), of ref f]
    from Cons.IH [OF d [THEN conjunct1]] Cons.prems(2) show ?thesis
      by (simp add: Async d fun_upd_def)
  next
    case Take
    have d: "distinct (map fst (wb_state (take_updates w)))"
      using Cons.prems(1) by (simp add: take_updates_def)
    from Cons.IH [OF d] Cons.prems(2) show ?thesis
      by (simp add: Take) (auto simp: take_updates_def)
  next
    case (Settle ok)
    with Cons.prems(2) have ok by auto
    have d: "distinct (map fst (wb_state (settle ok w)))"
      using Cons.prems(1) \<open>ok\<close> by (simp add: settle_def split: option.splits)
    from Cons.IH [OF d] Cons.prems(2) \<open>ok\<close> show ?thesis
      by (simp add: Settle) (auto simp: settle_def split: option.splits)
  qed
qed simp

text \<open>
  As long as no flush fails, the buffer holds one update per resource, and it is the latest one
  requested since the worker last took the updates of the slice.
\<close>
theorem buffer_keeps_latest:
  assumes "Settle False \<notin> set es"
  shows "distinct (map fst (wb_state (wb_run es))) \<and>
     map_of (wb_state (wb_run es)) = latest (Map.empty, False, False) es"
  using fold_latest [of wb_init es] assms by (simp add: wb_run_def wb_init_def)

theorem buffer_keeps_latest_witness:
  "\<exists>ref. map_of (wb_state (wb_run [Async ref (0 :: nat), Take, Async ref 1, Async ref 2, Settle True])) ref = Some 2"
proof -
  define ref where "ref = \<lparr>mr_Slice = key_of sample_slice, mr_Index = 0\<rparr>"
  have "map_of (wb_state (wb_run [Async ref (0 :: nat), Take, Async ref 1, Async ref 2, Settle True])) ref = Some 2"
    using buffer_keeps_latest [of "[Async ref (0 :: nat), Take, Async ref 1, Async ref 2, Settle True]"]
    by (simp add: fun_upd_def fun_eq_iff)
  then show ?thesis ..
qed

subsection \<open>After a failed flush it need not\<close>

definition stale_run :: "ManifestRef \<Rightarrow> 'f \<Rightarrow> 'f \<Rightarrow> 'f \<Rightarrow> 'f event list" where
  "stale_run ref f1 f2 f3 = [Async ref f1, Take, Async ref f2, Settle False, Async ref f3]"

lemma stale_run_state: "wb_state (wb_run (stale_run ref f1 f2 f3)) = [(ref, f3), (ref, f2)]"
  by (simp add: stale_run_def wb_run_def wb_init_def PatchStatusAsync_def take_updates_def settle_def)

text \<open>
  After a failed flush the latest update can be overridden by an older one: when a resource's
  update is taken, replaced by a second one while the flush fails, and by a third one afterwards,
  the third takes the place of the first, ahead of the second, and the patches applied in order
  leave the state of the second.
\<close>
theorem stale_update_wins:
  assumes "mr_Index ref < length sts" "f2 (sts ! mr_Index ref) = Some st2" "f3 (sts ! mr_Index ref) = Some st3"
  shows "\<exists>ps. build_patches sts (wb_state (wb_run (stale_run ref f1 f2 f3))) = Inr ps \<and>
     apply_patches ps sts ! mr_Index ref = st2"
  using assms by (simp add: stale_run_state apply_patches_def)

theorem stale_update_wins_witness:
  "\<exists>ps. build_patches [zero_ResourceState] (wb_state (wb_run (stale_run \<lparr>mr_Slice = key_of sample_slice, mr_Index = 0\<rparr>
        (\<lambda>_. None) (\<lambda>st. Some st) (\<lambda>st. Some (st\<lparr>rs_Reconciled := True\<rparr>))))) = Inr ps \<and>
     apply_patches ps [zero_ResourceState] ! 0 = zero_ResourceState"
  using stale_update_wins [of "\<lparr>mr_Slice = key_of sample_slice, mr_Index = 0\<rparr>" "[zero_ResourceState]"
      "\<lambda>st. Some st" zero_ResourceState "\<lambda>st. Some (st\<lparr>rs_Reconciled := True\<rparr>)" _ "\<lambda>_. None"]
  by simp

end
