(* ===== verification/Write_Buffer_Map.thy ===== *)
theory Write_Buffer_Map
  imports Write_Buffer
begin

text \<open>
  The whole write buffer (\<open>internal/flowcontrol/writebuffer.go\<close>): the map from slices to their updates, the
  work queue of slices and the one worker that \<open>Start\<close> runs. Seen from one slice it is the buffer of
  \<open>Write_Buffer\<close>, whatever happens to the others, and the worker's rounds empty it.
\<close>

section \<open>The buffer\<close>

record 'f ResourceSliceWriteBuffer =
  state :: "NamespacedName \<Rightarrow> 'f update list"
  taken :: "(NamespacedName \<times> 'f update list) option"
  queue :: "NamespacedName set"

definition NewResourceSliceWriteBuffer :: "'f ResourceSliceWriteBuffer" where
  "NewResourceSliceWriteBuffer = \<lparr>state = (\<lambda>_. []), taken = None, queue = {}\<rparr>"

definition buf_PatchStatusAsync :: "ManifestRef \<Rightarrow> 'f \<Rightarrow> 'f ResourceSliceWriteBuffer \<Rightarrow> 'f ResourceSliceWriteBuffer" where
  "buf_PatchStatusAsync ref f w =
     (let key = mr_Slice ref in
      case replace_first ref f (state w key) of
        Some us \<Rightarrow> w\<lparr>state := (state w)(key := us)\<rparr>
      | None \<Rightarrow> w\<lparr>state := (state w)(key := state w key @ [(ref, f)]), queue := insert key (queue w)\<rparr>)"

text \<open>
  The worker gets a key that is in the queue, takes the updates of the slice, and later settles them.
\<close>

definition buf_take :: "NamespacedName \<Rightarrow> 'f ResourceSliceWriteBuffer \<Rightarrow> 'f ResourceSliceWriteBuffer" where
  "buf_take key w =
     (if key \<in> queue w \<and> taken w = None then
        if state w key = [] then w\<lparr>queue := queue w - {key}\<rparr>
        else w\<lparr>state := (state w)(key := []), taken := Some (key, state w key), queue := queue w - {key}\<rparr>
      else w)"

definition buf_settle :: "bool \<Rightarrow> 'f ResourceSliceWriteBuffer \<Rightarrow> 'f ResourceSliceWriteBuffer" where
  "buf_settle ok w =
     (case taken w of
        None \<Rightarrow> w
      | Some (key, us) \<Rightarrow>
          if ok then w\<lparr>taken := None, queue := insert key (queue w)\<rparr>
          else w\<lparr>state := (state w)(key := us @ state w key), taken := None, queue := insert key (queue w)\<rparr>)"

datatype 'f buf_event = Call ManifestRef 'f | Got NamespacedName | Finish bool

fun buf_step :: "'f buf_event \<Rightarrow> 'f ResourceSliceWriteBuffer \<Rightarrow> 'f ResourceSliceWriteBuffer" where
  "buf_step (Call ref f) w = buf_PatchStatusAsync ref f w"
| "buf_step (Got key) w = buf_take key w"
| "buf_step (Finish ok) w = buf_settle ok w"

definition buf_run :: "'f buf_event list \<Rightarrow> 'f ResourceSliceWriteBuffer" where
  "buf_run es = fold buf_step es NewResourceSliceWriteBuffer"

text \<open>
  One round of the worker without calls in between: \<open>None\<close> is a queue that is shut down. The result is
  what was sent, and a panic or the new buffer with whether the loop goes on.
\<close>

definition wb_processQueueItem ::
  "wb_client \<Rightarrow> NamespacedName option \<Rightarrow> StatusPatchFn ResourceSliceWriteBuffer \<Rightarrow>
   wb_request list \<times> (error + StatusPatchFn ResourceSliceWriteBuffer \<times> bool)" where
  "wb_processQueueItem cl item w =
     (case item of
        None \<Rightarrow> ([], Inr (w, False))
      | Some key \<Rightarrow>
          let w1 = buf_take key w in
          (case taken w1 of
             None \<Rightarrow> ([], Inr (w1, True))
           | Some (k, updates) \<Rightarrow>
               (case updateSlice cl k updates of
                  (rs, Inl e) \<Rightarrow> (rs, Inl e)
                | (rs, Inr ok) \<Rightarrow> (rs, Inr (buf_settle ok w1, True)))))"

text \<open>The loop of \<open>Start\<close> on the items that the queue answers, the last of which is its shutdown.\<close>

fun wb_Start ::
  "wb_client \<Rightarrow> NamespacedName option list \<Rightarrow> StatusPatchFn ResourceSliceWriteBuffer \<Rightarrow>
   wb_request list \<times> (error + StatusPatchFn ResourceSliceWriteBuffer)" where
  "wb_Start cl [] w = ([], Inr w)"
| "wb_Start cl (item # items) w =
     (case wb_processQueueItem cl item w of
        (rs, Inl e) \<Rightarrow> (rs, Inl e)
      | (rs, Inr (w', continue)) \<Rightarrow>
          if continue then (case wb_Start cl items w' of (rs', r) \<Rightarrow> (rs @ rs', r)) else (rs, Inr w'))"

section \<open>Every slice has a buffer of its own\<close>

definition slice_buffer :: "NamespacedName \<Rightarrow> 'f ResourceSliceWriteBuffer \<Rightarrow> 'f buffer" where
  "slice_buffer k w =
     \<lparr>wb_state = state w k,
      wb_taken = (case taken w of None \<Rightarrow> None | Some (k', us) \<Rightarrow> if k' = k then Some us else None),
      wb_queued = (k \<in> queue w)\<rparr>"

definition calls_for :: "NamespacedName \<Rightarrow> 'f buf_event list \<Rightarrow> (ManifestRef \<times> 'f) list" where
  "calls_for k es = concat (map (\<lambda>e. case e of Call ref f \<Rightarrow> if mr_Slice ref = k then [(ref, f)] else [] | _ \<Rightarrow> []) es)"

definition async_calls :: "'f event list \<Rightarrow> (ManifestRef \<times> 'f) list" where
  "async_calls es = concat (map (\<lambda>e. case e of Async ref f \<Rightarrow> [(ref, f)] | _ \<Rightarrow> []) es)"

fun slice_event :: "NamespacedName \<Rightarrow> 'f ResourceSliceWriteBuffer \<Rightarrow> 'f buf_event \<Rightarrow> 'f event list" where
  "slice_event k w (Call ref f) = (if mr_Slice ref = k then [Async ref f] else [])"
| "slice_event k w (Got key) = (if key = k \<and> taken w = None then [Take] else [])"
| "slice_event k w (Finish ok) = (case taken w of Some (k', us) \<Rightarrow> if k' = k then [Settle ok] else [] | None \<Rightarrow> [])"

lemma slice_step: "slice_buffer k (buf_step e w) = fold wb_step (slice_event k w e) (slice_buffer k w)"
proof (cases e)
  case (Call ref f)
  then show ?thesis
    by (auto simp: slice_buffer_def buf_PatchStatusAsync_def PatchStatusAsync_def Let_def split: option.splits)
next
  case (Got key)
  then show ?thesis by (auto simp: slice_buffer_def buf_take_def take_updates_def split: option.splits)
next
  case (Finish ok)
  then show ?thesis by (auto simp: slice_buffer_def buf_settle_def settle_def split: option.splits)
qed

lemma slice_event_calls: "async_calls (slice_event k w e) = calls_for k [e]"
  by (cases e) (auto simp: async_calls_def calls_for_def split: option.splits)

lemma async_calls_append [simp]: "async_calls (xs @ ys) = async_calls xs @ async_calls ys"
  by (simp add: async_calls_def)

lemma calls_for_append [simp]: "calls_for k (xs @ ys) = calls_for k xs @ calls_for k ys"
  by (simp add: calls_for_def)

lemma slice_run: "\<exists>es'. slice_buffer k (buf_run es) = wb_run es' \<and> async_calls es' = calls_for k es"
proof (induction es rule: rev_induct)
  case Nil
  show ?case
    by (intro exI [of _ "[]"]) (simp add: buf_run_def wb_run_def NewResourceSliceWriteBuffer_def slice_buffer_def wb_init_def
        async_calls_def calls_for_def)
next
  case (snoc e es)
  then obtain es' where es': "slice_buffer k (buf_run es) = wb_run es'" "async_calls es' = calls_for k es" by blast
  let ?new = "slice_event k (buf_run es) e"
  have "slice_buffer k (buf_run (es @ [e])) = wb_run (es' @ ?new)"
    using slice_step [of k e "buf_run es"] es'(1) by (simp add: buf_run_def wb_run_def)
  moreover have "async_calls (es' @ ?new) = calls_for k (es @ [e])" using es'(2) by (simp add: slice_event_calls)
  ultimately show ?case by blast
qed

lemma buffered_queued:
  assumes "state (buf_run es) k \<noteq> []" "\<And>us. taken (buf_run es) \<noteq> Some (k, us)"
  shows "k \<in> queue (buf_run es)"
proof -
  obtain es' where es': "slice_buffer k (buf_run es) = wb_run es'" using slice_run by blast
  have "wb_taken (wb_run es') = None"
    using assms(2) by (auto simp: slice_buffer_def split: option.splits simp flip: es')
  moreover have "wb_state (wb_run es') \<noteq> []" using assms(1) by (simp add: slice_buffer_def flip: es')
  ultimately have "wb_queued (wb_run es')" by (intro run_queued)
  then show ?thesis by (simp add: slice_buffer_def flip: es')
qed

section \<open>The worker empties the buffer\<close>

text \<open>The statuses that a slice has once they are allocated.\<close>

definition allocated :: "ResourceSlice \<Rightarrow> nat" where
  "allocated slice = (if slice_states slice = [] then length (Resources (slice_Spec slice)) else length (slice_states slice))"

lemma build_patches_ok: "\<forall>(ref, f) \<in> set us. mr_Index ref < length sts \<Longrightarrow> \<exists>ps. build_patches sts us = Inr ps"
  by (induction us) auto

lemma updateSlice_ok:
  assumes "wb_get_slice cl k = Inr slice" "\<forall>r. wb_write cl r = None" "\<forall>(ref, f) \<in> set us. mr_Index ref < allocated slice"
  shows "snd (updateSlice cl k us) = Inr True"
proof -
  let ?sts = "if slice_states slice = [] then slice_states (preallocated slice) else slice_states slice"
  have "length ?sts = allocated slice" by (simp add: allocated_def preallocated_def)
  with build_patches_ok [of us ?sts] assms(3) obtain ps where "build_patches ?sts us = Inr ps" by auto
  then have "snd (apply_updates cl k ?sts us) = Inr True" using assms(2) by (simp add: apply_updates_def)
  then show ?thesis using assms(1,2) by (auto simp: updateSlice_def Let_def split: prod.splits if_splits)
qed

lemma round_flushes:
  assumes "taken w = None" "k \<in> queue w" "state w k \<noteq> [] \<Longrightarrow> snd (updateSlice cl k (state w k)) = Inr True"
  shows "\<exists>w'. wb_processQueueItem cl (Some k) w =
      (if state w k = [] then [] else fst (updateSlice cl k (state w k)), Inr (w', True)) \<and>
     taken w' = None \<and> state w' = (state w)(k := []) \<and> queue w - {k} \<subseteq> queue w'"
  using assms
  by (cases "state w k = []")
    (auto simp: wb_processQueueItem_def buf_take_def buf_settle_def Let_def fun_upd_idem split: prod.splits)

definition flush_requests :: "wb_client \<Rightarrow> StatusPatchFn ResourceSliceWriteBuffer \<Rightarrow> NamespacedName list \<Rightarrow> wb_request list" where
  "flush_requests cl w ks = concat (map (\<lambda>k. if state w k = [] then [] else fst (updateSlice cl k (state w k))) ks)"

lemma flush_requests_cong: "(\<And>k. k \<in> set ks \<Longrightarrow> state w k = state w1 k) \<Longrightarrow> flush_requests cl w ks = flush_requests cl w1 ks"
  unfolding flush_requests_def by (intro arg_cong [where f = concat] map_cong) simp_all

lemma Start_flushes:
  assumes "distinct ks" "set ks \<subseteq> queue w" "taken w = None"
    and "\<forall>k \<in> set ks. state w k \<noteq> [] \<longrightarrow> snd (updateSlice cl k (state w k)) = Inr True"
  shows "\<exists>w'. wb_Start cl (map Some ks @ [None]) w =
      (flush_requests cl w ks, Inr w') \<and>
     taken w' = None \<and> (\<forall>k. state w' k = (if k \<in> set ks then [] else state w k))"
  using assms
proof (induction ks arbitrary: w)
  case Nil
  then show ?case by (simp add: wb_processQueueItem_def flush_requests_def)
next
  case (Cons k ks)
  have "state w k \<noteq> [] \<Longrightarrow> snd (updateSlice cl k (state w k)) = Inr True" using Cons.prems(4) by simp
  with round_flushes [of w k cl] Cons.prems obtain w1 where w1: "wb_processQueueItem cl (Some k) w =
      (if state w k = [] then [] else fst (updateSlice cl k (state w k)), Inr (w1, True))"
    "taken w1 = None" "state w1 = (state w)(k := [])" "queue w - {k} \<subseteq> queue w1" by auto
  have same: "state w1 k' = state w k'" if "k' \<in> set ks" for k' using that Cons.prems(1) w1(3) by auto
  have "\<exists>w'. wb_Start cl (map Some ks @ [None]) w1 =
      (flush_requests cl w1 ks, Inr w') \<and>
     taken w' = None \<and> (\<forall>k. state w' k = (if k \<in> set ks then [] else state w1 k))"
    by (rule Cons.IH) (use Cons.prems w1 same in auto)
  then obtain w' where w': "wb_Start cl (map Some ks @ [None]) w1 = (flush_requests cl w ks, Inr w')"
     "taken w' = None" "\<forall>k. state w' k = (if k \<in> set ks then [] else state w1 k)"
    using flush_requests_cong [of ks w1 w cl] same by auto
  with w1(1,3) show ?case by (intro exI [of _ w']) (simp add: flush_requests_def)
qed

text \<open>
  C21. The buffer as a whole: after any calls, rounds of the worker and failed writes, each slice's part of
  the buffer is what the calls for this slice alone produce in the buffer of one slice, so slices do
  not disturb each other; a slice with buffered updates that the worker does not hold is in the queue; and
  once the API server accepts writes, one round per queued slice sends the updates of every slice and
  leaves the whole buffer empty.
\<close>
theorem write_buffer_flushed:
  "(\<exists>es'. slice_buffer k (buf_run es) = wb_run es' \<and> async_calls es' = calls_for k es) \<and>
   (taken (buf_run es) = None \<and> set ks = queue (buf_run es) \<and> distinct ks \<and> (\<forall>r. wb_write cl r = None) \<and>
    (\<forall>k. state (buf_run es) k \<noteq> [] \<longrightarrow>
       (\<exists>slice. wb_get_slice cl k = Inr slice \<and> (\<forall>(ref, f) \<in> set (state (buf_run es) k). mr_Index ref < allocated slice))) \<longrightarrow>
    (\<exists>w'. wb_Start cl (map Some ks @ [None]) (buf_run es) =
        (flush_requests cl (buf_run es) ks, Inr w') \<and>
       (\<forall>k. state w' k = [])))"
proof (intro conjI impI)
  assume a: "taken (buf_run es) = None \<and> set ks = queue (buf_run es) \<and> distinct ks \<and> (\<forall>r. wb_write cl r = None) \<and>
    (\<forall>k. state (buf_run es) k \<noteq> [] \<longrightarrow>
       (\<exists>slice. wb_get_slice cl k = Inr slice \<and> (\<forall>(ref, f) \<in> set (state (buf_run es) k). mr_Index ref < allocated slice)))"
  have "\<forall>k \<in> set ks. state (buf_run es) k \<noteq> [] \<longrightarrow> snd (updateSlice cl k (state (buf_run es) k)) = Inr True"
    using a updateSlice_ok by blast
  with Start_flushes [of ks "buf_run es" cl] a obtain w' where w': "wb_Start cl (map Some ks @ [None]) (buf_run es) =
      (flush_requests cl (buf_run es) ks, Inr w')"
    "\<forall>k. state w' k = (if k \<in> set ks then [] else state (buf_run es) k)" by auto
  moreover have "state w' k = []" for k
    using buffered_queued [of es k] a w'(2) by (cases "k \<in> set ks") auto
  ultimately show "\<exists>w'. wb_Start cl (map Some ks @ [None]) (buf_run es) =
        (flush_requests cl (buf_run es) ks, Inr w') \<and>
       (\<forall>k. state w' k = [])" by blast
qed (rule slice_run)

definition sample_wb_client :: wb_client where
  "sample_wb_client =
     \<lparr>wb_get_slice = (\<lambda>_. Inr (sample_slice\<lparr>slice_Status := Some [zero_ResourceState]\<rparr>)), wb_write = (\<lambda>_. None)\<rparr>"

theorem write_buffer_flushed_witness:
  "\<exists>ref w'. wb_Start sample_wb_client [Some (mr_Slice ref), None] (buf_run [Call ref (\<lambda>st. Some st), Got (mr_Slice ref), Finish False]) =
      ([PatchSliceStatus (mr_Slice ref) [(0, zero_ResourceState)]], Inr w') \<and> (\<forall>k. state w' k = [])"
proof -
  define ref where "ref = \<lparr>mr_Slice = key_of sample_slice, mr_Index = 0\<rparr>"
  let ?es = "[Call ref (\<lambda>st. Some st), Got (mr_Slice ref), Finish False]"
  have run: "taken (buf_run ?es) = None" "queue (buf_run ?es) = {mr_Slice ref}"
    "state (buf_run ?es) = (\<lambda>_. [])(mr_Slice ref := [(ref, \<lambda>st. Some st)])"
    by (simp_all add: buf_run_def NewResourceSliceWriteBuffer_def buf_PatchStatusAsync_def buf_take_def buf_settle_def Let_def)
  have up: "fst (updateSlice sample_wb_client (mr_Slice ref) [(ref, \<lambda>st. Some st)]) = [PatchSliceStatus (mr_Slice ref) [(0, zero_ResourceState)]]"
    by (simp add: updateSlice_def apply_updates_def sample_wb_client_def ref_def Let_def)
  have idx: "\<forall>(r, f) \<in> set (state (buf_run ?es) k). mr_Index r < allocated (sample_slice\<lparr>slice_Status := Some [zero_ResourceState]\<rparr>)" for k
    unfolding run(3) by (simp add: allocated_def) (simp add: ref_def)
  have "taken (buf_run ?es) = None \<and> set [mr_Slice ref] = queue (buf_run ?es) \<and> distinct [mr_Slice ref] \<and>
     (\<forall>r. wb_write sample_wb_client r = None) \<and>
     (\<forall>k. state (buf_run ?es) k \<noteq> [] \<longrightarrow> (\<exists>slice. wb_get_slice sample_wb_client k = Inr slice \<and>
        (\<forall>(r, f) \<in> set (state (buf_run ?es) k). mr_Index r < allocated slice)))"
    unfolding run(1,2) using idx by (simp add: sample_wb_client_def) blast
  from write_buffer_flushed [where k = "mr_Slice ref", THEN conjunct2, THEN mp, OF this]
  obtain w' where "wb_Start sample_wb_client [Some (mr_Slice ref), None] (buf_run ?es) =
      (flush_requests sample_wb_client (buf_run ?es) [mr_Slice ref], Inr w')" "\<forall>k. state w' k = []" by (simp del: wb_Start.simps) blast
  moreover have "flush_requests sample_wb_client (buf_run ?es) [mr_Slice ref] = [PatchSliceStatus (mr_Slice ref) [(0, zero_ResourceState)]]"
    using up unfolding flush_requests_def run(3) by simp
  ultimately show ?thesis by (metis (no_types))
qed

end
