(* ===== verification/Slice_Cleanup.thy ===== *)
theory Slice_Cleanup
  imports Eno_Samples
begin

text \<open>
  The resource slice cleanup controller (\<open>synthesis/slicecleanup.go\<close>). Its handler reads the
  composition twice, from the informer cache and then from the API server, and acts on the second
  answer; both readers are arguments.
\<close>

section \<open>Decisions\<close>

definition synthesisReferencesSlice :: "Synthesis option \<Rightarrow> ResourceSlice \<Rightarrow> bool" where
  "synthesisReferencesSlice syn slice =
     (case syn of None \<Rightarrow> False | Some s \<Rightarrow> list_ex (\<lambda>ref. ref = Name slice) (ResourceSlices s))"

definition resourcesRemain :: "Composition \<Rightarrow> ResourceSlice \<Rightarrow> bool" where
  "resourcesRemain co slice =
     (if slice_states slice = [] \<and> Resources (slice_Spec slice) \<noteq> [] then True
      else list_ex (\<lambda>state. \<not> rs_Deleted state \<and> \<not> deletion_strategy_orphan co) (slice_states slice))"

definition shouldDeleteSlice :: "Composition \<Rightarrow> ResourceSlice \<Rightarrow> bool" where
  "shouldDeleteSlice co slice =
     (case current co of
        None \<Rightarrow> False
      | Some cur \<Rightarrow>
          if CompositionGeneration (slice_Spec slice) > ObservedCompositionGeneration cur then False
          else
            let hasBeenRetried = (Attempt (slice_Spec slice) \<noteq> 0 \<and>
                  Attempts cur > Attempt (slice_Spec slice) \<and>
                  SynthesisUUID (slice_Spec slice) = UUID cur);
                isReferencedByComp = (synthesisReferencesSlice (current co) slice \<or>
                  synthesisReferencesSlice (previous co) slice);
                isSynthesized = (Synthesized cur \<noteq> None);
                compIsDeleted = (DeletionTimestamp co \<noteq> None);
                fromOldComposition =
                  (CompositionGeneration (slice_Spec slice) < ObservedCompositionGeneration cur)
            in hasBeenRetried \<or> (isSynthesized \<and> compIsDeleted) \<or>
               (\<not> isReferencedByComp \<and> fromOldComposition))"

definition shouldReleaseSliceFinalizer :: "Composition \<Rightarrow> ResourceSlice \<Rightarrow> bool" where
  "shouldReleaseSliceFinalizer co slice =
     (case current co of
        None \<Rightarrow> False
      | Some cur \<Rightarrow>
          if CompositionGeneration (slice_Spec slice) > ObservedCompositionGeneration cur then False
          else
            let isOutdated = (Attempt (slice_Spec slice) \<noteq> 0 \<and> Attempts cur > Attempt (slice_Spec slice));
                isSynthesized = (Synthesized cur \<noteq> None)
            in isOutdated \<or>
               (isSynthesized \<and>
                (\<not> resourcesRemain co slice \<or>
                 (\<not> synthesisReferencesSlice (current co) slice \<and>
                  \<not> synthesisReferencesSlice (previous co) slice))))"

record cleanupDecision =
  DoNotDelete :: bool
  HoldFinalizer :: bool
  DeferBy :: "duration option"

definition bool_text :: "bool \<Rightarrow> string" where
  "bool_text b = (if b then ''true'' else ''false'')"

definition cleanupDecision_String :: "cleanupDecision \<Rightarrow> string" where
  "cleanupDecision_String d =
     ''DoNotDelete='' @ bool_text (DoNotDelete d) @ '',HoldFinalizer='' @ bool_text (HoldFinalizer d)"

definition delete_decision :: cleanupDecision where
  "delete_decision = \<lparr>DoNotDelete = False, HoldFinalizer = False, DeferBy = None\<rparr>"

type_synonym comp_reader = "NamespacedName \<Rightarrow> api_err + Composition"

definition checkCompositionState ::
  "comp_reader \<Rightarrow> ResourceSlice \<Rightarrow> OwnerReference \<Rightarrow> error + cleanupDecision" where
  "checkCompositionState reader slice owner =
     (case reader \<lparr>nn_Namespace = Namespace slice, nn_Name = or_Name owner\<rparr> of
        Inl NotFound \<Rightarrow> Inr delete_decision
      | Inl e \<Rightarrow> Inl (Wrap ''getting composition'' e)
      | Inr co \<Rightarrow>
          Inr \<lparr>DoNotDelete = (\<not> shouldDeleteSlice co slice),
               HoldFinalizer = (\<not> shouldReleaseSliceFinalizer co slice), DeferBy = None\<rparr>)"

record sc_client =
  sc_get_slice :: "NamespacedName \<Rightarrow> api_err + ResourceSlice"
  sc_cached :: comp_reader
  sc_noCache :: comp_reader
  sc_write :: writer

definition cleanup_threshold :: duration where
  "cleanup_threshold = 5 * second"

definition buildCleanupDecision ::
  "time \<Rightarrow> sc_client \<Rightarrow> ResourceSlice \<Rightarrow> OwnerReference option \<Rightarrow> error + cleanupDecision" where
  "buildCleanupDecision t cl slice owner =
     (case owner of
        None \<Rightarrow> Inr delete_decision
      | Some ow \<Rightarrow>
          (case checkCompositionState (sc_cached cl) slice ow of
             Inl e \<Rightarrow> Inl e
           | Inr informerDecision \<Rightarrow>
               if DoNotDelete informerDecision \<and> HoldFinalizer informerDecision then Inr informerDecision
               else
                 let age = t - CreationTimestamp slice in
                 if age < cleanup_threshold
                 then Inr (delete_decision\<lparr>DeferBy := Some (cleanup_threshold - age)\<rparr>)
                 else checkCompositionState (sc_noCache cl) slice ow))"

section \<open>The handler\<close>

text \<open>The two error wrappings of a composition read keep the inner API error.\<close>

definition sc_Reconcile :: "time \<Rightarrow> sc_client \<Rightarrow> NamespacedName \<Rightarrow> request handler_out" where
  "sc_Reconcile t cl req =
     (case sc_get_slice cl req of
        Inl e \<Rightarrow> ([], ignore_not_found (Wrap ''getting resource slice'' e))
      | Inr slice \<Rightarrow>
          let owner = GetControllerOf slice in
          (case buildCleanupDecision t cl slice owner of
             Inl e \<Rightarrow> ([], Inl e)
           | Inr decision \<Rightarrow>
               (case DeferBy decision of
                  Some d \<Rightarrow> ([], Inr (requeue_after d))
                | None \<Rightarrow>
                    if DeletionTimestamp slice \<noteq> None \<or> owner = None then
                      if HoldFinalizer decision then ([], Inr done_result)
                      else
                        (case RemoveFinalizer slice cleanup_finalizer of
                           (slice', False) \<Rightarrow> ([], Inr done_result)
                         | (slice', True) \<Rightarrow>
                             send (sc_write cl) (UpdateSlice slice') ''removing finalizer'' done_result)
                    else if DoNotDelete decision then ([], Inr done_result)
                    else send (sc_write cl) (DeleteSlice slice) ''deleting resource slice'' done_result)))"

text \<open>What the controller knows of the owner when it acts, as a predicate on the uncached read.\<close>

definition owner_state ::
  "sc_client \<Rightarrow> ResourceSlice \<Rightarrow> OwnerReference \<Rightarrow> (Composition \<Rightarrow> bool) \<Rightarrow> bool" where
  "owner_state cl slice ow P =
     (case sc_noCache cl \<lparr>nn_Namespace = Namespace slice, nn_Name = or_Name ow\<rparr> of
        Inl e \<Rightarrow> e = NotFound
      | Inr co \<Rightarrow> P co)"

definition needed_by_comp :: "Composition \<Rightarrow> ResourceSlice \<Rightarrow> bool" where
  "needed_by_comp co slice =
     (DeletionTimestamp co = None \<and>
      (synthesisReferencesSlice (current co) slice \<or> synthesisReferencesSlice (previous co) slice) \<and>
      (case current co of
         None \<Rightarrow> True
       | Some cur \<Rightarrow> SynthesisUUID (slice_Spec slice) = UUID cur \<longrightarrow> Attempts cur \<le> Attempt (slice_Spec slice)))"

section \<open>Lemmas\<close>

lemma synthesisReferencesSlice_iff:
  "synthesisReferencesSlice syn slice \<longleftrightarrow> (\<exists>s. syn = Some s \<and> Name slice \<in> set (ResourceSlices s))"
  by (auto simp: synthesisReferencesSlice_def list_ex_iff split: option.splits)

lemma needed_not_deleted:
  "needed_by_comp co slice \<Longrightarrow> \<not> shouldDeleteSlice co slice"
  by (auto simp: needed_by_comp_def shouldDeleteSlice_def Let_def split: option.splits)

lemma checkCompositionState_no_defer:
  "checkCompositionState r slice ow = Inr d \<Longrightarrow> DeferBy d = None"
  by (auto simp: checkCompositionState_def delete_decision_def split: sum.splits api_err.splits)

lemma checkCompositionState_acts:
  assumes "checkCompositionState (sc_noCache cl) slice ow = Inr d"
  shows "(\<not> DoNotDelete d \<longleftrightarrow> owner_state cl slice ow (\<lambda>co. shouldDeleteSlice co slice)) \<and>
     (\<not> HoldFinalizer d \<longleftrightarrow> owner_state cl slice ow (\<lambda>co. shouldReleaseSliceFinalizer co slice))"
  using assms
  by (auto simp: checkCompositionState_def delete_decision_def owner_state_def split: sum.splits api_err.splits)

lemma buildCleanupDecision_acts:
  assumes "buildCleanupDecision t cl slice (Some ow) = Inr d" "DeferBy d = None"
    and "\<not> DoNotDelete d \<or> \<not> HoldFinalizer d"
  shows "checkCompositionState (sc_noCache cl) slice ow = Inr d \<and>
     cleanup_threshold \<le> t - CreationTimestamp slice"
  using assms by (auto simp: buildCleanupDecision_def Let_def split: sum.splits if_splits)

lemmas sc_splits = sum.splits option.splits if_splits prod.splits bool.splits

lemma sc_Reconcile_delete:
  assumes "DeleteSlice slice \<in> set (fst (sc_Reconcile t cl req))"
  shows "\<exists>ow d. sc_get_slice cl req = Inr slice \<and> GetControllerOf slice = Some ow \<and>
     DeletionTimestamp slice = None \<and> buildCleanupDecision t cl slice (Some ow) = Inr d \<and>
     DeferBy d = None \<and> \<not> DoNotDelete d"
  using assms by (auto simp: sc_Reconcile_def Let_def split: sc_splits)

lemma sc_Reconcile_release:
  assumes "UpdateSlice slice' \<in> set (fst (sc_Reconcile t cl req))"
  shows "\<exists>slice d. sc_get_slice cl req = Inr slice \<and> RemoveFinalizer slice cleanup_finalizer = (slice', True) \<and>
     (DeletionTimestamp slice \<noteq> None \<or> GetControllerOf slice = None) \<and>
     buildCleanupDecision t cl slice (GetControllerOf slice) = Inr d \<and>
     DeferBy d = None \<and> \<not> HoldFinalizer d"
  using assms by (auto simp: sc_Reconcile_def Let_def split: sc_splits)

text \<open>
  C12. A slice is deleted only on the API server's word: the slice has an owner and is not being
  deleted, it is at least five seconds old, and the uncached read of the owning composition either
  found nothing or satisfies \<open>shouldDeleteSlice\<close>. In particular a slice that a live composition
  still references, and whose synthesis attempt has not been superseded, is never deleted.
\<close>
theorem slice_delete_guard:
  assumes "DeleteSlice slice \<in> set (fst (sc_Reconcile t cl req))"
  shows "\<exists>ow. GetControllerOf slice = Some ow \<and> DeletionTimestamp slice = None \<and>
     cleanup_threshold \<le> t - CreationTimestamp slice \<and>
     owner_state cl slice ow (\<lambda>co. shouldDeleteSlice co slice \<and> \<not> needed_by_comp co slice)"
proof -
  from sc_Reconcile_delete [OF assms] obtain ow d where
    d: "GetControllerOf slice = Some ow" "DeletionTimestamp slice = None"
       "buildCleanupDecision t cl slice (Some ow) = Inr d" "DeferBy d = None" "\<not> DoNotDelete d"
    by blast
  from buildCleanupDecision_acts [OF d(3,4)] d(5)
  have api: "checkCompositionState (sc_noCache cl) slice ow = Inr d"
    and age: "cleanup_threshold \<le> t - CreationTimestamp slice" by auto
  from checkCompositionState_acts [OF api] d(5)
  have "owner_state cl slice ow (\<lambda>co. shouldDeleteSlice co slice)" by simp
  then have "owner_state cl slice ow (\<lambda>co. shouldDeleteSlice co slice \<and> \<not> needed_by_comp co slice)"
    using needed_not_deleted by (auto simp: owner_state_def split: sum.splits)
  with d(1,2) age show ?thesis by blast
qed

definition retried_comp :: Composition where
  "retried_comp = map_current (\<lambda>s. s\<lparr>Attempts := 2\<rparr>) sample_comp"

definition sample_sc_client :: "ResourceSlice \<Rightarrow> sc_client" where
  "sample_sc_client slice =
     \<lparr>sc_get_slice = (\<lambda>_. Inr slice), sc_cached = (\<lambda>_. Inr retried_comp),
      sc_noCache = (\<lambda>_. Inr retried_comp), sc_write = (\<lambda>_. None)\<rparr>"

lemmas sc_eval = sc_Reconcile_def sample_sc_client_def retried_comp_def GetControllerOf_def Let_def
  buildCleanupDecision_def checkCompositionState_def shouldDeleteSlice_def cleanup_threshold_def
  shouldReleaseSliceFinalizer_def synthesisReferencesSlice_def RemoveFinalizer_def delete_decision_def
  cleanup_finalizer_def sample_defs

theorem slice_delete_guard_witness:
  "fst (sc_Reconcile (100 * second) (sample_sc_client sample_slice) (key_of sample_slice)) = [DeleteSlice sample_slice] \<and>
   owner_state (sample_sc_client sample_slice) sample_slice (OwnerReferences sample_slice ! 0)
     (\<lambda>co. \<not> needed_by_comp co sample_slice)"
proof -
  have s: "fst (sc_Reconcile (100 * second) (sample_sc_client sample_slice) (key_of sample_slice)) = [DeleteSlice sample_slice]"
    by (simp add: sc_eval)
  then have "DeleteSlice sample_slice \<in> set (fst (sc_Reconcile (100 * second) (sample_sc_client sample_slice) (key_of sample_slice)))"
    by simp
  from slice_delete_guard [OF this] s show ?thesis
    by (auto simp: GetControllerOf_def sample_slice_def owner_state_def split: sum.splits)
qed



text \<open>The log line that reports two different decisions tells them apart, unless they differ in the
  deferral only.\<close>

lemma cleanupDecision_String_eq:
  "cleanupDecision_String d = cleanupDecision_String d' \<longleftrightarrow>
     DoNotDelete d = DoNotDelete d' \<and> HoldFinalizer d = HoldFinalizer d'"
  by (auto simp: cleanupDecision_String_def bool_text_def)

text \<open>
  A slice without a controlling owner is never deleted by the controller, although the decision
  for it is to delete it: its finalizer is released, and from then on the handler does nothing.
\<close>
theorem ownerless_slice_kept:
  assumes "sc_get_slice cl req = Inr slice" and "GetControllerOf slice = None"
  shows "buildCleanupDecision t cl slice (GetControllerOf slice) = Inr delete_decision \<and>
    (\<forall>s. DeleteSlice s \<notin> set (fst (sc_Reconcile t cl req))) \<and>
    (cleanup_finalizer \<notin> set (Finalizers slice) \<longrightarrow> sc_Reconcile t cl req = ([], Inr done_result))"
proof (intro conjI allI impI)
  show d: "buildCleanupDecision t cl slice (GetControllerOf slice) = Inr delete_decision"
    using assms(2) by (simp add: buildCleanupDecision_def)
  show "DeleteSlice s \<notin> set (fst (sc_Reconcile t cl req))" for s
    using sc_Reconcile_delete [of s t cl req] assms by auto
  show "sc_Reconcile t cl req = ([], Inr done_result)" if "cleanup_finalizer \<notin> set (Finalizers slice)"
    using that d assms by (simp add: sc_Reconcile_def delete_decision_def RemoveFinalizer_def)
qed

theorem ownerless_slice_kept_witness:
  "sc_Reconcile (100 * second)
     (sample_sc_client (sample_slice\<lparr>OwnerReferences := [], Finalizers := []\<rparr>)) (key_of sample_slice)
     = ([], Inr done_result)"
proof -
  let ?s = "sample_slice\<lparr>OwnerReferences := [], Finalizers := []\<rparr>"
  have "sc_get_slice (sample_sc_client ?s) (key_of sample_slice) = Inr ?s"
    by (simp add: sample_sc_client_def)
  moreover have "GetControllerOf ?s = None" by (simp add: GetControllerOf_def)
  ultimately show ?thesis
    using ownerless_slice_kept [of "sample_sc_client ?s" "key_of sample_slice" ?s "100 * second"] by simp
qed

end
