(* ===== verification/Reconstitution_Cache.thy ===== *)
theory Reconstitution_Cache
  imports Reconstitution
begin

text \<open>
  Properties of the reconstitution cache: its indices are views of the list of resources of the
  slices it was filled from, what the range over readiness groups returns, and which syntheses
  remain cached. The lemmas about the tree are proved once for every tree that satisfies
  \<open>gods_tree\<close>.
\<close>

section \<open>Indices as views of a list of resources\<close>

abbreviation in_group :: "int \<Rightarrow> Res list \<Rightarrow> Res list" where
  "in_group g rs \<equiv> filter (\<lambda>r. res_ReadinessGroup r = g) rs"

definition crd_pairs :: "Res list \<Rightarrow> (GroupKind \<times> Res) list" where
  "crd_pairs rs = concat (map (\<lambda>r. case res_DefinedGroupKind r of None \<Rightarrow> [] | Some gk \<Rightarrow> [(gk, r)]) rs)"

definition indexes :: "resources \<Rightarrow> Res list \<Rightarrow> bool" where
  "indexes e rs =
     (rbt_sorted (ByReadinessGroup e) \<and>
      ByRef e = map_of (rev (map (\<lambda>r. (res_Ref r, r)) rs)) \<and>
      (\<forall>g. rbt_lookup (ByReadinessGroup e) g = (if in_group g rs = [] then None else Some (in_group g rs))) \<and>
      (\<forall>gk. ByGroupKind e gk = filter (\<lambda>r. gk_of r = gk) rs) \<and>
      CrdsByGroupKind e = map_of (rev (crd_pairs rs)))"

definition request_of :: "Composition \<Rightarrow> Res \<Rightarrow> ReconRequest" where
  "request_of co r = \<lparr>req_Resource = res_Ref r, req_Composition = key_of co\<rparr>"

definition parsed_as :: "rcodec \<Rightarrow> ResourceSlice list \<Rightarrow> Res list \<Rightarrow> bool" where
  "parsed_as cd slices rs =
     (map Inr rs = concat (map (\<lambda>s. map (NewResource cd s) [0 ..< length (Resources (slice_Spec s))]) slices))"

lemma indexes_empty: "indexes no_resources []"
  by (simp add: indexes_def no_resources_def crd_pairs_def rbt_lookup_Empty)

lemma build_slice_Inr:
  assumes "build_slice ops cd co slice is st = (st', None)"
  shows "\<exists>rs. map Inr rs = map (NewResource cd slice) is \<and>
     bs_resources st' = fold (add_resource ops) rs (bs_resources st) \<and>
     bs_requests st' = bs_requests st @ map (request_of co) rs"
  using assms
proof (induction "is" arbitrary: st)
  case (Cons i "is")
  then obtain r where r: "NewResource cd slice i = Inr r" by (auto split: sum.splits)
  with Cons.prems Cons.IH obtain rs where
    "map Inr rs = map (NewResource cd slice) is"
    "bs_resources st' = fold (add_resource ops) rs (add_resource ops r (bs_resources st))"
    "bs_requests st' = (bs_requests st @ [request_of co r]) @ map (request_of co) rs"
    by (fastforce simp: request_of_def)
  with r show ?case by (intro exI [of _ "r # rs"]) simp
qed simp

lemma build_slices_Inr:
  assumes "build_slices ops cd co slices st = (st', None)"
  shows "\<exists>rs. parsed_as cd slices rs \<and>
     bs_resources st' = fold (add_resource ops) rs (bs_resources st) \<and>
     bs_requests st' = bs_requests st @ map (request_of co) rs"
  using assms
proof (induction slices arbitrary: st)
  case (Cons slice slices)
  from Cons.prems obtain st1 where
    st1: "build_slice ops cd co slice [0 ..< length (Resources (slice_Spec slice))] st = (st1, None)"
      "build_slices ops cd co slices st1 = (st', None)"
    by (auto split: if_splits prod.splits option.splits)
  from build_slice_Inr [OF st1(1)] obtain rs1 where
    "map Inr rs1 = map (NewResource cd slice) [0 ..< length (Resources (slice_Spec slice))]"
    "bs_resources st1 = fold (add_resource ops) rs1 (bs_resources st)"
    "bs_requests st1 = bs_requests st @ map (request_of co) rs1" by blast
  moreover from Cons.IH [OF st1(2)] obtain rs2 where "parsed_as cd slices rs2"
    "bs_resources st' = fold (add_resource ops) rs2 (bs_resources st1)"
    "bs_requests st' = bs_requests st1 @ map (request_of co) rs2" by blast
  ultimately show ?case by (intro exI [of _ "rs1 @ rs2"]) (simp add: parsed_as_def)
qed (simp add: parsed_as_def)

context gods_tree
begin

lemma indexes_add:
  assumes "indexes e rs"
  shows "indexes (add_resource ops r e) (rs @ [r])"
proof -
  have s: "rbt_sorted (ByReadinessGroup e)" using assms by (simp add: indexes_def)
  show ?thesis
    using assms put_sorted [OF s] get [OF s] put_lookup [OF s]
    by (auto simp: indexes_def add_resource_def crd_pairs_def fun_eq_iff split: option.splits)
qed

lemma indexes_fold: "indexes e rs \<Longrightarrow> indexes (fold (add_resource ops) rs' e) (rs @ rs')"
proof (induction rs' arbitrary: e rs)
  case (Cons r rs')
  from Cons.IH [OF indexes_add [OF Cons.prems]] show ?case by simp
qed simp

lemma fill_indexes:
  assumes "fill ops cd co s items c = (c', Inr reqs)"
  shows "\<exists>e rs. c_resources c' = (c_resources c)(syn_key co (UUID s) \<mapsto> e) \<and>
     parsed_as cd items rs \<and> indexes e rs \<and> reqs = map (request_of co) rs"
proof -
  from assms obtain st where st: "buildResources ops cd c co items = (st, None)"
    "c_resources c' = (c_resources c)(syn_key co (UUID s) \<mapsto> bs_resources st)" "reqs = bs_requests st"
    by (auto simp: fill_def split: prod.splits option.splits)
  from build_slices_Inr [OF st(1) [unfolded buildResources_def]] obtain rs where
    rs: "parsed_as cd items rs" "bs_resources st = fold (add_resource ops) rs no_resources"
      "bs_requests st = map (request_of co) rs" by auto
  have "indexes (bs_resources st) rs"
    using indexes_fold [OF indexes_empty, of rs] by (simp add: rs(2))
  with st rs show ?thesis by auto
qed

end

text \<open>
  C17. Filling the cache succeeds only when every manifest of every slice parses, and then the
  entry of the synthesis indexes exactly the parsed resources: by reference (the last one wins), by
  readiness group and by group and kind in slice order, and definitions of custom resources by what
  they define. One request per resource is enqueued, and no other synthesis is touched.
\<close>
theorem fill_refines:
  assumes "gods_tree ops" "fill ops cd co s items c = (c', Inr reqs)"
  shows "\<exists>e rs. c_resources c' = (c_resources c)(syn_key co (UUID s) \<mapsto> e) \<and>
     parsed_as cd items rs \<and> indexes e rs \<and> reqs = map (request_of co) rs"
  using assms by (rule gods_tree.fill_indexes)

theorem fill_refines_witness:
  "\<exists>c' reqs rs. fill rb_ops sample_rcodec sample_comp sample_synthesis [sample_slice] NewCache = (c', Inr reqs) \<and>
     parsed_as sample_rcodec [sample_slice] rs \<and> reqs = map (request_of sample_comp) rs"
proof -
  have "\<exists>st. buildResources rb_ops sample_rcodec NewCache sample_comp [sample_slice] = (st, None)"
    by (simp add: buildResources_def sample_comp_def NewResource_def sample_rcodec_def sample_codec_def codec.extend_def
        sample_slice_def sample_obj_def resolve_patch_def patchGVK_def define_crd_def Let_def)
  then obtain c' reqs where f: "fill rb_ops sample_rcodec sample_comp sample_synthesis [sample_slice] NewCache = (c', Inr reqs)"
    by (auto simp: fill_def)
  from fill_refines [OF rb.gods_tree_axioms f] f show ?thesis by blast
qed

section \<open>Ranging over readiness groups\<close>

lemma subtree_sorted: "subtree_of s t \<Longrightarrow> rbt_sorted t \<Longrightarrow> rbt_sorted s"
  by (induction t) auto

lemma subtree_keys: "subtree_of s t \<Longrightarrow> rbt_sorted t \<Longrightarrow> tkeys s \<subseteq> tkeys t"
proof (induction t)
  case (Branch c l k v r)
  note d = tkeys_Branch [OF Branch.prems(2)]
  have s: "rbt_sorted l" "rbt_sorted r" using Branch.prems(2) by auto
  show ?case
  proof (cases "s = Branch c l k v r")
    case False
    with Branch.prems(1) have "tkeys s \<subseteq> tkeys l \<or> tkeys s \<subseteq> tkeys r"
      using Branch.IH(1) [OF _ s(1)] Branch.IH(2) [OF _ s(2)] by auto
    then show ?thesis unfolding d(1) by blast
  qed simp
qed simp

lemma above_root: "x \<in> insert k (A \<union> B) \<Longrightarrow> \<forall>y \<in> A. y < k \<Longrightarrow> k < x \<Longrightarrow> x \<in> (B :: int set)"
  by force

lemma below_root: "x \<in> insert k (A \<union> B) \<Longrightarrow> \<forall>y \<in> B. k < y \<Longrightarrow> x < k \<Longrightarrow> x \<in> (A :: int set)"
  by force

text \<open>Keys above the root of a subtree are in its right branch or beyond all of that branch.\<close>

lemma subtree_above:
  assumes "subtree_of (Branch c' l' k' v' r') t" "rbt_sorted t" "x \<in> tkeys t" "k' < x"
  shows "x \<in> tkeys r' \<or> (\<forall>y \<in> tkeys r'. y < x)"
  using assms
proof (induction t)
  case (Branch c l k v r)
  note d = tkeys_Branch [OF Branch.prems(2)]
  have s: "rbt_sorted l" "rbt_sorted r" using Branch.prems(2) by auto
  consider "Branch c' l' k' v' r' = Branch c l k v r" | "subtree_of (Branch c' l' k' v' r') l" | "subtree_of (Branch c' l' k' v' r') r"
    using Branch.prems(1) by auto
  then show ?case
  proof cases
    case 1
    with above_root [OF Branch.prems(3) [unfolded d(1)] d(2)] Branch.prems(4) show ?thesis by simp
  next
    case 2
    have sub: "tkeys r' \<subseteq> tkeys l" "rbt_sorted (Branch c' l' k' v' r')"
      using subtree_keys [OF 2 s(1)] tkeys_Branch(1) [OF subtree_sorted [OF 2 s(1)]] subtree_sorted [OF 2 s(1)] by blast+
    show ?thesis
    proof (cases "x \<in> tkeys l")
      case True
      with Branch.IH(1) [OF 2 s(1) True] Branch.prems(4) show ?thesis by blast
    next
      case False
      then have "k \<le> x" using below_root [OF Branch.prems(3) [unfolded d(1)] d(3)] by (meson not_le)
      with sub(1) d(2) have "\<forall>y \<in> tkeys r'. y < x" by (meson order_less_le_trans subsetD)
      then show ?thesis by blast
    qed
  next
    case 3
    have "k' \<in> tkeys r"
      using subtree_keys [OF 3 s(2)] tkeys_Branch(1) [OF subtree_sorted [OF 3 s(2)]] by blast
    then have "k < x" using d(3) Branch.prems(4) by (meson order_less_trans)
    then have "x \<in> tkeys r" using above_root [OF Branch.prems(3) [unfolded d(1)] d(2)] by blast
    with Branch.IH(2) [OF 3 s(2)] Branch.prems(4) show ?thesis by blast
  qed
qed (simp add: rbt_lookup_Empty)

lemma subtree_below:
  assumes "subtree_of (Branch c' l' k' v' r') t" "rbt_sorted t" "x \<in> tkeys t" "x < k'"
  shows "x \<in> tkeys l' \<or> (\<forall>y \<in> tkeys l'. x < y)"
  using assms
proof (induction t)
  case (Branch c l k v r)
  note d = tkeys_Branch [OF Branch.prems(2)]
  have s: "rbt_sorted l" "rbt_sorted r" using Branch.prems(2) by auto
  consider "Branch c' l' k' v' r' = Branch c l k v r" | "subtree_of (Branch c' l' k' v' r') l" | "subtree_of (Branch c' l' k' v' r') r"
    using Branch.prems(1) by auto
  then show ?case
  proof cases
    case 1
    with below_root [OF Branch.prems(3) [unfolded d(1)] d(3)] Branch.prems(4) show ?thesis by simp
  next
    case 3
    have sub: "tkeys l' \<subseteq> tkeys r"
      using subtree_keys [OF 3 s(2)] tkeys_Branch(1) [OF subtree_sorted [OF 3 s(2)]] by blast
    show ?thesis
    proof (cases "x \<in> tkeys r")
      case True
      with Branch.IH(2) [OF 3 s(2) True] Branch.prems(4) show ?thesis by blast
    next
      case False
      then have "x \<le> k" using above_root [OF Branch.prems(3) [unfolded d(1)] d(2)] by (meson not_le)
      with sub d(3) have "\<forall>y \<in> tkeys l'. x < y" by (meson order_le_less_trans subsetD)
      then show ?thesis by blast
    qed
  next
    case 2
    have "k' \<in> tkeys l"
      using subtree_keys [OF 2 s(1)] tkeys_Branch(1) [OF subtree_sorted [OF 2 s(1)]] by blast
    then have "x < k" using d(2) Branch.prems(4) by (meson order_less_trans)
    then have "x \<in> tkeys l" using below_root [OF Branch.prems(3) [unfolded d(1)] d(3)] by blast
    with Branch.IH(1) [OF 2 s(1)] Branch.prems(4) show ?thesis by blast
  qed
qed (simp add: rbt_lookup_Empty)

lemma subtree_lookup:
  "subtree_of s t \<Longrightarrow> rbt_sorted t \<Longrightarrow> rbt_lookup s k = Some v \<Longrightarrow> rbt_lookup t k = Some v"
proof (induction t)
  case (Branch c l k' v' r)
  have s: "rbt_sorted l" "rbt_sorted r" using Branch.prems(2) by auto
  consider "s = Branch c l k' v' r" | "rbt_lookup l k = Some v" | "rbt_lookup r k = Some v"
    using Branch.prems(1,3) Branch.IH(1) [OF _ s(1)] Branch.IH(2) [OF _ s(2)] by auto
  then show ?case
  proof cases
    case 1
    with Branch.prems(3) show ?thesis by simp
  next
    case 2
    then show ?thesis by (rule lookup_left [OF Branch.prems(2)])
  next
    case 3
    then show ?thesis by (rule lookup_right [OF Branch.prems(2)])
  qed
qed simp

lemma right_child_next:
  assumes "subtree_of (Branch c l k v (Branch c' rbt.Empty k' v' r')) t" "rbt_sorted t"
  shows "least_ge (tkeys t) (k + 1) k' \<and> rbt_lookup t k' = Some v'"
proof -
  let ?n = "Branch c l k v (Branch c' rbt.Empty k' v' r')" and ?r = "Branch c' rbt.Empty k' v' r'"
  have sn: "rbt_sorted ?n" by (rule subtree_sorted [OF assms])
  then have sr: "rbt_sorted ?r" by simp
  have lk: "rbt_lookup t k' = Some v'"
    using subtree_lookup [OF assms] lookup_right [OF sn, of k' v'] by simp
  have kk: "k < k'" using sn by simp
  have "k' \<le> y" if "y \<in> tkeys ?r" for y
    using that tkeys_Branch [OF sr] by (auto simp: rbt_lookup_Empty simp del: rbt_lookup.simps) force
  moreover have "k' \<in> tkeys ?r" by (simp add: dom_def)
  ultimately have "k' \<le> x" if "x \<in> tkeys t" "k < x" for x
    using subtree_above [OF assms that] by (meson order_less_imp_le)
  with lk kk show ?thesis by (auto simp: least_ge_def)
qed

lemma left_child_prev:
  assumes "subtree_of (Branch c (Branch c' l' k' v' rbt.Empty) k v r) t" "rbt_sorted t"
  shows "greatest_le (tkeys t) (k - 1) k' \<and> rbt_lookup t k' = Some v'"
proof -
  let ?n = "Branch c (Branch c' l' k' v' rbt.Empty) k v r" and ?l = "Branch c' l' k' v' rbt.Empty"
  have sn: "rbt_sorted ?n" by (rule subtree_sorted [OF assms])
  then have sl: "rbt_sorted ?l" by simp
  have lk: "rbt_lookup t k' = Some v'"
    using subtree_lookup [OF assms] lookup_left [OF sn, of k' v'] by simp
  have kk: "k' < k" using sn by simp
  have "y \<le> k'" if "y \<in> tkeys ?l" for y
    using that tkeys_Branch [OF sl] by (auto simp: rbt_lookup_Empty simp del: rbt_lookup.simps) force
  moreover have "k' \<in> tkeys ?l" by (simp add: dom_def)
  ultimately have "x \<le> k'" if "x \<in> tkeys t" "x < k" for x
    using subtree_below [OF assms that] by (meson order_less_imp_le)
  with lk kk show ?thesis by (auto simp: greatest_le_def)
qed

text \<open>Whether the child on the side of the range is the neighbour: it has no inner branch.\<close>

definition adjacent_child :: "bool \<Rightarrow> gtree \<Rightarrow> bool" where
  "adjacent_child asc node =
     (case node of
        rbt.Empty \<Rightarrow> True
      | Branch _ l _ _ r \<Rightarrow>
          if asc then (case r of rbt.Empty \<Rightarrow> True | Branch _ l' _ _ _ \<Rightarrow> l' = rbt.Empty)
          else (case l of rbt.Empty \<Rightarrow> True | Branch _ _ _ _ r' \<Rightarrow> r' = rbt.Empty))"

definition neighbour :: "bool \<Rightarrow> int set \<Rightarrow> int \<Rightarrow> int \<Rightarrow> bool" where
  "neighbour asc D g g' = (if asc then least_ge D (g + 1) g' else greatest_le D (g - 1) g')"

lemma no_least_ge: "\<forall>c \<in> D. c < k \<Longrightarrow> \<not> least_ge D k x"
  by (auto simp: least_ge_def)

lemma no_greatest_le: "\<forall>c \<in> D. k < c \<Longrightarrow> \<not> greatest_le D k x"
  by (auto simp: greatest_le_def)

lemma neighbour_unique: "neighbour asc D g x \<Longrightarrow> neighbour asc D g y \<Longrightarrow> x = y"
  by (auto simp: neighbour_def least_ge_def greatest_le_def split: if_splits) (meson order_antisym)+

lemma indexes_keys: "indexes e rs \<Longrightarrow> tkeys (ByReadinessGroup e) = res_ReadinessGroup ` set rs"
  by (auto simp: indexes_def dom_def filter_empty_conv)

context gods_tree
begin

lemma range_value:
  assumes "c_resources c syn = Some e" "indexes e rs" "g \<in> res_ReadinessGroup ` set rs"
    and "asc \<or> g \<noteq> 0" "adjacent_child asc (t_GetNode ops (ByReadinessGroup e) g)"
  shows "(RangeByReadinessGroup ops c syn g asc = [] \<and> (\<forall>g'. \<not> neighbour asc (tkeys (ByReadinessGroup e)) g g')) \<or>
     (\<exists>g'. neighbour asc (tkeys (ByReadinessGroup e)) g g' \<and>
        rbt_lookup (ByReadinessGroup e) g' = Some (RangeByReadinessGroup ops c syn g asc))"
proof -
  let ?t = "ByReadinessGroup e"
  have st: "rbt_sorted ?t" using assms(2) by (simp add: indexes_def)
  have "g \<in> tkeys ?t" using assms(3) by (simp add: indexes_keys [OF assms(2)])
  then obtain v where v: "rbt_lookup ?t g = Some v" by blast
  from node_some [OF st v] obtain col l r where
    n: "t_GetNode ops ?t g = Branch col l g v r" "subtree_of (Branch col l g v r) ?t" by blast
  show ?thesis
  proof (cases asc)
    case True
    show ?thesis
    proof (cases r)
      case Empty
      then have "RangeByReadinessGroup ops c syn g asc = (case t_Ceiling ops ?t (g + 1) of None \<Rightarrow> [] | Some w \<Rightarrow> w)"
        using assms(1,4) n(1) True by (simp add: RangeByReadinessGroup_def)
      moreover note ceiling [OF st, of "g + 1"]
      ultimately show ?thesis
        using True by (cases "t_Ceiling ops ?t (g + 1)") (auto simp: neighbour_def no_least_ge simp del: domIff)
    next
      case (Branch c' l' k' v' r')
      have "l' = rbt.Empty" using assms(5) n(1) True Branch by (simp add: adjacent_child_def)
      with right_child_next [OF _ st] n(2) Branch have "least_ge (tkeys ?t) (g + 1) k'" "rbt_lookup ?t k' = Some v'" by blast+
      moreover have "RangeByReadinessGroup ops c syn g asc = v'"
        using assms(1,4) n(1) True Branch by (simp add: RangeByReadinessGroup_def node_value_def)
      ultimately show ?thesis using True by (auto simp: neighbour_def)
    qed
  next
    case False
    show ?thesis
    proof (cases l)
      case Empty
      then have "RangeByReadinessGroup ops c syn g asc = (case t_Floor ops ?t (g - 1) of None \<Rightarrow> [] | Some w \<Rightarrow> w)"
        using assms(1,4) n(1) False by (simp add: RangeByReadinessGroup_def)
      moreover note floor [OF st, of "g - 1"]
      ultimately show ?thesis
        using False by (cases "t_Floor ops ?t (g - 1)") (auto simp: neighbour_def no_greatest_le simp del: domIff)
    next
      case (Branch c' l' k' v' r')
      have "r' = rbt.Empty" using assms(5) n(1) False Branch by (simp add: adjacent_child_def)
      with left_child_prev [OF _ st] n(2) Branch have "greatest_le (tkeys ?t) (g - 1) k'" "rbt_lookup ?t k' = Some v'" by blast+
      moreover have "RangeByReadinessGroup ops c syn g asc = v'"
        using assms(1,4) n(1) False Branch by (simp add: RangeByReadinessGroup_def node_value_def)
      ultimately show ?thesis using False by (auto simp: neighbour_def)
    qed
  qed
qed

end

text \<open>
  The range over readiness groups returns the resources of the neighbouring group, the next one
  up or down among the groups of the synthesis, and nothing when there is none, provided that the
  child which the code looks at first has no inner branch; the range down from group 0 is not asked
  for.
\<close>
theorem range_adjacent_group:
  assumes "gods_tree ops" "c_resources c syn = Some e" "indexes e rs" "g \<in> res_ReadinessGroup ` set rs"
    and "asc \<or> g \<noteq> 0" "adjacent_child asc (t_GetNode ops (ByReadinessGroup e) g)"
  shows "if \<exists>g'. neighbour asc (res_ReadinessGroup ` set rs) g g'
     then \<exists>g'. neighbour asc (res_ReadinessGroup ` set rs) g g' \<and>
            RangeByReadinessGroup ops c syn g asc = filter (\<lambda>r. res_ReadinessGroup r = g') rs
     else RangeByReadinessGroup ops c syn g asc = []"
proof -
  have look: "rbt_lookup (ByReadinessGroup e) g' = Some w \<Longrightarrow> w = in_group g' rs" for g' w
    using assms(3) by (auto simp: indexes_def split: if_splits)
  from gods_tree.range_value [OF assms(1-2,3-6)] show ?thesis
    unfolding indexes_keys [OF assms(3)] using look by (metis (no_types, lifting))
qed

definition grouped_res :: "int \<Rightarrow> Res" where
  "grouped_res g =
     \<lparr>res_Ref = \<lparr>ref_Name = Itoa g, ref_Namespace = [], ref_Group = [], ref_Kind = ''ConfigMap''\<rparr>,
      res_Manifest = \<lparr>manifest = [], m_Deleted = False\<rparr>,
      res_ManifestRef = \<lparr>mr_Slice = key_of sample_slice, mr_Index = 0\<rparr>,
      res_ReconcileInterval = None, res_GVK = \<lparr>gvk_Group = [], gvk_Version = ''v1'', gvk_Kind = ''ConfigMap''\<rparr>,
      res_SliceDeleted = False, res_ReadinessChecks = [], res_Patch = None, res_DisableUpdates = False,
      res_ReadinessGroup = g, res_DefinedGroupKind = None\<rparr>"

definition grouped_cache :: "int list \<Rightarrow> Cache" where
  "grouped_cache gs = NewCache\<lparr>c_resources := [syn_key sample_comp ''u1'' \<mapsto>
     fold (add_resource rb_ops) (map grouped_res gs) no_resources]\<rparr>"

lemma grouped_group [simp]: "res_ReadinessGroup (grouped_res g) = g" "res_DefinedGroupKind (grouped_res g) = None"
  by (simp_all add: grouped_res_def)

lemma grouped_tree:
  "ByReadinessGroup (add_resource rb_ops (grouped_res g) e) =
     rbt_insert g ((case rbt_lookup (ByReadinessGroup e) g of None \<Rightarrow> [] | Some cur \<Rightarrow> cur) @ [grouped_res g]) (ByReadinessGroup e)"
  by (simp add: add_resource_def rb_ops_def)

lemma grouped_start: "ByReadinessGroup no_resources = rbt.Empty"
  by (simp add: no_resources_def)

lemmas insert_eval = rbt_insert_def rbt_insert_with_key_def paint_def rbt_lookup_Empty

theorem range_adjacent_group_witness:
  "RangeByReadinessGroup rb_ops (grouped_cache [0, 1, 2]) (syn_key sample_comp ''u1'') 1 True = [grouped_res 2]"
proof -
  let ?e = "fold (add_resource rb_ops) (map grouped_res [0, 1, 2]) no_resources"
  have i: "indexes ?e (map grouped_res [0, 1, 2])"
    using rb.indexes_fold [OF indexes_empty, of "map grouped_res [0, 1, 2]"] by simp
  have c: "c_resources (grouped_cache [0, 1, 2]) (syn_key sample_comp ''u1'') = Some ?e"
    by (simp add: grouped_cache_def)
  have tree: "ByReadinessGroup ?e =
      Branch RBT_Impl.B (Branch RBT_Impl.B rbt.Empty 0 [grouped_res 0] rbt.Empty) 1 [grouped_res 1]
        (Branch RBT_Impl.B rbt.Empty 2 [grouped_res 2] rbt.Empty)"
    by (simp add: grouped_tree grouped_start insert_eval)
  have a: "adjacent_child True (t_GetNode rb_ops (ByReadinessGroup ?e) 1)"
    unfolding tree by (simp add: adjacent_child_def rb_ops_def)
  have "neighbour True {0, 1, 2} 1 2" by (simp add: neighbour_def least_ge_def)
  moreover have "x = 2" if "neighbour True {0, 1, 2} 1 x" for x
    using neighbour_unique that calculation by blast
  moreover have "res_ReadinessGroup ` set (map grouped_res [0, 1, 2]) = {0, 1, 2}" by simp
  ultimately obtain g' where "g' = 2" "RangeByReadinessGroup rb_ops (grouped_cache [0, 1, 2]) (syn_key sample_comp ''u1'') 1 True =
      filter (\<lambda>r. res_ReadinessGroup r = g') (map grouped_res [0, 1, 2])"
    using range_adjacent_group [OF rb.gods_tree_axioms c i _ _ a] by (metis insertCI)
  then show ?thesis by simp
qed

text \<open>
  With five readiness groups the range skips one: from group 1 of the groups 0 to 4 it returns
  group 3, because the right child of the node is taken for its successor, so the resources of
  group 2 are not woken when group 1 becomes ready.
\<close>
theorem range_skips_group:
  "RangeByReadinessGroup rb_ops (grouped_cache [0, 1, 2, 3, 4]) (syn_key sample_comp ''u1'') 1 True = [grouped_res 3]"
proof -
  let ?e = "fold (add_resource rb_ops) (map grouped_res [0, 1, 2, 3, 4]) no_resources"
  have tree: "\<exists>l r. rb_GetNode (ByReadinessGroup ?e) 1 = Branch RBT_Impl.B l 1 [grouped_res 1]
        (Branch RBT_Impl.R (Branch RBT_Impl.B rbt.Empty 2 [grouped_res 2] rbt.Empty) 3 [grouped_res 3] r)"
    by (simp add: grouped_tree grouped_start insert_eval)
  then show ?thesis
    by (auto simp: RangeByReadinessGroup_def grouped_cache_def rb_ops_def node_value_def)
qed

section \<open>Which syntheses stay cached\<close>

definition nn_of :: "SynthesisRef \<Rightarrow> NamespacedName" where
  "nn_of key = \<lparr>nn_Namespace = sref_Namespace key, nn_Name = sref_CompositionName key\<rparr>"

text \<open>The invariant of the cache: every cached synthesis is known to its composition.\<close>

definition cache_ok :: "Cache \<Rightarrow> bool" where
  "cache_ok c \<longleftrightarrow> (\<forall>key. c_resources c key \<noteq> None \<longrightarrow> sref_UUID key \<in> set (synthesisUUIDsByComposition c (nn_of key)))"

lemma purge_uuids_spec:
  "purge_uuids nn mco uuids (rs, rem) =
     (\<lambda>key. if nn_of key = nn \<and> sref_UUID key \<in> set uuids \<and> \<not> still_referenced mco (sref_UUID key) then None else rs key,
      rem @ filter (still_referenced mco) uuids)"
proof (induction uuids arbitrary: rs rem)
  case (Cons uuid uuids)
  have key: "key = \<lparr>sref_CompositionName = nn_Name nn, sref_Namespace = nn_Namespace nn, sref_UUID = uuid\<rparr> \<longleftrightarrow>
      nn_of key = nn \<and> sref_UUID key = uuid" for key
    by (cases key) (auto simp: nn_of_def)
  show ?case
    by (auto simp: Cons fun_eq_iff key)
qed (simp add: fun_eq_iff)

lemma purge_fields:
  "c_resources (purge nn mco c) =
     (\<lambda>key. if nn_of key = nn \<and> sref_UUID key \<in> set (synthesisUUIDsByComposition c nn) \<and>
          \<not> still_referenced mco (sref_UUID key) then None else c_resources c key)"
  "synthesisUUIDsByComposition (purge nn mco c) =
     (synthesisUUIDsByComposition c)(nn := filter (still_referenced mco) (synthesisUUIDsByComposition c nn))"
  by (simp_all add: purge_def purge_uuids_spec)

lemma purge_exact:
  assumes "cache_ok c"
  shows "c_resources (purge nn mco c) =
     (\<lambda>key. if nn_of key = nn \<and> \<not> still_referenced mco (sref_UUID key) then None else c_resources c key)"
    and "cache_ok (purge nn mco c)"
  using assms by (fastforce simp: cache_ok_def purge_fields fun_eq_iff)+

lemma nn_of_syn_key [simp]: "nn_of (syn_key co uuid) = key_of co" "sref_UUID (syn_key co uuid) = uuid"
  by (simp_all add: nn_of_def syn_key_def key_of_def)

lemma fill_cache_ok: "cache_ok c \<Longrightarrow> cache_ok (fst (fill ops cd co s items c))"
  by (auto simp: fill_def cache_ok_def split: prod.splits option.splits)

lemma populateCache_ok: "cache_ok c \<Longrightarrow> cache_ok (fst (populateCache ops cd cl co syn c))"
  by (auto simp: populateCache_def fill_cache_ok split: option.splits sum.splits)



text \<open>
  A fill that fails still changes the cache: when the second manifest of a slice is invalid, the
  error is returned but the first one stays in the index by slice position, although \<open>fill\<close> is
  documented to populate the cache with all or none of the resources.
\<close>
theorem failed_fill_is_partial:
  "\<exists>c'. fill rb_ops (sample_rcodec\<lparr>UnmarshalJSON := (\<lambda>m. if m = ''m'' then Some (sample_obj ''m'') else None)\<rparr>)
      sample_comp sample_synthesis
      [sample_slice\<lparr>slice_Spec := (slice_Spec sample_slice)\<lparr>Resources :=
         [\<lparr>manifest = ''m'', m_Deleted = False\<rparr>, \<lparr>manifest = ''x'', m_Deleted = False\<rparr>]\<rparr>\<rparr>] NewCache =
      (c', Inl (Plain ''invalid json'')) \<and>
     byIndex c' \<lparr>si_Index = 0, si_SliceName = ''slice'', si_Namespace = ''ns''\<rparr> \<noteq> None"
  by (simp add: fill_def buildResources_def NewResource_def sample_rcodec_def sample_codec_def codec.extend_def
      sample_slice_def sample_obj_def sample_comp_def resolve_patch_def patchGVK_def define_crd_def Let_def
      upt_rec NewCache_def)

end
