(* ===== verification/Reconciliation.thy ===== *)
theory Reconciliation
  imports Reconstitution_Cache Write_Buffer
begin

text \<open>
  The reconciliation controller (\<open>controllers/reconciliation/controller.go\<close>), which brings one
  resource of the downstream cluster to its desired state. The reconstituted resources are read
  through the cache of \<open>Reconstitution\<close>; what the controller remembers of the resource version it
  last saw is threaded explicitly. JSON, three-way merges, the kubectl scheme and the discovery
  cache are fields of \<open>ra_codec\<close>; a JSON object is the list of its top-level fields.
\<close>

section \<open>Building patches\<close>

datatype patch_type = JSONPatchType | MergePatchType | StrategicMergePatchType

type_synonym jfields = "(string \<times> string) list"

record ra_codec = rcodec +
  TypedJSON :: "GroupVersionKind \<Rightarrow> string \<Rightarrow> string option option"
  MarshalPatch :: "json_patch \<Rightarrow> string option"
  CreateThreeWayJSONMergePatch :: "string \<Rightarrow> string \<Rightarrow> string \<Rightarrow> string option"
  CreateThreeWayMergePatch :: "string \<Rightarrow> string \<Rightarrow> string \<Rightarrow> string option"
  UnmarshalFields :: "string \<Rightarrow> jfields option"
  MarshalFields :: "jfields \<Rightarrow> string option"
  SetMeta :: "string \<Rightarrow> jfields \<Rightarrow> jfields option"
  DiscoveryGet :: "GroupVersionKind \<Rightarrow> api_err + bool"

text \<open>
  \<open>TypedJSON\<close> decodes a manifest into its built-in type and encodes that, \<open>None\<close> when the type is
  not known. \<open>DiscoveryGet\<close> answers whether there is a merge model for a kind.
\<close>

definition Finalize :: "'a ra_codec_scheme \<Rightarrow> Res option \<Rightarrow> string option" where
  "Finalize cd r =
     (case r of
        None \<Rightarrow> Some []
      | Some res \<Rightarrow>
          (case TypedJSON cd (res_GVK res) (manifest (res_Manifest res)) of
             None \<Rightarrow> Some (manifest (res_Manifest res))
           | Some js \<Rightarrow> js))"

definition pdbGVK :: GroupVersionKind where
  "pdbGVK = \<lparr>gvk_Group = ''policy'', gvk_Version = ''v1'', gvk_Kind = ''PodDisruptionBudget''\<rparr>"

definition buildPatch ::
  "'a ra_codec_scheme \<Rightarrow> Res option \<Rightarrow> Res \<Rightarrow> Unstructured \<Rightarrow> error + (string \<times> patch_type)" where
  "buildPatch cd prev next cur =
     (case res_Patch next of
        Some ops \<Rightarrow>
          if \<not> NeedsToBePatched cd next (Some cur) then Inr ([], JSONPatchType)
          else (case MarshalPatch cd ops of None \<Rightarrow> Inl (Plain []) | Some p \<Rightarrow> Inr (p, JSONPatchType))
      | None \<Rightarrow>
          (case Finalize cd prev of
             None \<Rightarrow> Inl (Terminal ''building json representation of previous state'')
           | Some prevJS \<Rightarrow>
               (case Finalize cd (Some next) of
                  None \<Rightarrow> Inl (Terminal ''building json representation of next state'')
                | Some nextJS \<Rightarrow>
                    (case MarshalJSON cd cur of
                       None \<Rightarrow> Inl (Terminal ''building json representation of current state'')
                     | Some currentJS \<Rightarrow>
                         (case DiscoveryGet cd (res_GVK next) of
                            Inl e \<Rightarrow> Inl (Wrap ''getting merge metadata'' e)
                          | Inr model \<Rightarrow>
                              if \<not> model \<or> res_GVK next = pdbGVK then
                                (case CreateThreeWayJSONMergePatch cd prevJS nextJS currentJS of
                                   None \<Rightarrow> Inl (Terminal []) | Some p \<Rightarrow> Inr (p, MergePatchType))
                              else
                                (case CreateThreeWayMergePatch cd prevJS nextJS currentJS of
                                   None \<Rightarrow> Inl (Terminal []) | Some p \<Rightarrow> Inr (p, StrategicMergePatchType)))))))"

definition mungePatch :: "'a ra_codec_scheme \<Rightarrow> string \<Rightarrow> string \<Rightarrow> error + string" where
  "mungePatch cd patch rv =
     (case UnmarshalFields cd patch of
        None \<Rightarrow> Inl (Terminal [])
      | Some patchMap \<Rightarrow>
          (case SetMeta cd rv (AList.delete ''status'' patchMap) of
             None \<Rightarrow> Inl (Terminal [])
           | Some m \<Rightarrow>
               if length (remdups (map fst m)) \<le> 1 then Inr []
               else (case MarshalFields cd m of None \<Rightarrow> Inl (Plain []) | Some js \<Rightarrow> Inr js)))"

section \<open>One resource\<close>

datatype up_request =
    UpDelete Unstructured
  | UpCreate Unstructured
  | UpPatch Unstructured patch_type string

record upstream =
  up_meta :: "GroupVersionKind \<Rightarrow> NamespacedName \<Rightarrow> api_err + string"
  up_get :: "GroupVersionKind \<Rightarrow> NamespacedName \<Rightarrow> api_err + Unstructured"
  up_write :: "up_request \<Rightarrow> api_err option"

definition obj_key :: "Res \<Rightarrow> NamespacedName" where
  "obj_key r = \<lparr>nn_Namespace = ref_Namespace (res_Ref r), nn_Name = ref_Name (res_Ref r)\<rparr>"

definition getCurrent ::
  "'a ra_codec_scheme \<Rightarrow> upstream \<Rightarrow> lastSeenMeta \<Rightarrow> Res \<Rightarrow> (Unstructured option \<times> bool) \<times> api_err option" where
  "getCurrent cd up seen r =
     (let full = (case up_get up (res_GVK r) (obj_key r) of
                    Inl e \<Rightarrow> ((None, True), Some e)
                  | Inr cur \<Rightarrow> ((Some cur, True), None))
      in if HasBeenSeen seen \<and> \<not> Res_Deleted cd r then
           (case up_meta up (res_GVK r) (obj_key r) of
              Inl e \<Rightarrow> ((None, False), Some e)
            | Inr rv \<Rightarrow> if MatchesLastSeen seen rv then ((None, False), None) else full)
         else full)"

definition reconcileResource ::
  "'a ra_codec_scheme \<Rightarrow> upstream \<Rightarrow> Composition \<Rightarrow> Res option \<Rightarrow> Res \<Rightarrow> Unstructured option \<Rightarrow>
   up_request list \<times> (error + bool)" where
  "reconcileResource cd up co prev r cur =
     (if Res_Deleted cd r then
        (case cur of
           None \<Rightarrow> ([], Inr False)
         | Some obj \<Rightarrow>
             if u_DeletionTimestamp obj \<noteq> None then ([], Inr False)
             else if deletion_strategy_orphan co then ([], Inr False)
             else ([UpDelete obj],
                   case up_write up (UpDelete obj) of
                     None \<Rightarrow> Inr True
                   | Some NotFound \<Rightarrow> Inr False
                   | Some e \<Rightarrow> Inl (Wrap ''deleting resource'' e)))
      else
        (case cur of
           None \<Rightarrow>
             if res_Patch r \<noteq> None then ([], Inr False)
             else (case UnmarshalJSON cd (manifest (res_Manifest r)) of
                     None \<Rightarrow> ([], Inl (Plain ''invalid resource''))
                   | Some obj \<Rightarrow>
                       ([UpCreate obj],
                        case up_write up (UpCreate obj) of
                          None \<Rightarrow> Inr True | Some e \<Rightarrow> Inl (Wrap ''creating resource'' e)))
         | Some obj \<Rightarrow>
             if res_DisableUpdates r then ([], Inr False)
             else
               (case buildPatch cd prev r obj of
                  Inl e \<Rightarrow> ([], Inl e)
                | Inr (patch0, pt) \<Rightarrow>
                    (case (if pt \<noteq> JSONPatchType then mungePatch cd patch0 (u_ResourceVersion obj) else Inr patch0) of
                       Inl e \<Rightarrow> ([], Inl e)
                     | Inr patch \<Rightarrow>
                         if patch = [] then ([], Inr False)
                         else ([UpPatch obj pt patch],
                               case up_write up (UpPatch obj pt patch) of
                                 None \<Rightarrow> Inr True | Some e \<Rightarrow> Inl (Wrap ''applying patch'' e))))))"

definition patchResourceState :: "bool \<Rightarrow> time option \<Rightarrow> StatusPatchFn" where
  "patchResourceState deleted ready rs =
     (if rs_Deleted rs = deleted \<and> rs_Reconciled rs \<and> deref_time (rs_Ready rs) = deref_time ready then None
      else Some \<lparr>rs_Reconciled = True, rs_Ready = ready, rs_Deleted = deleted\<rparr>)"

definition str_contains :: "string \<Rightarrow> string \<Rightarrow> bool" where
  "str_contains s pat = list_ex (\<lambda>i. take (length pat) (drop i s) = pat) [0 ..< Suc (length s)]"

fun isErrMissingNS :: "api_err \<Rightarrow> bool" where
  "isErrMissingNS (OtherErr s) = str_contains s ''an empty namespace may not be set''"
| "isErrMissingNS e = False"

section \<open>The handler\<close>

record ra_client =
  ra_get_comp :: "NamespacedName \<Rightarrow> api_err + Composition"
  ra_get_slice :: "NamespacedName \<Rightarrow> api_err + ResourceSlice"
  ra_up :: upstream
  ra_now :: time
  ra_jitter :: "duration \<Rightarrow> duration"
  ra_parseTime :: "string \<Rightarrow> time option"
  ra_sort :: "Status list \<Rightarrow> Status list"
  ra_pollInterval :: duration

record ra_out =
  o_upstream :: "up_request list"
  o_status :: "(ManifestRef \<times> bool \<times> time option) option"
  o_seen :: lastSeenMeta
  o_result :: "error + ctrl_Result"

definition stop :: "lastSeenMeta \<Rightarrow> error + ctrl_Result \<Rightarrow> ra_out" where
  "stop seen res = \<lparr>o_upstream = [], o_status = None, o_seen = seen, o_result = res\<rparr>"

text \<open>\<open>Some\<close> is an early return of the handler: the defining CRD is missing, not ready or too fresh.\<close>

definition crd_gate :: "ra_client \<Rightarrow> Res option \<Rightarrow> (error + ctrl_Result) option" where
  "crd_gate cl crd =
     (case crd of
        None \<Rightarrow> None
      | Some crdRes \<Rightarrow>
          (case ra_get_slice cl (mr_Slice (res_ManifestRef crdRes)) of
             Inl e \<Rightarrow> Some (Inl (Wrap ''getting resource slice'' e))
           | Inr slice \<Rightarrow>
               (case FindStatus crdRes slice of
                  None \<Rightarrow> Some (Inr done_result)
                | Some st \<Rightarrow>
                    (case rs_Ready st of
                       None \<Rightarrow> Some (Inr done_result)
                     | Some t \<Rightarrow>
                         let delta = second - (ra_now cl - t) in
                         if delta > 0 then Some (Inr (requeue_after delta)) else None))))"

fun dependency_gate :: "ra_client \<Rightarrow> Res list \<Rightarrow> (error + ctrl_Result) option" where
  "dependency_gate cl [] = None"
| "dependency_gate cl (dep # deps) =
     (case ra_get_slice cl (mr_Slice (res_ManifestRef dep)) of
        Inl e \<Rightarrow> Some (Inl (Wrap ''getting resource slice'' e))
      | Inr slice \<Rightarrow>
          (case FindStatus dep slice of
             None \<Rightarrow> Some (Inr done_result)
           | Some st \<Rightarrow> if rs_Ready st = None then Some (Inr done_result) else dependency_gate cl deps))"

definition finish ::
  "'a ra_codec_scheme \<Rightarrow> ra_client \<Rightarrow> lastSeenMeta \<Rightarrow> Res \<Rightarrow> Unstructured option \<Rightarrow> time option \<Rightarrow> up_request list \<Rightarrow> ra_out" where
  "finish cd cl seen r cur ready sent =
     \<lparr>o_upstream = sent,
      o_status = Some (res_ManifestRef r,
        (case cur of None \<Rightarrow> True | Some obj \<Rightarrow> u_DeletionTimestamp obj \<noteq> None), ready),
      o_seen = (case cur of
          None \<Rightarrow> seen
        | Some obj \<Rightarrow> if u_ResourceVersion obj \<noteq> [] then ObserveVersion (u_ResourceVersion obj) seen else seen),
      o_result =
        (if ready = None then Inr (requeue_after (ra_jitter cl (ra_pollInterval cl)))
         else (case (Res_Deleted cd r, res_ReconcileInterval r) of
                 (False, Some iv) \<Rightarrow> Inr (requeue_after (ra_jitter cl iv))
               | _ \<Rightarrow> Inr done_result))\<rparr>"

definition ready_time :: "ra_client \<Rightarrow> Res \<Rightarrow> Unstructured option \<Rightarrow> ResourceState option \<Rightarrow> time option" where
  "ready_time cl r cur status =
     (let eval = map_option ReadyTime (EvalOptionally (ra_sort cl) (ra_parseTime cl) (ra_now cl) (res_ReadinessChecks r) cur)
      in case status of
           None \<Rightarrow> eval
         | Some st \<Rightarrow> (case rs_Ready st of None \<Rightarrow> eval | Some t \<Rightarrow> Some t))"

definition sync_resource ::
  "'a ra_codec_scheme \<Rightarrow> ra_client \<Rightarrow> (int \<Rightarrow> Res list) \<Rightarrow> Composition \<Rightarrow> Res option \<Rightarrow> Res \<Rightarrow> lastSeenMeta \<Rightarrow> ra_out" where
  "sync_resource cd cl deps co prev r seen =
     (case getCurrent cd (ra_up cl) seen r of
        ((cur, hasChanged), err) \<Rightarrow>
          if (case err of None \<Rightarrow> False | Some e \<Rightarrow> e \<noteq> NotFound \<and> \<not> isErrMissingNS e)
          then stop seen (Inl (Wrap ''getting current state'' (the err)))
          else
            (case ra_get_slice cl (mr_Slice (res_ManifestRef r)) of
               Inl e \<Rightarrow> stop seen (Inl (Wrap ''getting resource slice'' e))
             | Inr slice \<Rightarrow>
                 let status = FindStatus r slice;
                     ready = ready_time cl r cur status;
                     gated = (case status of None \<Rightarrow> True | Some st \<Rightarrow> \<not> rs_Reconciled st) \<and> \<not> Res_Deleted cd r
                 in (case (if gated then dependency_gate cl (deps (res_ReadinessGroup r)) else None) of
                       Some res \<Rightarrow> stop seen res
                     | None \<Rightarrow>
                         if \<not> hasChanged then finish cd cl seen r cur ready []
                         else
                           (case reconcileResource cd (ra_up cl) co prev r cur of
                              (sent, Inl e) \<Rightarrow>
                                \<lparr>o_upstream = sent, o_status = None, o_seen = ObserveVersion [] seen, o_result = Inl e\<rparr>
                            | (sent, Inr True) \<Rightarrow>
                                \<lparr>o_upstream = sent, o_status = None, o_seen = ObserveVersion [] seen,
                                 o_result = Inr requeue_result\<rparr>
                            | (sent, Inr False) \<Rightarrow> finish cd cl (ObserveVersion [] seen) r cur ready sent))))"

definition ra_Reconcile ::
  "'a ra_codec_scheme \<Rightarrow> tree_ops \<Rightarrow> ra_client \<Rightarrow> Cache \<Rightarrow> ReconRequest \<Rightarrow> lastSeenMeta \<Rightarrow> ra_out" where
  "ra_Reconcile cd ops cl c req seen =
     (case ra_get_comp cl (req_Composition req) of
        Inl e \<Rightarrow> stop seen (ignore_not_found (Wrap ''getting composition'' e))
      | Inr co \<Rightarrow>
          if (case current co of None \<Rightarrow> True | Some s \<Rightarrow> Failed s) then stop seen (Inr done_result)
          else
            let synRef = NewSynthesisRef co in
            (case Cache_Get c synRef (req_Resource req) of
               None \<Rightarrow> stop seen (Inr done_result)
             | Some r \<Rightarrow>
                 let prev = (case previous co of
                               None \<Rightarrow> None
                             | Some p \<Rightarrow> Cache_Get c (synRef\<lparr>sref_UUID := UUID p\<rparr>) (req_Resource req))
                 in (case crd_gate cl (GetDefiningCRD c synRef (gk_of r)) of
                       Some res \<Rightarrow> stop seen res
                     | None \<Rightarrow>
                         sync_resource cd cl (\<lambda>g. RangeByReadinessGroup ops c synRef g False) co prev r seen)))"

section \<open>Lemmas\<close>

lemma crd_gate_None:
  assumes "crd_gate cl (Some crd) = None"
  shows "\<exists>slice st t. ra_get_slice cl (mr_Slice (res_ManifestRef crd)) = Inr slice \<and> FindStatus crd slice = Some st \<and>
     rs_Ready st = Some t \<and> t + second \<le> ra_now cl"
  using assms by (auto simp: crd_gate_def Let_def split: sum.splits option.splits if_splits)

lemma stop_simps [simp]: "o_upstream (stop seen res) = []" "o_status (stop seen res) = None" "o_seen (stop seen res) = seen"
  "o_result (stop seen res) = res"
  by (simp_all add: stop_def)

lemma finish_simps [simp]: "o_upstream (finish cd cl seen r cur ready sent) = sent"
  by (simp add: finish_def)

definition is_ready :: "ra_client \<Rightarrow> Res \<Rightarrow> bool" where
  "is_ready cl r =
     (case ra_get_slice cl (mr_Slice (res_ManifestRef r)) of
        Inl e \<Rightarrow> False
      | Inr slice \<Rightarrow> (case FindStatus r slice of None \<Rightarrow> False | Some st \<Rightarrow> rs_Ready st \<noteq> None))"

definition is_reconciled :: "ra_client \<Rightarrow> Res \<Rightarrow> bool" where
  "is_reconciled cl r =
     (case ra_get_slice cl (mr_Slice (res_ManifestRef r)) of
        Inl e \<Rightarrow> False
      | Inr slice \<Rightarrow> (case FindStatus r slice of None \<Rightarrow> False | Some st \<Rightarrow> rs_Reconciled st))"

lemma dependency_gate_ready: "dependency_gate cl deps = None \<Longrightarrow> \<forall>dep \<in> set deps. is_ready cl dep"
proof (induction deps)
  case (Cons dep deps)
  then have "dependency_gate cl deps = None" "is_ready cl dep"
    by (auto simp: is_ready_def split: sum.splits option.splits if_splits)
  with Cons.IH show ?case by simp
qed simp

lemma sync_resource_sent:
  assumes "o_upstream (sync_resource cd cl deps co prev r seen) \<noteq> []"
  shows "\<exists>cur err. getCurrent cd (ra_up cl) seen r = ((cur, True), err) \<and>
     o_upstream (sync_resource cd cl deps co prev r seen) = fst (reconcileResource cd (ra_up cl) co prev r cur) \<and>
     (is_reconciled cl r \<or> Res_Deleted cd r \<or> (\<forall>dep \<in> set (deps (res_ReadinessGroup r)). is_ready cl dep))"
proof -
  obtain cur ch err where g: "getCurrent cd (ra_up cl) seen r = ((cur, ch), err)" by (metis prod.exhaust)
  from assms g show ?thesis
    by (auto simp: sync_resource_def Let_def is_reconciled_def dependency_gate_ready
        split: if_splits sum.splits option.splits prod.splits bool.splits)
qed

lemma ra_Reconcile_sent:
  assumes "o_upstream (ra_Reconcile cd ops cl c req seen) \<noteq> []"
  shows "\<exists>co r prev. ra_get_comp cl (req_Composition req) = Inr co \<and>
     Cache_Get c (NewSynthesisRef co) (req_Resource req) = Some r \<and>
     crd_gate cl (GetDefiningCRD c (NewSynthesisRef co) (gk_of r)) = None \<and>
     ra_Reconcile cd ops cl c req seen =
       sync_resource cd cl (\<lambda>g. RangeByReadinessGroup ops c (NewSynthesisRef co) g False) co prev r seen"
  using assms
  by (auto simp: ra_Reconcile_def Let_def split: if_splits sum.splits option.splits)


definition sample_ra_codec :: ra_codec where
  "sample_ra_codec = rcodec.extend sample_rcodec
     \<lparr>TypedJSON = (\<lambda>_ _. None), MarshalPatch = (\<lambda>_. None), CreateThreeWayJSONMergePatch = (\<lambda>_ n _. Some n),
      CreateThreeWayMergePatch = (\<lambda>_ _ _. None), UnmarshalFields = (\<lambda>p. Some [(''metadata'', p)]),
      MarshalFields = (\<lambda>_. Some ''{}''), SetMeta = (\<lambda>rv m. Some (AList.update ''metadata'' rv m)), DiscoveryGet = (\<lambda>_. Inr False)\<rparr>"

definition sample_ra_client :: "upstream \<Rightarrow> ra_client" where
  "sample_ra_client up =
     \<lparr>ra_get_comp = (\<lambda>_. Inr sample_comp), ra_get_slice = (\<lambda>_. Inr sample_slice), ra_up = up, ra_now = 100,
      ra_jitter = (\<lambda>d. d), ra_parseTime = (\<lambda>_. None), ra_sort = insertion_sort (\<lambda>a b. latest_first a < latest_first b),
      ra_pollInterval = 10\<rparr>"

definition empty_upstream :: upstream where
  "empty_upstream = \<lparr>up_meta = (\<lambda>_ _. Inl NotFound), up_get = (\<lambda>_ _. Inl NotFound), up_write = (\<lambda>_. None)\<rparr>"

definition one_cache :: Cache where
  "one_cache = NewCache\<lparr>c_resources := [syn_key sample_comp ''u1'' \<mapsto> no_resources\<lparr>ByRef := (\<lambda>_. Some (grouped_res 0))\<rparr>]\<rparr>"

definition sample_req :: ReconRequest where
  "sample_req = \<lparr>req_Resource = res_Ref (grouped_res 0), req_Composition = key_of sample_comp\<rparr>"

lemmas ra_eval = ra_Reconcile_def one_cache_def sample_req_def sample_ra_client_def sample_ra_codec_def rcodec.extend_def
  sample_rcodec_def codec.extend_def sample_codec_def NewSynthesisRef_def syn_key_def Cache_Get_def GetDefiningCRD_def
  no_resources_def NewCache_def crd_gate_def sync_resource_def getCurrent_def HasBeenSeen_def MatchesLastSeen_def
  Res_Deleted_def grouped_res_def RangeByReadinessGroup_def reconcileResource_def FindStatus_def sample_slice_def
  sample_comp_def sample_synthesis_def zero_Synthesis_def Failed_def Let_def


lemma reconcileResource_actions:
  assumes "reconcileResource cd up co prev r cur = (sent, res)"
  shows "length sent \<le> 1 \<and>
     (\<forall>q \<in> set sent.
        (case q of
           UpDelete obj \<Rightarrow> Res_Deleted cd r \<and> cur = Some obj \<and> u_DeletionTimestamp obj = None \<and> \<not> deletion_strategy_orphan co
         | UpCreate obj \<Rightarrow> \<not> Res_Deleted cd r \<and> cur = None \<and> res_Patch r = None \<and>
             UnmarshalJSON cd (manifest (res_Manifest r)) = Some obj
         | UpPatch obj pt p \<Rightarrow> \<not> Res_Deleted cd r \<and> cur = Some obj \<and> \<not> res_DisableUpdates r \<and> p \<noteq> [])) \<and>
     (res = Inr True \<longrightarrow> sent \<noteq> []) \<and>
     (res = Inr False \<longrightarrow> (\<forall>q \<in> set sent. up_write up q = Some NotFound))"
  using assms
  by (auto simp: reconcileResource_def split: if_splits option.splits sum.splits api_err.splits)

lemma sync_resource_status:
  assumes "o_status (sync_resource cd cl deps co prev r seen) \<noteq> None"
    and "getCurrent cd (ra_up cl) seen r = ((cur, ch), err)"
  shows "o_upstream (sync_resource cd cl deps co prev r seen) = [] \<or>
     reconcileResource cd (ra_up cl) co prev r cur = (o_upstream (sync_resource cd cl deps co prev r seen), Inr False)"
  using assms(1) unfolding sync_resource_def assms(2) Let_def
  by (auto split: if_split_asm sum.split_asm option.split_asm prod.split_asm bool.split_asm)

text \<open>
  C35. Each pass sends at most one request downstream, and the right one: a delete for a resource
  that should be gone, exists and is not orphaned, a create for one that is missing (never for a
  patch), and a non-empty patch for one that exists and allows updates. A pass that changed the
  resource reports no status, so a stored status always describes a resource that was found in sync.
\<close>
theorem reconcile_actions:
  "length (o_upstream (sync_resource cd cl deps co prev r seen)) \<le> 1 \<and>
   list_all (\<lambda>q. \<exists>cur err. getCurrent cd (ra_up cl) seen r = ((cur, True), err) \<and>
      (case q of
         UpDelete obj \<Rightarrow> Res_Deleted cd r \<and> cur = Some obj \<and> u_DeletionTimestamp obj = None \<and> \<not> deletion_strategy_orphan co
       | UpCreate obj \<Rightarrow> \<not> Res_Deleted cd r \<and> cur = None \<and> res_Patch r = None \<and>
           UnmarshalJSON cd (manifest (res_Manifest r)) = Some obj
       | UpPatch obj pt p \<Rightarrow> \<not> Res_Deleted cd r \<and> cur = Some obj \<and> \<not> res_DisableUpdates r \<and> p \<noteq> []))
     (o_upstream (sync_resource cd cl deps co prev r seen)) \<and>
   (o_status (sync_resource cd cl deps co prev r seen) = None \<or>
    list_all (\<lambda>q. up_write (ra_up cl) q = Some NotFound) (o_upstream (sync_resource cd cl deps co prev r seen)))"
    (is "?len \<and> ?act \<and> ?sync")
proof (cases "o_upstream (sync_resource cd cl deps co prev r seen) = []")
  case True
  then show ?thesis by simp
next
  case False
  from sync_resource_sent [OF False] obtain cur err where
    g: "getCurrent cd (ra_up cl) seen r = ((cur, True), err)"
      "o_upstream (sync_resource cd cl deps co prev r seen) = fst (reconcileResource cd (ra_up cl) co prev r cur)" by blast
  obtain sent res where rr: "reconcileResource cd (ra_up cl) co prev r cur = (sent, res)" by force
  note acts = reconcileResource_actions [OF rr]
  have sent: "o_upstream (sync_resource cd cl deps co prev r seen) = sent" using g(2) rr by simp
  have "?len" "?act" using acts g(1) unfolding sent list_all_iff by blast+
  moreover have "?sync"
  proof (cases "o_status (sync_resource cd cl deps co prev r seen)")
    case (Some st)
    then have "o_status (sync_resource cd cl deps co prev r seen) \<noteq> None" by simp
    from sync_resource_status [OF this g(1)] False rr have "res = Inr False" by simp
    with acts show ?thesis unfolding sent by (simp add: list_all_iff)
  qed simp
  ultimately show ?thesis by blast
qed

section \<open>Drift that is not corrected\<close>

text \<open>
  C39. A resource that was deleted by another client is not created again: once its version has been
  seen, a missing object ends in the early return of \<open>getCurrent\<close> that reports no change, so the
  handler sends nothing, keeps what it remembers, and only stores that the resource is deleted; the
  same holds for every later pass.
\<close>
theorem deleted_resource_not_recreated:
  assumes "HasBeenSeen seen" "\<not> Res_Deleted cd r" "up_meta (ra_up cl) (res_GVK r) (obj_key r) = Inl NotFound"
  shows "o_upstream (sync_resource cd cl deps co prev r seen) = [] \<and>
     o_seen (sync_resource cd cl deps co prev r seen) = seen"
  using assms
  by (auto simp: sync_resource_def getCurrent_def Let_def finish_def split: sum.splits option.splits)

theorem deleted_resource_not_recreated_witness:
  "o_upstream (sync_resource sample_ra_codec (sample_ra_client empty_upstream) (\<lambda>_. []) sample_comp None (grouped_res 0)
      \<lparr>resourceVersion = ''7''\<rparr>) = []"
proof -
  have h: "HasBeenSeen \<lparr>resourceVersion = ''7''\<rparr>" "\<not> Res_Deleted sample_ra_codec (grouped_res 0)"
    "up_meta (ra_up (sample_ra_client empty_upstream)) (res_GVK (grouped_res 0)) (obj_key (grouped_res 0)) = Inl NotFound"
    by (simp_all add: HasBeenSeen_def Res_Deleted_def grouped_res_def sample_ra_client_def empty_upstream_def)
  from deleted_resource_not_recreated [OF h] show ?thesis by blast
qed

text \<open>
  A live resource is recorded as deleted: when its version is the one last seen, \<open>getCurrent\<close>
  returns no object, which the handler takes for a missing one, so the status it stores for an
  existing and unchanged resource says that it has been deleted.
\<close>
theorem unchanged_resource_marked_deleted:
  assumes "HasBeenSeen seen" "\<not> Res_Deleted cd r" "up_meta (ra_up cl) (res_GVK r) (obj_key r) = Inr (resourceVersion seen)"
    and "ra_get_slice cl (mr_Slice (res_ManifestRef r)) = Inr slice" "FindStatus r slice = Some st" "rs_Reconciled st"
  shows "\<exists>ready. o_status (sync_resource cd cl deps co prev r seen) = Some (res_ManifestRef r, True, ready)"
  using assms
  by (auto simp: sync_resource_def getCurrent_def MatchesLastSeen_def Let_def finish_def)

theorem unchanged_resource_marked_deleted_witness:
  "\<exists>ready. o_status (sync_resource sample_ra_codec
      ((sample_ra_client (empty_upstream\<lparr>up_meta := (\<lambda>_ _. Inr ''7'')\<rparr>))\<lparr>ra_get_slice := (\<lambda>_. Inr (sample_slice\<lparr>slice_Status :=
          Some [\<lparr>rs_Reconciled = True, rs_Ready = Some 1, rs_Deleted = False\<rparr>]\<rparr>))\<rparr>)
      (\<lambda>_. []) sample_comp None (grouped_res 0) \<lparr>resourceVersion = ''7''\<rparr>) =
     Some (res_ManifestRef (grouped_res 0), True, ready)"
  by (rule unchanged_resource_marked_deleted [where slice = "sample_slice\<lparr>slice_Status :=
          Some [\<lparr>rs_Reconciled = True, rs_Ready = Some 1, rs_Deleted = False\<rparr>]\<rparr>"
        and st = "\<lparr>rs_Reconciled = True, rs_Ready = Some 1, rs_Deleted = False\<rparr>"])
    (simp_all add: HasBeenSeen_def Res_Deleted_def grouped_res_def sample_ra_client_def empty_upstream_def FindStatus_def)

text \<open>
  A patch that touches only metadata, such as labels or annotations, is dropped: with a setter
  of the metadata that adds no other top-level field, what remains of the patch has one field, which
  \<open>mungePatch\<close> takes for the resource version alone.
\<close>
theorem metadata_patch_dropped:
  assumes "UnmarshalFields cd patch = Some fs" "fst ` set fs \<subseteq> {''metadata'', ''status''}"
    and "SetMeta cd rv (AList.delete ''status'' fs) = Some m"
    and "fst ` set m \<subseteq> insert ''metadata'' (fst ` set (AList.delete ''status'' fs))"
  shows "mungePatch cd patch rv = Inr []"
proof -
  have top: "fst ` set (AList.delete ''status'' fs) \<subseteq> {''metadata''}"
    using assms(2) by (auto simp: AList.delete_eq)
  have "fst ` set m \<subseteq> insert ''metadata'' {''metadata''}"
    using assms(4) insert_mono [OF top, of "''metadata''"] by (rule order_trans)
  then have "set (map fst m) \<subseteq> {''metadata''}" by (simp only: set_map insert_absorb2)
  then have "card (set (map fst m)) \<le> card {''metadata''}" by (intro card_mono) simp_all
  then have "length (remdups (map fst m)) \<le> 1" by (simp add: length_remdups_card_conv)
  with assms(1,3) show ?thesis by (simp add: mungePatch_def)
qed

theorem metadata_patch_dropped_witness:
  "mungePatch sample_ra_codec ''labels'' ''7'' = Inr []"
  by (rule metadata_patch_dropped [where fs = "[(''metadata'', ''labels'')]" and m = "[(''metadata'', ''7'')]"])
    (simp_all add: sample_ra_codec_def rcodec.extend_def)

end
