(* ===== verification/Discovery.thy ===== *)
theory Discovery
  imports Slicing Go_Strconv
begin

text \<open>
  The discovery cache (\<open>internal/discovery/cache.go\<close>, \<open>kubectl.go\<close>): which types support strategic
  merge patches, read from the API server's OpenAPI document. The document, its models and the YAML
  decoder come from other packages: the document is a record of what the code reads of it, the
  decoder and the answers of the API server are arguments. \<open>fetches\<close> counts the requests for the
  document. The version is scanned as \<open>fmt.Sscanf\<close> does for ASCII text.
\<close>

section \<open>The OpenAPI document\<close>

datatype yval = YStr string | YList "yval list" | YMap "(string \<times> yval) list" | YOther

record api_path =
  vendor_extensions :: "(string \<times> string) list"
  consumes :: "string list"

record schema =
  schema_id :: string
  extensions :: "(string \<times> yval) list"

record openapi_doc =
  info_version :: "string option"
  doc_paths :: "api_path list"
  doc_models :: "api_err + schema list"

type_synonym yaml_decoder = "string \<Rightarrow> (string \<times> string) list option"

definition gvk_extension :: string where
  "gvk_extension = ''x-kubernetes-group-version-kind''"

definition strategic_merge :: string where
  "strategic_merge = ''application/strategic-merge-patch+json''"

definition yaml_gvk :: "(string \<times> string) list \<Rightarrow> GroupVersionKind" where
  "yaml_gvk value =
     \<lparr>gvk_Group = gomap_get (Some value) ''group'', gvk_Version = gomap_get (Some value) ''version'',
      gvk_Kind = gomap_get (Some value) ''kind''\<rparr>"

definition path_supported :: "yaml_decoder \<Rightarrow> api_path \<Rightarrow> GroupVersionKind list" where
  "path_supported yaml path =
     List.map_filter (\<lambda>(name, y).
       if y = [] \<or> name \<noteq> gvk_extension then None
       else (case yaml y of
               None \<Rightarrow> None
             | Some value \<Rightarrow> if strategic_merge \<in> set (consumes path) then Some (yaml_gvk value) else None))
       (vendor_extensions path)"

definition allSupported :: "yaml_decoder \<Rightarrow> openapi_doc \<Rightarrow> GroupVersionKind list" where
  "allSupported yaml doc = concat (map (path_supported yaml) (doc_paths doc))"

definition parse_gvk :: "yval \<Rightarrow> GroupVersionKind option" where
  "parse_gvk y =
     (case y of
        YMap m \<Rightarrow>
          (case (map_of m ''group'', map_of m ''version'', map_of m ''kind'') of
             (Some (YStr g), Some (YStr v), Some (YStr k)) \<Rightarrow>
               Some \<lparr>gvk_Group = g, gvk_Version = v, gvk_Kind = k\<rparr>
           | _ \<Rightarrow> None)
      | _ \<Rightarrow> None)"

definition parseGroupVersionKind :: "schema \<Rightarrow> GroupVersionKind list" where
  "parseGroupVersionKind s =
     (case map_of (extensions s) gvk_extension of
        Some (YList ys) \<Rightarrow> List.map_filter parse_gvk ys
      | _ \<Rightarrow> [])"

type_synonym schema_map = "GroupVersionKind \<rightharpoonup> schema option"

definition put_model :: "GroupVersionKind list \<Rightarrow> schema \<Rightarrow> schema_map \<Rightarrow> schema_map" where
  "put_model supported model m0 =
     fold (\<lambda>gvk m. if gvk_Kind gvk \<noteq> []
                   then m(gvk \<mapsto> if gvk \<in> set supported then Some model else None) else m)
       (parseGroupVersionKind model) m0"

definition buildCurrentSchemaMap :: "yaml_decoder \<Rightarrow> openapi_doc \<Rightarrow> api_err + schema_map" where
  "buildCurrentSchemaMap yaml doc =
     (case doc_models doc of
        Inl e \<Rightarrow> Inl e
      | Inr models \<Rightarrow> Inr (fold (put_model (allSupported yaml doc)) models Map.empty))"

section \<open>The API server's version\<close>

definition is_digit :: "char \<Rightarrow> bool" where
  "is_digit c = (48 \<le> (of_char c :: nat) \<and> (of_char c :: nat) \<le> 57)"

definition scan_space :: "char \<Rightarrow> bool" where
  "scan_space c = ((of_char c :: nat) \<in> {9, 11, 12, 13, 32})"

text \<open>\<open>%d\<close>: spaces, a sign, digits; the number has to fit 64 bits.\<close>

definition scan_int :: "string \<Rightarrow> (int \<times> string) option" where
  "scan_int s =
     (let s1 = dropWhile scan_space s;
          sgn = takeWhile (\<lambda>c. c = CHR ''+'' \<or> c = CHR ''-'') (take 1 s1);
          s2 = drop (length sgn) s1;
          ds = takeWhile is_digit s2
      in if ds = [] then None
         else (case ParseInt (sgn @ ds) of
                 (i, None) \<Rightarrow> Some (i, drop (length ds) s2)
               | _ \<Rightarrow> None))"

definition scan_char :: "char \<Rightarrow> string \<Rightarrow> string option" where
  "scan_char c s = (case s of [] \<Rightarrow> None | x # xs \<Rightarrow> if x = c then Some xs else None)"

definition scan_version :: "string \<Rightarrow> (int \<times> int \<times> int) option" where
  "scan_version s =
     Option.bind (scan_char (CHR ''v'') s) (\<lambda>s1.
     Option.bind (scan_int s1) (\<lambda>(major, s2).
     Option.bind (scan_char (CHR ''.'') s2) (\<lambda>s3.
     Option.bind (scan_int s3) (\<lambda>(minor, s4).
     Option.bind (scan_char (CHR ''.'') s4) (\<lambda>s5.
     Option.bind (scan_int s5) (\<lambda>(patch, _). Some (major, minor, patch)))))))"

definition evalVersion :: "string \<Rightarrow> bool" where
  "evalVersion v =
     (case scan_version v of None \<Rightarrow> True | Some (major, minor, patch) \<Rightarrow> major = 1 \<and> minor \<ge> 15)"

section \<open>The cache\<close>

record disc_cache =
  fillWhenNotFound :: bool
  lastFill :: time
  disc_current :: "schema_map option"
  fetches :: nat

definition new_disc_cache :: disc_cache where
  "new_disc_cache = \<lparr>fillWhenNotFound = False, lastFill = 0, disc_current = None, fetches = 0\<rparr>"

record disc_client =
  disc_yaml :: yaml_decoder
  OpenAPISchema :: "nat \<Rightarrow> api_err + openapi_doc"

definition fillUnlocked :: "disc_client \<Rightarrow> time \<Rightarrow> disc_cache \<Rightarrow> disc_cache \<times> api_err option" where
  "fillUnlocked cl t c =
     (let c1 = c\<lparr>fetches := Suc (fetches c)\<rparr> in
      case OpenAPISchema cl (fetches c) of
        Inl e \<Rightarrow> (c1, Some e)
      | Inr doc \<Rightarrow>
          let c2 = c1\<lparr>fillWhenNotFound := (case info_version doc of None \<Rightarrow> True | Some v \<Rightarrow> evalVersion v),
                      lastFill := t\<rparr>
          in (case buildCurrentSchemaMap (disc_yaml cl) doc of
                Inl e \<Rightarrow> (c2\<lparr>disc_current := None\<rparr>, Some e)
              | Inr m \<Rightarrow> (c2\<lparr>disc_current := Some m\<rparr>, None)))"

definition needs_fill :: "time \<Rightarrow> disc_cache \<Rightarrow> bool" where
  "needs_fill t c = (disc_current c = None \<or> t - lastFill c > 24 * 3600 * second)"

text \<open>The loop of \<open>Get\<close>, with the attempts that are left; the code starts with two.\<close>

fun get_loop :: "disc_client \<Rightarrow> time \<Rightarrow> GroupVersionKind \<Rightarrow> nat \<Rightarrow> disc_cache \<Rightarrow> disc_cache \<times> (api_err + schema option)" where
  "get_loop cl t gvk 0 c = (c, Inr None)"
| "get_loop cl t gvk (Suc n) c =
     (case (if needs_fill t c then fillUnlocked cl t c else (c, None)) of
        (c', Some e) \<Rightarrow> (c', Inl e)
      | (c', None) \<Rightarrow>
          (case Option.bind (disc_current c') (\<lambda>m. m gvk) of
             None \<Rightarrow> if fillWhenNotFound c' then get_loop cl t gvk n (c'\<lparr>disc_current := None\<rparr>)
                     else (c', Inr None)
           | Some model \<Rightarrow> (c', Inr model)))"

definition disc_Get :: "disc_client \<Rightarrow> time \<Rightarrow> GroupVersionKind \<Rightarrow> disc_cache \<Rightarrow> disc_cache \<times> (api_err + schema option)" where
  "disc_Get cl t gvk c = get_loop cl t gvk 2 c"

section \<open>Lemmas\<close>

definition declares :: "schema \<Rightarrow> GroupVersionKind \<Rightarrow> bool" where
  "declares s gvk \<longleftrightarrow> gvk \<in> set (parseGroupVersionKind s) \<and> gvk_Kind gvk \<noteq> []"

lemma put_model_apply:
  "put_model supported model m0 gvk =
     (if declares model gvk then Some (if gvk \<in> set supported then Some model else None) else m0 gvk)"
proof -
  have "fold (\<lambda>gvk m. if gvk_Kind gvk \<noteq> [] then m(gvk \<mapsto> if gvk \<in> set supported then Some model else None) else m) gs m0 gvk =
     (if gvk \<in> set gs \<and> gvk_Kind gvk \<noteq> [] then Some (if gvk \<in> set supported then Some model else None) else m0 gvk)" for gs
    by (induction gs arbitrary: m0) auto
  then show ?thesis by (simp add: put_model_def declares_def)
qed

lemma fold_put_model:
  "fold (put_model supported) models m0 gvk =
     (case find (\<lambda>s. declares s gvk) (rev models) of
        Some model \<Rightarrow> Some (if gvk \<in> set supported then Some model else None)
      | None \<Rightarrow> m0 gvk)"
  by (induction models rule: rev_induct) (auto simp: put_model_apply)

text \<open>
  The schema map has an entry for exactly the types that some model declares with a non-empty kind;
  the entry is the last such model if a patch operation of the type consumes strategic merge patches,
  and nil otherwise.
\<close>
theorem schema_map_correct:
  assumes "buildCurrentSchemaMap yaml doc = Inr m"
  shows "\<exists>models. doc_models doc = Inr models \<and>
     m gvk = map_option (\<lambda>model. if gvk \<in> set (allSupported yaml doc) then Some model else None)
       (find (\<lambda>s. declares s gvk) (rev models))"
  using assms by (auto simp: buildCurrentSchemaMap_def fold_put_model split: sum.splits option.splits)

lemma schema_map_entry:
  assumes "buildCurrentSchemaMap yaml doc = Inr m" and "m gvk = Some (Some model)"
  shows "\<exists>models. doc_models doc = Inr models \<and> model \<in> set models \<and> declares model gvk \<and>
     gvk \<in> set (allSupported yaml doc)"
proof -
  from assms obtain models where models: "doc_models doc = Inr models"
    and f: "find (\<lambda>s. declares s gvk) (rev models) = Some model" and s: "gvk \<in> set (allSupported yaml doc)"
    by (auto simp: buildCurrentSchemaMap_def fold_put_model split: sum.splits option.splits if_splits)
  from f have "model \<in> set models \<and> declares model gvk"
    by (auto simp: find_Some_iff) (metis nth_mem set_rev length_rev)
  with models s show ?thesis by blast
qed

subsection \<open>The cache\<close>

definition cached_from :: "disc_client \<Rightarrow> disc_cache \<Rightarrow> bool" where
  "cached_from cl c \<longleftrightarrow>
     (\<forall>m. disc_current c = Some m \<longrightarrow>
        (\<exists>k doc. k < fetches c \<and> OpenAPISchema cl k = Inr doc \<and> buildCurrentSchemaMap (disc_yaml cl) doc = Inr m))"

lemma fillUnlocked_spec:
  assumes "fillUnlocked cl t c = (c', r)" and "cached_from cl c"
  shows "cached_from cl c'" "fetches c' = Suc (fetches c)" "r = None \<Longrightarrow> disc_current c' \<noteq> None"
  using assms
  by (auto simp: fillUnlocked_def cached_from_def Let_def split: sum.splits)
    (meson less_SucI)+

lemma get_loop_spec:
  assumes "get_loop cl t gvk n c = (c', r)" and "cached_from cl c"
  shows "cached_from cl c' \<and> fetches c' \<le> fetches c + n \<and>
     (\<forall>model. r = Inr (Some model) \<longrightarrow> (\<exists>m. disc_current c' = Some m \<and> m gvk = Some (Some model)))"
  using assms
proof (induction n arbitrary: c)
  case (Suc n)
  obtain d e where d: "(if needs_fill t c then fillUnlocked cl t c else (c, None)) = (d, e)" by fastforce
  then have inv: "cached_from cl d" and cnt: "fetches d \<le> Suc (fetches c)"
    using Suc.prems(2) fillUnlocked_spec [of cl t c d e] by (auto split: if_splits)
  have inv': "cached_from cl (d\<lparr>disc_current := None\<rparr>)" by (simp add: cached_from_def)
  show ?case
  proof (cases "e = None \<and> Option.bind (disc_current d) (\<lambda>m. m gvk) = None \<and> fillWhenNotFound d")
    case True
    with Suc.prems(1) d have "get_loop cl t gvk n (d\<lparr>disc_current := None\<rparr>) = (c', r)" by simp
    from Suc.IH [OF this inv'] cnt show ?thesis by simp
  next
    case False
    with Suc.prems(1) d inv cnt show ?thesis
      by (auto split: option.splits if_splits bind_splits)
  qed
qed auto

definition disc_run :: "disc_client \<Rightarrow> (time \<times> GroupVersionKind) list \<Rightarrow> disc_cache" where
  "disc_run cl reqs = fold (\<lambda>(t, gvk) c. fst (disc_Get cl t gvk c)) reqs new_disc_cache"

lemma disc_run_inv: "cached_from cl (disc_run cl reqs) \<and> fetches (disc_run cl reqs) \<le> 2 * length reqs"
proof (induction reqs rule: rev_induct)
  case Nil
  then show ?case by (simp add: disc_run_def new_disc_cache_def cached_from_def)
next
  case (snoc x reqs)
  obtain t gvk where x: "x = (t, gvk)" by fastforce
  obtain c' r where g: "disc_Get cl t gvk (disc_run cl reqs) = (c', r)" by fastforce
  then have "disc_run cl (reqs @ [x]) = c'" by (simp add: disc_run_def x)
  with get_loop_spec [OF g [unfolded disc_Get_def]] snoc show ?case by simp
qed

lemma disc_get_model:
  assumes "disc_Get cl t gvk (disc_run cl reqs) = (c', Inr (Some model))"
  shows "\<exists>k doc models. k < fetches c' \<and> OpenAPISchema cl k = Inr doc \<and> doc_models doc = Inr models \<and>
     model \<in> set models \<and> declares model gvk \<and> gvk \<in> set (allSupported (disc_yaml cl) doc) \<and>
     fetches c' \<le> 2 * length reqs + 2"
proof -
  note spec = get_loop_spec [OF assms [unfolded disc_Get_def] conjunct1 [OF disc_run_inv]]
  then obtain m where "disc_current c' = Some m" and m: "m gvk = Some (Some model)" by auto
  with spec obtain k doc where k: "k < fetches c'" "OpenAPISchema cl k = Inr doc"
    and b: "buildCurrentSchemaMap (disc_yaml cl) doc = Inr m" by (auto simp: cached_from_def)
  from schema_map_entry [OF b m] k spec conjunct2 [OF disc_run_inv, of cl reqs] show ?thesis by auto
qed

text \<open>
  After any history of lookups, a model that the cache answers comes from a document that the API
  server served before: it is a model of that document that declares the type, and the type supports
  strategic merge patches there. A history of n lookups reads the document at most 2 n times.
\<close>
theorem discovery_get_sound:
  assumes "disc_Get cl t gvk (disc_run cl reqs) = (c', Inr (Some model))"
  shows "\<exists>k doc models. k < fetches c' \<and> OpenAPISchema cl k = Inr doc \<and> doc_models doc = Inr models \<and>
     model \<in> set models \<and> declares model gvk \<and> gvk \<in> set (allSupported (disc_yaml cl) doc) \<and>
     fetches c' \<le> 2 * length reqs + 2"
  by (rule disc_get_model [OF assms])

definition sample_gvk :: GroupVersionKind where
  "sample_gvk = \<lparr>gvk_Group = ''apps'', gvk_Version = ''v1'', gvk_Kind = ''Deployment''\<rparr>"

definition sample_schema :: schema where
  "sample_schema =
     \<lparr>schema_id = ''deployment'',
      extensions = [(gvk_extension, YList [YOther, YMap
        [(''group'', YStr ''apps''), (''version'', YStr ''v1''), (''kind'', YStr ''Deployment'')]])]\<rparr>"

definition sample_doc :: openapi_doc where
  "sample_doc =
     \<lparr>info_version = Some ''v1.27.3'',
      doc_paths = [\<lparr>vendor_extensions = [(''x-other'', ''y''), (gvk_extension, ''y'')], consumes = [strategic_merge]\<rparr>],
      doc_models = Inr [sample_schema]\<rparr>"

definition sample_disc :: disc_client where
  "sample_disc =
     \<lparr>disc_yaml = (\<lambda>_. Some [(''group'', ''apps''), (''version'', ''v1''), (''kind'', ''Deployment'')]),
      OpenAPISchema = (\<lambda>_. Inr sample_doc)\<rparr>"

lemma sample_gvks:
  "parseGroupVersionKind sample_schema = [sample_gvk]"
  "allSupported (disc_yaml sample_disc) sample_doc = [sample_gvk]"
  by (simp_all add: parseGroupVersionKind_def parse_gvk_def allSupported_def path_supported_def yaml_gvk_def
      gomap_get_def sample_schema_def sample_doc_def sample_disc_def sample_gvk_def gvk_extension_def
      strategic_merge_def List.map_filter_def)

lemma sample_build:
  "buildCurrentSchemaMap (disc_yaml sample_disc) sample_doc = Inr [sample_gvk \<mapsto> Some sample_schema]"
  using sample_gvks by (simp add: buildCurrentSchemaMap_def put_model_def sample_doc_def sample_gvk_def)

theorem schema_map_correct_witness:
  "buildCurrentSchemaMap (disc_yaml sample_disc) sample_doc = Inr [sample_gvk \<mapsto> Some sample_schema] \<and>
   find (\<lambda>s. declares s sample_gvk) [sample_schema] = Some sample_schema"
  using schema_map_correct [OF sample_build, of sample_gvk] sample_build
  by (auto simp: sample_doc_def split: if_splits)

lemma sample_get:
  "snd (disc_Get sample_disc 5 sample_gvk (disc_run sample_disc [])) = Inr (Some sample_schema)"
  using sample_build
  by (simp add: disc_Get_def numeral_2_eq_2 disc_run_def new_disc_cache_def needs_fill_def fillUnlocked_def
      sample_disc_def)

theorem discovery_get_sound_witness:
  "declares sample_schema sample_gvk \<and>
   (\<exists>k doc. OpenAPISchema sample_disc k = Inr doc \<and> sample_gvk \<in> set (allSupported (disc_yaml sample_disc) doc))"
proof -
  obtain c' where "disc_Get sample_disc 5 sample_gvk (disc_run sample_disc []) = (c', Inr (Some sample_schema))"
    using sample_get by (metis prod.collapse)
  from discovery_get_sound [OF this] show ?thesis by blast
qed

text \<open>
  A lookup of a type that no document declares, on a server whose version makes the cache refill,
  reads the document twice and leaves the cache empty, so every such lookup pays for two reads.
\<close>

lemma unknown_type_fetches_twice:
  assumes "disc_current c = None"
    and "\<And>k. \<exists>doc m. OpenAPISchema cl k = Inr doc \<and> buildCurrentSchemaMap (disc_yaml cl) doc = Inr m \<and>
            m gvk = None \<and> (info_version doc = None \<or> (\<exists>v. info_version doc = Some v \<and> evalVersion v))"
  shows "\<exists>c'. disc_Get cl t gvk c = (c', Inr None) \<and> fetches c' = fetches c + 2 \<and> disc_current c' = None"
proof -
  have fill: "\<exists>d m. fillUnlocked cl t c = (d, None) \<and> disc_current d = Some m \<and> m gvk = None \<and>
      fillWhenNotFound d \<and> fetches d = Suc (fetches c)" for c
    using assms(2) [of "fetches c"] by (auto simp: fillUnlocked_def Let_def)
  obtain d m where d: "fillUnlocked cl t c = (d, None)" "disc_current d = Some m" "m gvk = None"
    "fillWhenNotFound d" "fetches d = Suc (fetches c)" using fill by blast
  obtain d2 m2 where d2: "fillUnlocked cl t (d\<lparr>disc_current := None\<rparr>) = (d2, None)" "disc_current d2 = Some m2"
    "m2 gvk = None" "fillWhenNotFound d2" "fetches d2 = Suc (fetches d)"
    using fill [of "d\<lparr>disc_current := None\<rparr>"] by auto
  from d d2 assms(1) show ?thesis
    by (simp add: disc_Get_def numeral_2_eq_2 needs_fill_def)
qed

subsection \<open>Versions\<close>

lemma is_digit_digit_char: "d < 10 \<Longrightarrow> is_digit (digit_char d)"
  by (simp add: is_digit_def of_char_digit)

lemma nat_digits_digits: "c \<in> set (nat_digits n) \<Longrightarrow> is_digit c"
proof (induction n rule: nat_digits.induct)
  case (1 n)
  then show ?case
    by (cases "n < 10") (subst (asm) nat_digits.simps, auto simp: is_digit_digit_char)+
qed

lemma digit_not_space: "is_digit c \<Longrightarrow> \<not> scan_space c \<and> c \<noteq> CHR ''+'' \<and> c \<noteq> CHR ''-''"
  by (auto simp: is_digit_def scan_space_def)

lemma scan_int_digits:
  assumes "n < int64_cutoff" and "rest = [] \<or> \<not> is_digit (hd rest)"
  shows "scan_int (nat_digits n @ rest) = Some (int n, rest)"
proof -
  obtain c cs where c: "nat_digits n = c # cs" by (cases "nat_digits n") auto
  with nat_digits_digits have ds: "is_digit c" "\<forall>x \<in> set cs. is_digit x" by (metis list.set_intros)+
  have "takeWhile is_digit rest = []" using assms(2) by (cases rest) auto
  with c ds have tk: "takeWhile is_digit (c # cs @ rest) = c # cs" by (simp add: takeWhile_append2)
  have "ParseInt (c # cs) = (int n, None)"
    using ParseInt_Itoa [of "int n"] assms(1) c by (simp add: Itoa_def)
  with c tk digit_not_space [OF ds(1)] show ?thesis by (simp add: scan_int_def Let_def)
qed

text \<open>
  On a printed version \<open>v<major>.<minor>.<patch>\<close>, whatever suffix follows, the cache refills on a miss
  exactly from version 1.15 on; a version that does not scan makes it refill as well.
\<close>
theorem evalVersion_printed:
  assumes "major < int64_cutoff" "minor < int64_cutoff" "patch < int64_cutoff"
    and "rest = [] \<or> \<not> is_digit (hd rest)"
  shows "evalVersion (''v'' @ nat_digits major @ ''.'' @ nat_digits minor @ ''.'' @ nat_digits patch @ rest) \<longleftrightarrow>
     major = 1 \<and> minor \<ge> 15"
proof -
  have dot: "\<not> is_digit (CHR ''.'')" by (simp add: is_digit_def)
  then show ?thesis
    using assms by (simp add: evalVersion_def scan_version_def scan_char_def scan_int_digits)
qed

theorem evalVersion_printed_witness:
  "evalVersion ''v1.27.3-gke'' \<and> \<not> evalVersion ''v1.9.0''"
proof -
  have n: "nat_digits 1 = ''1''" "nat_digits 27 = ''27''" "nat_digits 3 = ''3''" "nat_digits 9 = ''9''" "nat_digits 0 = ''0''"
    by (simp_all add: nat_digits.simps digit_char_def char_of_def bit_iff_odd)
  show ?thesis
    using evalVersion_printed [of 1 27 3 "''-gke''"] evalVersion_printed [of 1 9 0 "[]"]
    by (simp add: n n [unfolded One_nat_def] int64_cutoff_def is_digit_def)
qed

end
