(* ===== verification/Function_IO.thy ===== *)
theory Function_IO
  imports Executor Indices Go_Flag
begin

text \<open>
  The two ends of a synthesizer process: the executor's handler that starts it (\<open>NewExecHandler\<close> of
  \<open>internal/execution/handler.go\<close>), the Go library with which synthesizers read their inputs and write
  their outputs (\<open>pkg/function\<close>), and the Helm shim built on it (\<open>pkg/helmshim\<close>). JSON, the operating
  system's processes, Helm and the YAML decoder are arguments.
\<close>

section \<open>Starting the process\<close>

record exec_world =
  encode_list :: "Unstructured list \<Rightarrow> string + string"
  run_process :: "string list \<Rightarrow> duration option \<Rightarrow> string \<Rightarrow> string + string"
  decode_list :: "string \<Rightarrow> string + ResourceList"

definition NewExecHandler :: "exec_world \<Rightarrow> Synthesizer \<Rightarrow> Unstructured list \<Rightarrow> string + ResourceList" where
  "NewExecHandler w s rl =
     (case encode_list w rl of
        Inl e \<Rightarrow> Inl e
      | Inr stdin \<Rightarrow>
          let command = (if Command (synth_Spec s) = [] then [''synthesize''] else Command (synth_Spec s)) in
          (case run_process w command (ExecTimeout (synth_Spec s)) stdin of
             Inl e \<Rightarrow> Inl e
           | Inr stdout \<Rightarrow> decode_list w stdout))"

section \<open>Reading inputs\<close>

record InputReader =
  ir_resources :: ResourceList

definition NewInputReader :: "(string \<Rightarrow> string + ResourceList) \<Rightarrow> string \<Rightarrow> string + InputReader" where
  "NewInputReader dec r =
     (case dec r of
        Inl e \<Rightarrow> Inl (''decoding stdin as krm resource list: '' @ e)
      | Inr rl \<Rightarrow> Inr \<lparr>ir_resources = rl\<rparr>)"

definition NewDefaultInputReader :: "(string \<Rightarrow> string + ResourceList) \<Rightarrow> string \<Rightarrow> string + InputReader" where
  "NewDefaultInputReader dec stdin = NewInputReader dec stdin"

definition getKey :: "Unstructured \<Rightarrow> string" where
  "getKey obj = gomap_get (u_Annotations obj) ''eno.azure.io/input-key''"

definition ReadInput :: "(Unstructured \<Rightarrow> string + 't) \<Rightarrow> InputReader \<Rightarrow> string \<Rightarrow> string + 't" where
  "ReadInput conv rd key =
     (case find (\<lambda>i. getKey i = key) (rl_Items (ir_resources rd)) of
        None \<Rightarrow> Inl (''input was not found: '' @ key)
      | Some i \<Rightarrow> (case conv i of Inl e \<Rightarrow> Inl (''converting item to Input: '' @ e) | Inr t \<Rightarrow> Inr t))"

definition All :: "InputReader \<Rightarrow> string \<Rightarrow> Unstructured option" where
  "All rd = fold (\<lambda>o' m. m(getKey o' \<mapsto> o')) (rl_Items (ir_resources rd)) Map.empty"

section \<open>Writing outputs\<close>

text \<open>\<open>written\<close> is what the underlying writer received so far.\<close>

record OutputWriter =
  ow_outputs :: "Unstructured list"
  ow_written :: "string list"
  ow_committed :: bool
  ow_munge :: "(Unstructured \<Rightarrow> Unstructured) option"

definition NewOutputWriter :: "(Unstructured \<Rightarrow> Unstructured) option \<Rightarrow> OutputWriter" where
  "NewOutputWriter munge = \<lparr>ow_outputs = [], ow_written = [], ow_committed = False, ow_munge = munge\<rparr>"

definition NewDefaultOutputWriter :: OutputWriter where
  "NewDefaultOutputWriter = NewOutputWriter None"

definition munged :: "OutputWriter \<Rightarrow> Unstructured \<Rightarrow> Unstructured" where
  "munged w u = (case ow_munge w of None \<Rightarrow> u | Some f \<Rightarrow> f u)"

text \<open>A nil object is \<open>None\<close>; on an error the objects before it have been added.\<close>

fun add_outs :: "('t \<Rightarrow> string + Unstructured) \<Rightarrow> 't option list \<Rightarrow> OutputWriter \<Rightarrow> OutputWriter \<times> string option" where
  "add_outs conv [] w = (w, None)"
| "add_outs conv (None # outs) w = add_outs conv outs w"
| "add_outs conv (Some o' # outs) w =
     (case conv o' of
        Inl e \<Rightarrow> (w, Some (''converting to unstructured: '' @ e))
      | Inr u \<Rightarrow> add_outs conv outs (w\<lparr>ow_outputs := ow_outputs w @ [munged w u]\<rparr>))"

definition OutputWriter_Add ::
  "('t \<Rightarrow> string + Unstructured) \<Rightarrow> 't option list \<Rightarrow> OutputWriter \<Rightarrow> OutputWriter \<times> string option" where
  "OutputWriter_Add conv outs w =
     (if ow_committed w then (w, Some ''cannot add to a committed output'') else add_outs conv outs w)"

definition OutputWriter_Write :: "(Unstructured list \<Rightarrow> string + string) \<Rightarrow> OutputWriter \<Rightarrow> OutputWriter \<times> string option" where
  "OutputWriter_Write enc w =
     (case enc (ow_outputs w) of
        Inl e \<Rightarrow> (w, Some (''writing output to stdou: '' @ e))
      | Inr bytes \<Rightarrow> (w\<lparr>ow_written := ow_written w @ [bytes], ow_committed := True\<rparr>, None))"

section \<open>The Helm shim\<close>

datatype shim_error = ErrChartNotFound | ErrRenderAction | ErrCannotParseChart | ErrConstructingValues | FunctionError string

type_synonym helm_values = "string \<Rightarrow> Unstructured option"
type_synonym ValuesFunc = "InputReader \<Rightarrow> string + helm_values"

record options =
  o_Namespace :: string
  o_ReleaseName :: string
  o_ValuesFunc :: ValuesFunc
  o_ChartPath :: string
  o_Reader :: "InputReader option"
  o_Writer :: "OutputWriter option"

type_synonym RenderOption = "options \<Rightarrow> options"

definition RenderOption_apply :: "RenderOption \<Rightarrow> options \<Rightarrow> options" where
  "RenderOption_apply ro o' = ro o'"

definition WithNamespace :: "string \<Rightarrow> RenderOption" where
  "WithNamespace ns o' = o'\<lparr>o_Namespace := ns\<rparr>"

definition WithValuesFunc :: "ValuesFunc \<Rightarrow> RenderOption" where
  "WithValuesFunc fn o' = o'\<lparr>o_ValuesFunc := fn\<rparr>"

definition WithChartPath :: "string \<Rightarrow> RenderOption" where
  "WithChartPath p o' = o'\<lparr>o_ChartPath := p\<rparr>"

definition WithInputReader :: "InputReader \<Rightarrow> RenderOption" where
  "WithInputReader r o' = o'\<lparr>o_Reader := Some r\<rparr>"

definition WithOutputWriter :: "OutputWriter \<Rightarrow> RenderOption" where
  "WithOutputWriter w o' = o'\<lparr>o_Writer := Some w\<rparr>"

definition WithReleaseName :: "string \<Rightarrow> RenderOption" where
  "WithReleaseName rn o' = o'\<lparr>o_ReleaseName := rn\<rparr>"

definition inputsToValues :: ValuesFunc where
  "inputsToValues i = Inr (All i)"

definition default_options :: options where
  "default_options =
     \<lparr>o_Namespace = ''default'', o_ReleaseName = ''eno-helm-shim'', o_ValuesFunc = inputsToValues,
      o_ChartPath = ''./chart'', o_Reader = None, o_Writer = None\<rparr>"

record release =
  rel_Manifest :: string
  rel_Hooks :: "(string \<times> string) list"

text \<open>\<open>yaml_docs\<close> are the answers of successive calls of the decoder up to the end of the input.\<close>

record 'c helm =
  helm_stdin :: string
  helm_decode :: "string \<Rightarrow> string + ResourceList"
  helm_encode :: "Unstructured list \<Rightarrow> string + string"
  load_chart :: "string \<Rightarrow> 'c option"
  run_install :: "string \<Rightarrow> string \<Rightarrow> 'c \<Rightarrow> helm_values \<Rightarrow> release option"
  yaml_docs :: "string \<Rightarrow> Unstructured option list"

definition newline :: string where
  "newline = [char_of (10 :: nat)]"

definition release_text :: "release \<Rightarrow> string" where
  "release_text rel = rel_Manifest rel @
     concat (map (\<lambda>(name, man). ''---'' @ newline @ ''# Source: '' @ name @ newline @ man @ newline) (rel_Hooks rel))"

text \<open>The answer of \<open>Add\<close> is not looked at.\<close>

fun add_docs :: "Unstructured option list \<Rightarrow> OutputWriter \<Rightarrow> OutputWriter \<times> bool" where
  "add_docs [] w = (w, True)"
| "add_docs (None # ds) w = (w, False)"
| "add_docs (Some u # ds) w = add_docs ds (fst (OutputWriter_Add Inr [Some u] w))"

definition RenderChart :: "'c helm \<Rightarrow> RenderOption list \<Rightarrow> OutputWriter option \<times> shim_error option" where
  "RenderChart h opts =
     (let o1 = fold RenderOption_apply opts default_options in
      case (case o_Reader o1 of Some r \<Rightarrow> Inr r | None \<Rightarrow> NewDefaultInputReader (helm_decode h) (helm_stdin h)) of
        Inl e \<Rightarrow> (o_Writer o1, Some (FunctionError e))
      | Inr rd \<Rightarrow>
          let w = (case o_Writer o1 of Some w \<Rightarrow> w | None \<Rightarrow> NewDefaultOutputWriter) in
          (case load_chart h (o_ChartPath o1) of
             None \<Rightarrow> (Some w, Some ErrChartNotFound)
           | Some c \<Rightarrow>
               (case o_ValuesFunc o1 rd of
                  Inl e \<Rightarrow> (Some w, Some ErrConstructingValues)
                | Inr vals \<Rightarrow>
                    (case run_install h (o_ReleaseName o1) (o_Namespace o1) c vals of
                       None \<Rightarrow> (Some w, Some ErrRenderAction)
                     | Some rel \<Rightarrow>
                         (case add_docs (yaml_docs h (release_text rel)) w of
                            (w', False) \<Rightarrow> (Some w', Some ErrCannotParseChart)
                          | (w', True) \<Rightarrow>
                              (case OutputWriter_Write (helm_encode h) w' of
                                 (w'', e) \<Rightarrow> (Some w'', map_option FunctionError e)))))))"

text \<open>
  The command line of a shim: \<open>Inl\<close> is the exit of \<open>flag.Parse\<close>, and a definition of the flags on a set that
  has them already panics (\<open>None\<close>).
\<close>

definition ParseFlags :: "flag_parsers \<Rightarrow> flagset option \<Rightarrow> string list \<Rightarrow> (flag_error + RenderOption list) option" where
  "ParseFlags ps set0 args =
     (case flag_var ''chart'' (VString ''.'') (flag_var ''ns'' (VString ''default'') set0) of
        None \<Rightarrow> None
      | Some defs \<Rightarrow>
          Some (case flag_Parse ps defs args of
                  Inl e \<Rightarrow> Inl e
                | Inr f \<Rightarrow>
                    let str = (\<lambda>n. case f n of Some (VString s) \<Rightarrow> s | _ \<Rightarrow> []) in
                    Inr [WithNamespace (str ''ns''), WithChartPath (str ''chart'')]))"

text \<open>The writer that is left and the exit code of the process.\<close>

definition MustRenderChart :: "'c helm \<Rightarrow> RenderOption list \<Rightarrow> OutputWriter option \<times> int" where
  "MustRenderChart h opts = (case RenderChart h opts of (w, err) \<Rightarrow> (w, if err = None then 0 else 1))"

section \<open>Lemmas\<close>

lemma find_distinct_key: "distinct (map f xs) \<Longrightarrow> x \<in> set xs \<Longrightarrow> find (\<lambda>y. f y = f x) xs = Some x"
  by (induction xs) (auto simp: image_iff)

lemma fold_put_key: "fold (\<lambda>x m. m(f x \<mapsto> x)) xs m = m ++ map_of (rev (map (\<lambda>x. (f x, x)) xs))"
  by (induction xs arbitrary: m) (auto simp: map_add_def fun_eq_iff split: option.splits)

lemma All_key: "distinct (map getKey (rl_Items (ir_resources rd))) \<Longrightarrow> x \<in> set (rl_Items (ir_resources rd)) \<Longrightarrow>
    All rd (getKey x) = Some x"
  by (simp add: All_def fold_put_key distinct_map map_of_eq_Some_iff rev_map image_iff o_def inj_on_def)

lemma getKey_annotate_input [simp]: "getKey (annotate_input key obj) = key"
  by (simp add: getKey_def annotate_input_def gomap_get_def update_conv)

abbreviation input_of :: "executor \<Rightarrow> (string \<Rightarrow> Binding option) \<Rightarrow> Ref \<Rightarrow> Unstructured \<Rightarrow> bool" where
  "input_of e bindings r o' \<equiv>
     \<exists>b obj. bindings (ref_Key r) = Some b \<and>
       ex_get_obj e (ref_Resource r) \<lparr>nn_Namespace = rb_Namespace (b_Resource b), nn_Name = rb_Name (b_Resource b)\<rparr> = Inr obj \<and>
       o' = annotate_input (ref_Key r) obj"

lemma build_inputs_items:
  "build_inputs e bindings refs = Inr (objs, revs) \<Longrightarrow> list_all2 (input_of e bindings) refs objs"
  by (induction refs arbitrary: objs revs) (auto simp: Let_def split: option.splits sum.splits)

lemma list_all2_member: "list_all2 P xs ys \<Longrightarrow> x \<in> set xs \<Longrightarrow> \<exists>y \<in> set ys. P x y"
  by (induction rule: list_all2_induct) auto

lemma list_all2_keys: "list_all2 (input_of e bindings) refs objs \<Longrightarrow> map getKey objs = map ref_Key refs"
  by (induction rule: list_all2_induct) auto

text \<open>
  C32. The inputs reach the synthesizer under their keys: when the executor has built the input list of
  a synthesizer whose references have distinct keys, and the encoded list decodes to itself, then for
  each reference the reader of the function library finds, by the key of the reference, the object
  that the composition binds to this key, annotated with the key.
\<close>
theorem inputs_readable:
  assumes "buildPodInput e co syn = Inr (objs, revs)" and "distinct (map ref_Key (Refs (synth_Spec syn)))"
    and "r \<in> set (Refs (synth_Spec syn))"
    and "decode_list w stdin = Inr \<lparr>rl_Items = objs, rl_Results = []\<rparr>"
  shows "\<exists>rd b obj. NewInputReader (decode_list w) stdin = Inr rd \<and>
     bindingsByKey co (ref_Key r) = Some b \<and>
     ex_get_obj e (ref_Resource r) \<lparr>nn_Namespace = rb_Namespace (b_Resource b), nn_Name = rb_Name (b_Resource b)\<rparr> = Inr obj \<and>
     ReadInput Inr rd (ref_Key r) = Inr (annotate_input (ref_Key r) obj) \<and>
     All rd (ref_Key r) = Some (annotate_input (ref_Key r) obj)"
proof -
  note items = build_inputs_items [OF assms(1) [unfolded buildPodInput_def]]
  from list_all2_member [OF items assms(3)]
  obtain x where x: "x \<in> set objs" "input_of e (bindingsByKey co) r x" by (rule bexE)
  then have key: "getKey x = ref_Key r" by auto
  let ?rd = "\<lparr>ir_resources = \<lparr>rl_Items = objs, rl_Results = []\<rparr>\<rparr>"
  have d: "distinct (map getKey objs)" using list_all2_keys [OF items] assms(2) by simp
  from find_distinct_key [OF d x(1)] key have "ReadInput Inr ?rd (ref_Key r) = Inr x"
    by (simp add: ReadInput_def)
  moreover have "All ?rd (ref_Key r) = Some x" using All_key [of ?rd x] d x(1) key by simp
  ultimately show ?thesis
    using x(2) assms(4) by (auto simp: NewInputReader_def)
qed

definition input_executor :: executor where
  "input_executor = sample_executor\<lparr>ex_get_obj := (\<lambda>_ _. Inr (sample_obj ''a''))\<rparr>"

definition sample_world :: exec_world where
  "sample_world =
     \<lparr>encode_list = (\<lambda>_. Inr ''bytes''), run_process = (\<lambda>_ _ stdin. Inr stdin),
      decode_list = (\<lambda>_. Inr \<lparr>rl_Items = [annotate_input ''in'' (sample_obj ''a'')], rl_Results = []\<rparr>)\<rparr>"

theorem inputs_readable_witness:
  "\<exists>rd. NewInputReader (decode_list sample_world) ''bytes'' = Inr rd \<and>
     ReadInput Inr rd ''in'' = Inr (annotate_input ''in'' (sample_obj ''a''))"
proof -
  have refs: "Refs (synth_Spec ref_synth) = [\<lparr>ref_Key = ''in'', ref_Resource = \<lparr>rr_Group = [], rr_Version = ''v1'',
      rr_Kind = ''ConfigMap''\<rparr>, ref_Defer = False\<rparr>]" (is "_ = [?r]")
    by (simp add: ref_synth_def)
  have b: "bindingsByKey bound_comp ''in'' \<noteq> None" by (simp add: bindingsByKey_def bound_comp_def)
  then obtain revs where "buildPodInput input_executor bound_comp ref_synth = Inr ([annotate_input ''in'' (sample_obj ''a'')], revs)"
    by (auto simp: buildPodInput_def refs input_executor_def Let_def)
  from inputs_readable [OF this, of ?r sample_world "''bytes''"] refs show ?thesis
    by (auto simp: sample_world_def input_executor_def)
qed

subsection \<open>Outputs\<close>

lemma add_outs_result:
  assumes "add_outs conv outs w = (w', None)"
  shows "\<exists>us. map Inr us = map conv (List.map_filter (\<lambda>o'. o') outs) \<and> w' = w\<lparr>ow_outputs := ow_outputs w @ map (munged w) us\<rparr>"
  using assms
proof (induction conv outs w rule: add_outs.induct)
  case (3 conv o' outs w)
  then obtain u where u: "conv o' = Inr u" by (cases "conv o'") auto
  let ?w = "w\<lparr>ow_outputs := ow_outputs w @ [munged w u]\<rparr>"
  from 3 u obtain us where "map Inr us = map conv (List.map_filter (\<lambda>o'. o') outs)"
    and w': "w' = ?w\<lparr>ow_outputs := ow_outputs ?w @ map (munged ?w) us\<rparr>" by auto
  moreover have "munged ?w = munged w" by (simp add: munged_def fun_eq_iff)
  ultimately show ?case using u by (intro exI [of _ "u # us"]) (simp add: List.map_filter_simps)
qed (auto simp: List.map_filter_simps)

lemma handler_receives_outputs:
  assumes "encode_list w objs = Inr stdin"
    and "run_process w (if Command (synth_Spec s) = [] then [''synthesize''] else Command (synth_Spec s))
           (ExecTimeout (synth_Spec s)) stdin = Inr stdout"
    and add: "OutputWriter_Add conv outs (NewOutputWriter m) = (w1, None)"
    and writes: "OutputWriter_Write (encode_list w) w1 = (w2, None)" "ow_written w2 = [stdout]"
    and "\<And>b. encode_list w (ow_outputs w1) = Inr b \<Longrightarrow> decode_list w b = Inr \<lparr>rl_Items = ow_outputs w1, rl_Results = []\<rparr>"
  shows "\<exists>us. map Inr us = map conv (List.map_filter (\<lambda>o'. o') outs) \<and>
     NewExecHandler w s objs = Inr \<lparr>rl_Items = map (munged (NewOutputWriter m)) us, rl_Results = []\<rparr>"
proof -
  from add have "add_outs conv outs (NewOutputWriter m) = (w1, None)"
    by (simp add: OutputWriter_Add_def NewOutputWriter_def)
  from add_outs_result [OF this] obtain us where us: "map Inr us = map conv (List.map_filter (\<lambda>o'. o') outs)"
    "ow_outputs w1 = map (munged (NewOutputWriter m)) us" "ow_written w1 = []"
    by (auto simp: NewOutputWriter_def)
  from writes us(3) have "encode_list w (ow_outputs w1) = Inr stdout"
    by (auto simp: OutputWriter_Write_def split: sum.splits)
  with assms(1,2,6) us show ?thesis by (auto simp: NewExecHandler_def)
qed

lemma add_docs_result:
  "\<not> ow_committed w \<Longrightarrow> add_docs ds w = (w', True) \<Longrightarrow>
     \<exists>us. ds = map Some us \<and> w' = w\<lparr>ow_outputs := ow_outputs w @ map (munged w) us\<rparr>"
proof (induction ds w rule: add_docs.induct)
  case (3 u ds w)
  let ?w = "w\<lparr>ow_outputs := ow_outputs w @ [munged w u]\<rparr>"
  have "fst (OutputWriter_Add Inr [Some u] w) = ?w" using 3(2) by (simp add: OutputWriter_Add_def)
  with 3 obtain us where "ds = map Some us" and "w' = ?w\<lparr>ow_outputs := ow_outputs ?w @ map (munged ?w) us\<rparr>"
    by auto
  moreover have "munged ?w = munged w" by (simp add: munged_def fun_eq_iff)
  ultimately show ?case by (intro exI [of _ "u # us"]) simp
qed auto

text \<open>
  A successful rendering into a fresh writer: the chart loaded and rendered with the values of the
  inputs, every document of the manifest and of the hooks parsed, and exactly these documents, passed
  through the writer's hook and in their order, were written, once; the writer refuses further output
  and keeps what it has.
\<close>
theorem RenderChart_outputs:
  assumes "RenderChart h opts = (Some w', None)"
    and "o_Writer (fold RenderOption_apply opts default_options) = Some (NewOutputWriter m)"
  shows "\<exists>rd c vals rel us bytes.
     o_ValuesFunc (fold RenderOption_apply opts default_options) rd = Inr vals \<and>
     load_chart h (o_ChartPath (fold RenderOption_apply opts default_options)) = Some c \<and>
     run_install h (o_ReleaseName (fold RenderOption_apply opts default_options))
       (o_Namespace (fold RenderOption_apply opts default_options)) c vals = Some rel \<and>
     yaml_docs h (release_text rel) = map Some us \<and>
     helm_encode h (map (munged (NewOutputWriter m)) us) = Inr bytes \<and> ow_written w' = [bytes] \<and>
     (\<forall>outs. fst (OutputWriter_Add Inr outs w') = w' \<and> snd (OutputWriter_Add Inr outs w') \<noteq> None)"
proof -
  define o1 where "o1 = fold RenderOption_apply opts default_options"
  have w0: "o_Writer o1 = Some (NewOutputWriter m)" using assms(2) by (simp add: o1_def)
  from assms(1) w0 obtain rd c vals rel w1
    where ok: "o_ValuesFunc o1 rd = Inr vals" "load_chart h (o_ChartPath o1) = Some c"
      "run_install h (o_ReleaseName o1) (o_Namespace o1) c vals = Some rel"
      and add: "add_docs (yaml_docs h (release_text rel)) (NewOutputWriter m) = (w1, True)"
      and wr: "OutputWriter_Write (helm_encode h) w1 = (w', None)"
    unfolding RenderChart_def o1_def [symmetric] Let_def
    by (auto split: sum.splits option.splits prod.splits bool.splits)
  have "\<not> ow_committed (NewOutputWriter m)" by (simp add: NewOutputWriter_def)
  from add_docs_result [OF this add] obtain us where us: "yaml_docs h (release_text rel) = map Some us"
    "w1 = (NewOutputWriter m)\<lparr>ow_outputs := map (munged (NewOutputWriter m)) us\<rparr>"
    by (auto simp: NewOutputWriter_def)
  with wr obtain bytes where "helm_encode h (map (munged (NewOutputWriter m)) us) = Inr bytes"
    "ow_written w' = [bytes]" "ow_committed w'"
    by (auto simp: OutputWriter_Write_def NewOutputWriter_def split: sum.splits)
  with ok us(1) show ?thesis
    unfolding o1_def [symmetric] by (auto simp: OutputWriter_Add_def intro!: exI)
qed

definition sample_helm :: "nat helm" where
  "sample_helm =
     \<lparr>helm_stdin = [], helm_decode = (\<lambda>_. Inr \<lparr>rl_Items = [], rl_Results = []\<rparr>), helm_encode = (\<lambda>_. Inr ''bytes''),
      load_chart = (\<lambda>p. if p = ''./chart'' then Some 1 else None),
      run_install = (\<lambda>_ _ _ _. Some \<lparr>rel_Manifest = ''m'', rel_Hooks = [(''hook'', ''n'')]\<rparr>),
      yaml_docs = (\<lambda>_. [Some (sample_obj ''a''), Some (sample_obj ''b'')])\<rparr>"

theorem RenderChart_outputs_witness:
  "\<exists>w' rel us. RenderChart sample_helm [WithOutputWriter (NewOutputWriter None)] = (Some w', None) \<and>
     yaml_docs sample_helm (release_text rel) = map Some us \<and> ow_written w' = [''bytes'']"
proof -
  let ?opts = "[WithOutputWriter (NewOutputWriter None)]"
  obtain w' where w': "RenderChart sample_helm ?opts = (Some w', None)"
    by (simp add: RenderChart_def Let_def sample_helm_def WithOutputWriter_def default_options_def inputsToValues_def
        NewDefaultInputReader_def RenderOption_apply_def NewInputReader_def OutputWriter_Add_def NewOutputWriter_def
        OutputWriter_Write_def)
  have "o_Writer (fold RenderOption_apply ?opts default_options) = Some (NewOutputWriter None)"
    by (simp add: WithOutputWriter_def RenderOption_apply_def)
  from RenderChart_outputs [OF w' this] w' show ?thesis
    by (auto simp: sample_helm_def)
qed

text \<open>
  A shim that is started with both flags renders the named chart for the named namespace, with what
  \<open>RenderChart\<close> does by default otherwise.
\<close>

lemma ParseFlags_options:
  "\<exists>opts. ParseFlags ps (Some []) [''--ns='' @ ns, ''--chart='' @ chart] = Some (Inr opts) \<and>
     fold RenderOption_apply opts default_options = default_options\<lparr>o_Namespace := ns, o_ChartPath := chart\<rparr>"
proof -
  let ?defs = "[(''ns'', VString ''default''), (''chart'', VString ''.'')]"
  have "parse_all ps (map_of ?defs) (map (\<lambda>(n, s). ''--'' @ n @ ''='' @ s) [(''ns'', ns), (''chart'', chart)]) =
      Inr (fold (\<lambda>(n, s) f. f(n := Option.bind (f n) (\<lambda>v. flag_Set ps v s))) [(''ns'', ns), (''chart'', chart)] (map_of ?defs))"
    by (rule parse_assignments) (auto simp: flag_name_def)
  then show ?thesis
    by (simp add: ParseFlags_def flag_var_def flag_Parse_def Let_def WithNamespace_def WithChartPath_def
      RenderOption_apply_def)
qed

end
