(* ===== verification/Go_Memory.thy ===== *)
theory Go_Memory
  imports Eno_Prelude "HOL-Library.Sublist" "HOL-Library.Monad_Syntax" "HOL-Library.Word"
begin

text \<open>
  The part of Go's memory that copying a structure depends on: values with pointers, slices and
  maps, a store of cells, and what a value stands for in a store.

  \<^item> A value \<open>gval\<close> is what a Go variable holds: a primitive, a struct with its fields in
    declaration order, a pointer, a slice header (array, offset and length) or a map header; a nil
    pointer, slice or map is \<open>None\<close>. A store is a list of cells, its index the address. Allocation
    appends a cell, so the addresses from the length of the store upwards are the fresh ones. An
    interior pointer such as \<open>&out.Spec\<close> is not a value of the model: the routines that get one
    here take the struct and return it, and their caller stores it in the field.
  \<^item> A \<open>tree\<close> is a value with nothing shared, as \<open>reflect.DeepEqual\<close> compares it. \<open>rep h t v\<close>: in
    the store \<open>h\<close> the value \<open>v\<close> stands for the tree \<open>t\<close>, with \<open>foot h t v\<close> the addresses it
    reaches. Go iterates over a map in any order: the cell of a map lists its entries in the order
    of the next iteration, and \<open>rep\<close> only asks for the same entries.
  \<^item> A \<open>gty\<close> is a Go type; \<open>has_type X T t\<close>: the tree \<open>t\<close> has type \<open>T\<close>, where \<open>X\<close> gives the trees
    of the types of other modules.
  \<^item> A routine returns \<open>None\<close> when Go would panic (a nil dereference, an index out of range) or
    when a value is not of the kind that the statement expects.
\<close>

section \<open>Values, stores and trees\<close>

type_synonym addr = nat

datatype prim = PString string | PInt "64 word" | PInt64 "64 word" | PBool bool
  | PFloat64 "64 word" | POpaque string

datatype gval = Prim prim | Struct "(string \<times> gval) list" | Ptr "addr option"
  | SliceV "(addr \<times> nat \<times> nat) option" | MapV "addr option"

datatype cell = Cell gval | Arr "gval list" | Tab "(string \<times> string) list"

type_synonym heap = "cell list"

datatype tree = PrimT prim | StructT "(string \<times> tree) list" | PtrT "tree option"
  | SliceT "tree list option" | MapT "(string \<times> string) list option"

definition load :: "heap \<Rightarrow> addr \<Rightarrow> gval option" where
  "load h a = (if a < length h then case h ! a of Cell v \<Rightarrow> Some v | _ \<Rightarrow> None else None)"

definition load_arr :: "heap \<Rightarrow> addr \<times> nat \<times> nat \<Rightarrow> gval list option" where
  "load_arr h s = (case s of (a, off, n) \<Rightarrow>
     if a < length h
     then case h ! a of
         Arr vs \<Rightarrow> if off + n \<le> length vs then Some (take n (drop off vs)) else None
       | _ \<Rightarrow> None
     else None)"

definition load_tab :: "heap \<Rightarrow> addr \<Rightarrow> (string \<times> string) list option" where
  "load_tab h a = (if a < length h then case h ! a of Tab kvs \<Rightarrow> Some kvs | _ \<Rightarrow> None else None)"

fun is_nil :: "gval \<Rightarrow> bool" where
  "is_nil (Ptr p) = (p = None)"
| "is_nil (SliceV s) = (s = None)"
| "is_nil (MapV m) = (m = None)"
| "is_nil _ = False"

text \<open>What a value stands for, and the addresses that it reaches.\<close>

fun rep :: "heap \<Rightarrow> tree \<Rightarrow> gval \<Rightarrow> bool"
  and rep_fields :: "heap \<Rightarrow> (string \<times> tree) list \<Rightarrow> (string \<times> gval) list \<Rightarrow> bool"
  and rep_list :: "heap \<Rightarrow> tree list \<Rightarrow> gval list \<Rightarrow> bool" where
  "rep h (PrimT p) v = (v = Prim p)"
| "rep h (StructT ts) v = (case v of Struct vs \<Rightarrow> rep_fields h ts vs | _ \<Rightarrow> False)"
| "rep h (PtrT None) v = (v = Ptr None)"
| "rep h (PtrT (Some t)) v =
     (case v of Ptr (Some a) \<Rightarrow> (case load h a of Some w \<Rightarrow> rep h t w | None \<Rightarrow> False)
      | _ \<Rightarrow> False)"
| "rep h (SliceT None) v = (v = SliceV None)"
| "rep h (SliceT (Some ts)) v =
     (case v of SliceV (Some s) \<Rightarrow>
        (case load_arr h s of Some vs \<Rightarrow> rep_list h ts vs | None \<Rightarrow> False)
      | _ \<Rightarrow> False)"
| "rep h (MapT None) v = (v = MapV None)"
| "rep h (MapT (Some kvs)) v =
     (case v of MapV (Some a) \<Rightarrow>
        (case load_tab h a of Some kvs' \<Rightarrow> distinct (map fst kvs') \<and> set kvs' = set kvs
         | None \<Rightarrow> False)
      | _ \<Rightarrow> False)"
| "rep_fields h [] vs = (vs = [])"
| "rep_fields h ((F, t) # ts) vs =
     (case vs of (G, v) # vs' \<Rightarrow> F = G \<and> rep h t v \<and> rep_fields h ts vs' | [] \<Rightarrow> False)"
| "rep_list h [] vs = (vs = [])"
| "rep_list h (t # ts) vs = (case vs of v # vs' \<Rightarrow> rep h t v \<and> rep_list h ts vs' | [] \<Rightarrow> False)"

fun foot :: "heap \<Rightarrow> tree \<Rightarrow> gval \<Rightarrow> addr set"
  and foot_fields :: "heap \<Rightarrow> (string \<times> tree) list \<Rightarrow> (string \<times> gval) list \<Rightarrow> addr set"
  and foot_list :: "heap \<Rightarrow> tree list \<Rightarrow> gval list \<Rightarrow> addr set" where
  "foot h (PrimT p) v = {}"
| "foot h (StructT ts) v = (case v of Struct vs \<Rightarrow> foot_fields h ts vs | _ \<Rightarrow> {})"
| "foot h (PtrT None) v = {}"
| "foot h (PtrT (Some t)) v =
     (case v of Ptr (Some a) \<Rightarrow>
        insert a (case load h a of Some w \<Rightarrow> foot h t w | None \<Rightarrow> {})
      | _ \<Rightarrow> {})"
| "foot h (SliceT None) v = {}"
| "foot h (SliceT (Some ts)) v =
     (case v of SliceV (Some s) \<Rightarrow>
        insert (fst s) (case load_arr h s of Some vs \<Rightarrow> foot_list h ts vs | None \<Rightarrow> {})
      | _ \<Rightarrow> {})"
| "foot h (MapT None) v = {}"
| "foot h (MapT (Some kvs)) v = (case v of MapV (Some a) \<Rightarrow> {a} | _ \<Rightarrow> {})"
| "foot_fields h [] vs = {}"
| "foot_fields h ((F, t) # ts) vs =
     (case vs of (G, v) # vs' \<Rightarrow> foot h t v \<union> foot_fields h ts vs' | [] \<Rightarrow> {})"
| "foot_list h [] vs = {}"
| "foot_list h (t # ts) vs = (case vs of v # vs' \<Rightarrow> foot h t v \<union> foot_list h ts vs' | [] \<Rightarrow> {})"

section \<open>Types\<close>

datatype prim_ty = GString | GInt | GInt64 | GBool | GFloat64

datatype gty = TPrim prim_ty | TStruct "(string \<times> gty) list" | TPtr gty | TSlice gty
  | TMap \<comment> \<open>\<open>map[string]string\<close>\<close> | TLib string \<comment> \<open>a type of another module\<close>

fun prim_type :: "prim \<Rightarrow> prim_ty option" where
  "prim_type (PString s) = Some GString"
| "prim_type (PInt i) = Some GInt"
| "prim_type (PInt64 i) = Some GInt64"
| "prim_type (PBool b) = Some GBool"
| "prim_type (PFloat64 x) = Some GFloat64"
| "prim_type (POpaque s) = None"

fun has_type :: "(string \<Rightarrow> tree \<Rightarrow> bool) \<Rightarrow> gty \<Rightarrow> tree \<Rightarrow> bool"
  and fields_type :: "(string \<Rightarrow> tree \<Rightarrow> bool) \<Rightarrow> (string \<times> gty) list \<Rightarrow> (string \<times> tree) list \<Rightarrow> bool" where
  "has_type X (TPrim p) t = (case t of PrimT q \<Rightarrow> prim_type q = Some p | _ \<Rightarrow> False)"
| "has_type X (TStruct Fs) t = (case t of StructT ts \<Rightarrow> fields_type X Fs ts | _ \<Rightarrow> False)"
| "has_type X (TPtr T) t =
     (case t of PtrT None \<Rightarrow> True | PtrT (Some t') \<Rightarrow> has_type X T t' | _ \<Rightarrow> False)"
| "has_type X (TSlice T) t =
     (case t of SliceT None \<Rightarrow> True | SliceT (Some ts) \<Rightarrow> list_all (has_type X T) ts | _ \<Rightarrow> False)"
| "has_type X TMap t = (case t of MapT m \<Rightarrow> True | _ \<Rightarrow> False)"
| "has_type X (TLib n) t = X n t"
| "fields_type X [] ts = (ts = [])"
| "fields_type X ((F, T) # Fs) ts =
     (case ts of (G, t) # ts' \<Rightarrow> F = G \<and> has_type X T t \<and> fields_type X Fs ts' | [] \<Rightarrow> False)"

text \<open>A flat type has no pointer, slice or map: assigning it copies all of it.\<close>

fun flat :: "gty \<Rightarrow> bool" where
  "flat (TPrim p) = True"
| "flat (TStruct Fs) = list_all (\<lambda>(F, T). flat T) Fs"
| "flat _ = False"

section \<open>The store only grows\<close>

lemma load_less: "load h a = Some v \<Longrightarrow> a < length h"
  by (simp add: load_def split: if_splits)

lemma load_arr_less: "load_arr h s = Some vs \<Longrightarrow> fst s < length h"
  by (simp add: load_arr_def split: if_splits prod.splits)

lemma load_tab_less: "load_tab h a = Some kvs \<Longrightarrow> a < length h"
  by (simp add: load_tab_def split: if_splits)

lemmas load_defs = load_def load_arr_def load_tab_def

text \<open>A value depends on the cells of its footprint only.\<close>

definition agree :: "addr set \<Rightarrow> heap \<Rightarrow> heap \<Rightarrow> bool" where
  "agree A h h' \<longleftrightarrow> (\<forall>a\<in>A. a < length h \<longrightarrow> a < length h' \<and> h' ! a = h ! a)"

lemma agree_insert [simp]:
  "agree (insert a A) h h' \<longleftrightarrow>
     (a < length h \<longrightarrow> a < length h' \<and> h' ! a = h ! a) \<and> agree A h h'"
  by (auto simp: agree_def)

lemma agree_Un [simp]: "agree (A \<union> B) h h' \<longleftrightarrow> agree A h h' \<and> agree B h h'"
  by (auto simp: agree_def)

lemma agree_prefix: "prefix h h' \<Longrightarrow> agree A h h'"
  by (auto simp: agree_def prefix_def nth_append)

lemma agree_update: "a \<notin> A \<Longrightarrow> agree A h (h[a := c])"
  by (auto simp: agree_def) (metis nth_list_update_neq)

lemma agree_mono: "agree B h h' \<Longrightarrow> A \<subseteq> B \<Longrightarrow> agree A h h'"
  by (auto simp: agree_def)

lemma rep_frame:
  "rep h t v \<Longrightarrow> agree (foot h t v) h h' \<Longrightarrow> rep h' t v \<and> foot h' t v = foot h t v"
  "rep_fields h ts fs \<Longrightarrow> agree (foot_fields h ts fs) h h'
     \<Longrightarrow> rep_fields h' ts fs \<and> foot_fields h' ts fs = foot_fields h ts fs"
  "rep_list h us vs \<Longrightarrow> agree (foot_list h us vs) h h'
     \<Longrightarrow> rep_list h' us vs \<and> foot_list h' us vs = foot_list h us vs"
proof (induction h t v and h ts fs and h us vs rule: rep_rep_fields_rep_list.induct)
  case (4 h t v)
  from "4.prems"(1) obtain a w where v: "v = Ptr (Some a)" and a: "load h a = Some w" and r: "rep h t w"
    by (auto split: gval.splits option.splits)
  have "load h' a = Some w"
    using "4.prems"(2) v a load_less [OF a] by (simp add: load_def)
  moreover have "rep h' t w \<and> foot h' t w = foot h t w"
    using "4.IH" [OF v _ a r] "4.prems"(2) v a by simp
  ultimately show ?case using v a by simp
next
  case (6 h ts v)
  from "6.prems"(1) obtain s ws where v: "v = SliceV (Some s)" and a: "load_arr h s = Some ws"
    and r: "rep_list h ts ws"
    by (auto split: gval.splits option.splits)
  have "load_arr h' s = Some ws"
    using "6.prems"(2) v a load_arr_less [OF a] by (cases s) (simp add: load_arr_def)
  moreover have "rep_list h' ts ws \<and> foot_list h' ts ws = foot_list h ts ws"
    using "6.IH" [OF v _ a r] "6.prems"(2) v a by simp
  ultimately show ?case using v a by simp
next
  case (8 h kvs v)
  from "8.prems"(1) obtain a m where v: "v = MapV (Some a)" and a: "load_tab h a = Some m"
    by (auto split: gval.splits option.splits)
  have "load_tab h' a = Some m"
    using "8.prems"(2) v a load_tab_less [OF a] by (simp add: load_tab_def)
  then show ?case using "8.prems"(1) v a by simp
qed (auto split: gval.splits list.splits)

lemma foot_bound:
  "rep h t v \<Longrightarrow> a \<in> foot h t v \<Longrightarrow> a < length h"
  "rep_fields h ts fs \<Longrightarrow> a \<in> foot_fields h ts fs \<Longrightarrow> a < length h"
  "rep_list h us vs \<Longrightarrow> a \<in> foot_list h us vs \<Longrightarrow> a < length h"
  by (induction h t v and h ts fs and h us vs rule: rep_rep_fields_rep_list.induct)
    (auto split: gval.splits option.splits list.splits dest: load_less load_arr_less load_tab_less)

lemma rep_prefix:
  assumes "prefix h h'" and "rep h t v"
  shows "rep h' t v" and "foot h' t v = foot h t v"
  using rep_frame(1) [OF assms(2) agree_prefix [OF assms(1)]] by auto

lemma rep_list_prefix:
  assumes "prefix h h'" and "rep_list h ts vs"
  shows "rep_list h' ts vs" and "foot_list h' ts vs = foot_list h ts vs"
  using rep_frame(3) [OF assms(2) agree_prefix [OF assms(1)]] by auto

section \<open>Fields by name\<close>

lemma rep_fields_names: "rep_fields h ts vs \<Longrightarrow> map fst ts = map fst vs"
  by (induction ts arbitrary: vs) (auto split: list.splits)

lemma fields_type_names: "fields_type X Fs ts \<Longrightarrow> map fst Fs = map fst ts"
  by (induction Fs arbitrary: ts) (auto split: list.splits)

lemma map_of_None_names: "map_of al k = None \<longleftrightarrow> k \<notin> set (map fst al)"
  by (simp add: map_of_eq_None_iff)

lemma fields_type_map_of:
  "fields_type X Fs ts \<Longrightarrow> map_of ts F = Some t \<Longrightarrow> \<exists>T. map_of Fs F = Some T \<and> has_type X T t"
  by (induction Fs arbitrary: ts) (auto split: list.splits if_splits)

lemma rep_fields_map_of:
  "rep_fields h ts vs \<Longrightarrow> map_of ts F = Some t \<Longrightarrow> map_of vs F = Some v \<Longrightarrow> rep h t v"
  by (induction ts arbitrary: vs) (auto split: list.splits if_splits)

lemma rep_fieldsI:
  assumes "map fst ts = map fst vs" and "distinct (map fst ts)"
    and "\<And>F t v. map_of ts F = Some t \<Longrightarrow> map_of vs F = Some v \<Longrightarrow> rep h t v \<and> foot h t v \<subseteq> B"
  shows "rep_fields h ts vs \<and> foot_fields h ts vs \<subseteq> B"
  using assms
proof (induction ts arbitrary: vs)
  case (Cons p ts)
  obtain F t where p: "p = (F, t)" by (cases p)
  from Cons.prems(1) p obtain v vs' where vs: "vs = (F, v) # vs'" by (cases vs) auto
  have notin: "F \<notin> set (map fst ts)" and names: "map fst ts = map fst vs'"
    using Cons.prems(1,2) p vs by auto
  have "rep_fields h ts vs' \<and> foot_fields h ts vs' \<subseteq> B"
  proof (rule Cons.IH)
    fix G u w assume G: "map_of ts G = Some u" "map_of vs' G = Some w"
    then have "G \<noteq> F" using notin by (auto dest: map_of_SomeD simp: rev_image_eqI)
    then show "rep h u w \<and> foot h u w \<subseteq> B"
      using Cons.prems(3) [of G u w] G p vs by simp
  qed (use Cons.prems(2) p names in auto)
  then show ?case using Cons.prems(3) [of F t v] p vs by simp
qed simp

lemma flat_foot:
  "flat T \<Longrightarrow> has_type X T t \<Longrightarrow> foot h t v = {}"
  "list_all (\<lambda>(F, T). flat T) Fs \<Longrightarrow> fields_type X Fs ts \<Longrightarrow> foot_fields h ts vs = {}"
  by (induction X T t and X Fs ts arbitrary: v and vs rule: has_type_fields_type.induct)
    (auto split: tree.splits list.splits gval.splits)

end
