(* ===== verification/Deep_Copy.thy ===== *)
theory Deep_Copy
  imports Go_Memory
begin

text \<open>
  The statements that \<open>deepcopy-gen\<close> emits, as routines on the store, and the contract of a deep
  copy. A routine gets a value and returns its copy with the new store. \<open>deep_copies P c\<close>: on every
  value that stands for a tree of \<open>P\<close> the routine returns (it does not panic), it only appends to
  the store, the copy stands for the same tree, and all that the copy reaches was allocated by the
  routine. One rule per statement shows that it is a deep copy when its parts are; the rule for a
  whole routine asks for a statement for every field whose type is not flat.
\<close>

section \<open>Statements of the generated code\<close>

type_synonym copier = "heap \<Rightarrow> gval \<Rightarrow> (heap \<times> gval) option"

text \<open>\<open>new(T)\<close> and \<open>make([]T, n)\<close> append a cell. Its zero value is overwritten before it is read,
  so it is not spelled out, except in a slice of pointers, whose elements may stay nil.\<close>

definition zero_struct :: gval where
  "zero_struct = Struct []"

definition assign :: copier where
  "assign h v = Some (h, v)"

text \<open>\<open>if in.F != nil { ... }\<close>: otherwise the field keeps the nil that \<open>*out = *in\<close> gave it.\<close>

definition if_non_nil :: "copier \<Rightarrow> copier" where
  "if_non_nil c h v = (if is_nil v then Some (h, v) else c h v)"

text \<open>\<open>*out = new(T); (*in).DeepCopyInto(*out)\<close>, and \<open>*out = new(T); **out = **in\<close>.\<close>

definition new_into :: "copier \<Rightarrow> copier" where
  "new_into c h v = (case v of
     Ptr (Some a) \<Rightarrow>
       (let b = length h; h1 = h @ [Cell zero_struct] in
        do {
          x \<leftarrow> load h1 a;
          (h2, y) \<leftarrow> c h1 x;
          Some (h2[b := Cell y], Ptr (Some b))
        })
   | _ \<Rightarrow> None)"

definition new_assign :: copier where
  "new_assign = new_into assign"

text \<open>\<open>*out = make([]T, len(*in)); copy(*out, *in)\<close>.\<close>

definition make_copy :: copier where
  "make_copy h v = (case v of
     SliceV (Some s) \<Rightarrow>
       do {
         xs \<leftarrow> load_arr h s;
         Some (h @ [Arr xs], SliceV (Some (length h, 0, length xs)))
       }
   | _ \<Rightarrow> None)"

text \<open>\<open>*out = make([]T, len(*in)); for i := range *in { ... }\<close>: the body reads element \<open>i\<close> of the
  one array and may store in element \<open>i\<close> of the other.\<close>

definition elem_at :: "heap \<Rightarrow> addr \<times> nat \<times> nat \<Rightarrow> nat \<Rightarrow> gval option" where
  "elem_at h s i = do { xs \<leftarrow> load_arr h s; if i < length xs then Some (xs ! i) else None }"

definition store_elem :: "heap \<Rightarrow> addr \<Rightarrow> nat \<Rightarrow> gval \<Rightarrow> heap option" where
  "store_elem h b i v =
     (if b < length h
      then case h ! b of
          Arr vs \<Rightarrow> if i < length vs then Some (h[b := Arr (vs[i := v])]) else None
        | _ \<Rightarrow> None
      else None)"

definition body_into :: "copier \<Rightarrow> heap \<Rightarrow> addr \<times> nat \<times> nat \<Rightarrow> addr \<Rightarrow> nat \<Rightarrow> heap option" where
  "body_into c h s b i = do {
     x \<leftarrow> elem_at h s i;
     (h', y) \<leftarrow> c h x;
     store_elem h' b i y
   }"

definition body_ptr :: "copier \<Rightarrow> heap \<Rightarrow> addr \<times> nat \<times> nat \<Rightarrow> addr \<Rightarrow> nat \<Rightarrow> heap option" where
  "body_ptr c h s b i = do {
     x \<leftarrow> elem_at h s i;
     if is_nil x then Some h
     else do {
       (h', y) \<leftarrow> c h x;
       store_elem h' b i y
     }
   }"

fun range_loop :: "(heap \<Rightarrow> nat \<Rightarrow> heap option) \<Rightarrow> nat list \<Rightarrow> heap \<Rightarrow> heap option" where
  "range_loop body [] h = Some h"
| "range_loop body (i # is) h = do { h' \<leftarrow> body h i; range_loop body is h' }"

definition make_each :: "copier \<Rightarrow> copier" where
  "make_each c h v = (case v of
     SliceV (Some (a, off, n)) \<Rightarrow>
       (let b = length h; h1 = h @ [Arr (replicate n zero_struct)] in
        do {
          h' \<leftarrow> range_loop (\<lambda>h. body_into c h (a, off, n) b) [0..<n] h1;
          Some (h', SliceV (Some (b, 0, n)))
        })
   | _ \<Rightarrow> None)"

definition make_each_ptr :: "copier \<Rightarrow> copier" where
  "make_each_ptr c h v = (case v of
     SliceV (Some (a, off, n)) \<Rightarrow>
       (let b = length h; h1 = h @ [Arr (replicate n (Ptr None))] in
        do {
          h' \<leftarrow> range_loop (\<lambda>h. body_ptr c h (a, off, n) b) [0..<n] h1;
          Some (h', SliceV (Some (b, 0, n)))
        })
   | _ \<Rightarrow> None)"

text \<open>\<open>*out = make(map[string]string, len(*in)); for key, val := range *in { (*out)[key] = val }\<close>.\<close>

definition make_map :: copier where
  "make_map h v = (case v of
     MapV (Some a) \<Rightarrow>
       do {
         kvs \<leftarrow> load_tab h a;
         Some (h @ [Tab (fold (\<lambda>(k, x) m. AList.update k x m) kvs [])], MapV (Some (length h)))
       }
   | _ \<Rightarrow> None)"

text \<open>A whole \<open>DeepCopyInto\<close>: \<open>*out = *in\<close>, then the statements, each for one field.\<close>

fun get_field :: "string \<Rightarrow> gval \<Rightarrow> gval option" where
  "get_field F (Struct vs) = map_of vs F"
| "get_field F _ = None"

fun set_field :: "string \<Rightarrow> gval \<Rightarrow> gval \<Rightarrow> gval option" where
  "set_field F w (Struct vs) =
     (if F \<in> set (map fst vs) then Some (Struct (AList.update F w vs)) else None)"
| "set_field F w _ = None"

fun run_stmts :: "(string \<times> copier) list \<Rightarrow> gval \<Rightarrow> heap \<Rightarrow> gval \<Rightarrow> (heap \<times> gval) option" where
  "run_stmts [] src h out = Some (h, out)"
| "run_stmts ((F, c) # ss) src h out = do {
     v \<leftarrow> get_field F src;
     (h', w) \<leftarrow> c h v;
     out' \<leftarrow> set_field F w out;
     run_stmts ss src h' out'
   }"

definition deep_copy_into :: "(string \<times> copier) list \<Rightarrow> copier" where
  "deep_copy_into ss h src = run_stmts ss src h src"

text \<open>\<open>func (in *T) DeepCopy() *T\<close>, and \<open>DeepCopyObject\<close>, which answers with an interface value:
  nil, or a dynamic type with a pointer.\<close>

definition deep_copy :: "copier \<Rightarrow> copier" where
  "deep_copy into h v = (if is_nil v then Some (h, Ptr None) else new_into into h v)"

type_synonym iface = "(string \<times> gval) option"

definition deep_copy_object :: "string \<Rightarrow> copier \<Rightarrow> heap \<Rightarrow> gval \<Rightarrow> (heap \<times> iface) option" where
  "deep_copy_object T copy h v = do {
     (h', c) \<leftarrow> copy h v;
     Some (h', if \<not> is_nil c then Some (T, c) else None)
   }"

section \<open>The contract\<close>

definition copied :: "tree \<Rightarrow> heap \<Rightarrow> heap \<times> gval \<Rightarrow> bool" where
  "copied t h r \<longleftrightarrow> (case r of (h', w) \<Rightarrow>
     prefix h h' \<and> rep h' t w \<and> foot h' t w \<subseteq> {length h..<length h'})"

definition deep_copies :: "(tree \<Rightarrow> bool) \<Rightarrow> copier \<Rightarrow> bool" where
  "deep_copies P c \<longleftrightarrow>
     (\<forall>h t v. P t \<longrightarrow> rep h t v \<longrightarrow> (\<exists>h' w. c h v = Some (h', w) \<and> copied t h (h', w)))"

fun ptr_to :: "(tree \<Rightarrow> bool) \<Rightarrow> tree \<Rightarrow> bool" where
  "ptr_to P (PtrT p) = (case p of None \<Rightarrow> True | Some t \<Rightarrow> P t)"
| "ptr_to P _ = False"

fun slice_of :: "(tree \<Rightarrow> bool) \<Rightarrow> tree \<Rightarrow> bool" where
  "slice_of P (SliceT s) = (case s of None \<Rightarrow> True | Some ts \<Rightarrow> list_all P ts)"
| "slice_of P _ = False"

fun a_map :: "tree \<Rightarrow> bool" where
  "a_map (MapT m) = True"
| "a_map _ = False"

named_theorems deep_copy_rules \<open>the statements of the generated code are deep copies\<close>

lemma deep_copiesE:
  assumes "deep_copies P c" and "P t" and "rep h t v"
  obtains h' w where "c h v = Some (h', w)" and "prefix h h'" and "rep h' t w"
    and "foot h' t w \<subseteq> {length h..<length h'}"
  using assms by (fastforce simp: deep_copies_def copied_def)

lemma deep_copiesI:
  assumes "\<And>h t v. P t \<Longrightarrow> rep h t v \<Longrightarrow> \<exists>h' w. c h v = Some (h', w) \<and> copied t h (h', w)"
  shows "deep_copies P c"
  using assms by (simp add: deep_copies_def)

lemma prefix_len: "prefix h h' \<Longrightarrow> length h \<le> length h'"
  by (rule prefix_length_le)

lemma prefix_update_fresh: "prefix h h' \<Longrightarrow> length h \<le> b \<Longrightarrow> prefix h (h'[b := c])"
  by (auto simp: prefix_def list_update_append)

text \<open>The same type, by the predicates of the rules.\<close>

lemma has_type_TPtr: "has_type X (TPtr T) = ptr_to (has_type X T)"
  by (rule ext) (simp split: tree.split option.split)

lemma has_type_TSlice: "has_type X (TSlice T) = slice_of (has_type X T)"
  by (rule ext) (simp split: tree.split option.split)

lemma has_type_TMap: "has_type X TMap = a_map"
  by (rule ext) (simp split: tree.split)

lemma has_type_TLib: "has_type X (TLib n) = X n"
  by (rule ext) simp

lemmas has_type_kinds = has_type_TPtr has_type_TSlice has_type_TMap has_type_TLib

section \<open>One rule per statement\<close>

lemma nil_foot: "rep h t v \<Longrightarrow> is_nil v \<Longrightarrow> foot h t v = {}"
  by (cases "(h, t, v)" rule: rep.cases) (auto split: gval.splits option.splits)

lemma copied_flat: "rep h t v \<Longrightarrow> foot h t v = {} \<Longrightarrow> copied t h (h, v)"
  by (simp add: copied_def)

lemma deep_assign [deep_copy_rules]: "flat T \<Longrightarrow> deep_copies (has_type X T) assign"
  by (auto intro!: deep_copiesI copied_flat simp: assign_def flat_foot)

lemma if_non_nilI:
  assumes "\<And>h t v. P t \<Longrightarrow> rep h t v \<Longrightarrow> \<not> is_nil v
    \<Longrightarrow> \<exists>h' w. c h v = Some (h', w) \<and> copied t h (h', w)"
  shows "deep_copies P (if_non_nil c)"
  using assms by (auto intro!: deep_copiesI copied_flat simp: if_non_nil_def nil_foot)

lemma deep_if_non_nil: "deep_copies P c \<Longrightarrow> deep_copies P (if_non_nil c)"
  by (rule if_non_nilI) (auto simp: deep_copies_def)

text \<open>The cell of the copy is fresh, and nothing that the copy holds reaches it.\<close>

lemma new_into_root:
  assumes c: "deep_copies P c" and P: "P t" and r: "rep h (PtrT (Some t)) v"
  shows "\<exists>h' y. new_into c h v = Some (h', Ptr (Some (length h))) \<and> prefix h h' \<and>
    load h' (length h) = Some y \<and> rep h' t y \<and> foot h' t y \<subseteq> {length h<..<length h'}"
proof -
  define h1 where "h1 = h @ [Cell zero_struct]"
  from r obtain a x where v: "v = Ptr (Some a)" and x: "load h a = Some x" and rx: "rep h t x"
    by (auto split: gval.splits option.splits)
  have pre: "prefix h h1" by (simp add: h1_def)
  have x1: "load h1 a = Some x"
    using x by (auto simp: load_def h1_def nth_append split: if_splits)
  obtain h2 y where cy: "c h1 x = Some (h2, y)" and p2: "prefix h1 h2" and ry: "rep h2 t y"
    and fy: "foot h2 t y \<subseteq> {length h1..<length h2}"
    using deep_copiesE [OF c P rep_prefix(1) [OF pre rx]] by blast
  define h3 where "h3 = h2[length h := Cell y]"
  have b: "length h < length h2" using prefix_len [OF p2] by (simp add: h1_def)
  have "length h \<notin> foot h2 t y" using fy by (auto simp: h1_def)
  then have "rep h3 t y \<and> foot h3 t y = foot h2 t y"
    using rep_frame(1) [OF ry agree_update] by (simp add: h3_def)
  moreover have "load h3 (length h) = Some y" using b by (simp add: load_def h3_def)
  moreover have "prefix h h3"
    using prefix_order.trans [OF pre p2] by (simp add: h3_def prefix_update_fresh)
  moreover have "new_into c h v = Some (h3, Ptr (Some (length h)))"
    using v x1 cy by (simp add: new_into_def h1_def h3_def Let_def)
  moreover have "foot h2 t y \<subseteq> {length h<..<length h3}"
    using fy by (auto simp: h1_def h3_def)
  ultimately show ?thesis by blast
qed

lemma new_into_copied:
  assumes c: "deep_copies P c" and P: "P t" and r: "rep h (PtrT (Some t)) v"
  shows "\<exists>h' w. new_into c h v = Some (h', w) \<and> \<not> is_nil w \<and> copied (PtrT (Some t)) h (h', w)"
proof -
  obtain h' y where new: "new_into c h v = Some (h', Ptr (Some (length h)))" and "prefix h h'"
    and y: "load h' (length h) = Some y" and "rep h' t y" and "foot h' t y \<subseteq> {length h<..<length h'}"
    using new_into_root [OF assms] by blast
  then have "copied (PtrT (Some t)) h (h', Ptr (Some (length h)))"
    using load_less [OF y] by (auto simp: copied_def)
  with new show ?thesis by simp
qed

lemma deep_new_into [deep_copy_rules]:
  assumes "deep_copies P c"
  shows "deep_copies (ptr_to P) (if_non_nil (new_into c))"
proof (rule if_non_nilI)
  fix h t v assume t: "ptr_to P t" and r: "rep h t v" and v: "\<not> is_nil v"
  then obtain t' where "t = PtrT (Some t')" "P t'"
    by (cases t) (auto split: option.splits)
  then show "\<exists>h' w. new_into c h v = Some (h', w) \<and> copied t h (h', w)"
    using new_into_copied [OF assms] r by blast
qed

lemma deep_new_assign [deep_copy_rules]:
  "flat T \<Longrightarrow> deep_copies (ptr_to (has_type X T)) (if_non_nil new_assign)"
  unfolding new_assign_def by (intro deep_new_into deep_assign)

lemma deep_deep_copy [deep_copy_rules]:
  assumes "deep_copies P c"
  shows "deep_copies (ptr_to P) (deep_copy c)"
proof -
  have "deep_copy c h v = if_non_nil (new_into c) h v" if "rep h t v" "ptr_to P t" for h t v
    using that by (cases "(h, t, v)" rule: rep.cases) (auto simp: deep_copy_def if_non_nil_def split: gval.splits option.splits)
  then show ?thesis using deep_new_into [OF assms] by (auto simp: deep_copies_def)
qed

text \<open>\<open>DeepCopyObject\<close> never answers with an interface that holds a nil pointer.\<close>

definition object_copies ::
  "string \<Rightarrow> (tree \<Rightarrow> bool) \<Rightarrow> (heap \<Rightarrow> gval \<Rightarrow> (heap \<times> iface) option) \<Rightarrow> bool" where
  "object_copies n P f \<longleftrightarrow> (\<forall>h t v. P t \<longrightarrow> rep h t v \<longrightarrow> (\<exists>h' i. f h v = Some (h', i) \<and>
     (case i of
        None \<Rightarrow> v = Ptr None \<and> h' = h
      | Some (m, w) \<Rightarrow> m = n \<and> v \<noteq> Ptr None \<and> w \<noteq> Ptr None \<and> copied t h (h', w))))"

lemma deep_copy_object_copies [deep_copy_rules]:
  assumes "deep_copies P c"
  shows "object_copies n (ptr_to P) (deep_copy_object n (deep_copy c))"
  unfolding object_copies_def
proof (intro allI impI)
  fix h t v assume t: "ptr_to P t" and r: "rep h t v"
  then obtain p where p: "t = PtrT p" by (cases t) auto
  show "\<exists>h' i. deep_copy_object n (deep_copy c) h v = Some (h', i) \<and>
     (case i of
        None \<Rightarrow> v = Ptr None \<and> h' = h
      | Some (m, w) \<Rightarrow> m = n \<and> v \<noteq> Ptr None \<and> w \<noteq> Ptr None \<and> copied t h (h', w))"
  proof (cases p)
    case None
    then show ?thesis using r p by (simp add: deep_copy_object_def deep_copy_def)
  next
    case (Some t')
    then have r': "rep h (PtrT (Some t')) v" and P: "P t'" using t r p by auto
    obtain h' w where new: "new_into c h v = Some (h', w)" "\<not> is_nil w"
      and cp: "copied (PtrT (Some t')) h (h', w)"
      using new_into_copied [OF assms P r'] by blast
    have v: "\<not> is_nil v" "v \<noteq> Ptr None" using r' by (auto split: gval.splits option.splits)
    have "w \<noteq> Ptr None" using new(2) by auto
    then show ?thesis
      using v new cp p Some by (simp add: deep_copy_object_def deep_copy_def)
  qed
qed

lemma update_all_entries:
  assumes "distinct (map fst (m @ kvs))"
  shows "fold (\<lambda>(k, x) m. AList.update k x m) kvs m = m @ kvs"
  using assms
proof (induction kvs arbitrary: m)
  case (Cons p kvs)
  obtain k x where p: "p = (k, x)" by (cases p)
  have "AList.update k x m = m @ [(k, x)]"
    using Cons.prems p by (induction m) auto
  then show ?case using Cons.IH [of "m @ [(k, x)]"] Cons.prems p by simp
qed simp

lemma deep_make_map [deep_copy_rules]: "deep_copies a_map (if_non_nil make_map)"
proof (rule if_non_nilI)
  fix h t v assume t: "a_map t" and r: "rep h t v" and v: "\<not> is_nil v"
  then obtain kvs a kvs' where t: "t = MapT (Some kvs)" and v: "v = MapV (Some a)"
    and a: "load_tab h a = Some kvs'" and d: "distinct (map fst kvs')" "set kvs' = set kvs"
    by (cases "(h, t, v)" rule: rep.cases) (auto split: option.splits gval.splits)
  have "fold (\<lambda>(k, x) m. AList.update k x m) kvs' [] = kvs'"
    using update_all_entries [of "[]" kvs'] d by simp
  then show "\<exists>h' w. make_map h v = Some (h', w) \<and> copied t h (h', w)"
    using t v a d by (simp add: make_map_def copied_def load_tab_def)
qed

lemma rep_list_flat:
  assumes "flat T" and "list_all (has_type X T) ts"
  shows "foot_list h ts vs = {}"
  using assms(2)
  by (induction ts arbitrary: vs) (auto split: list.splits simp: flat_foot(1) [OF assms(1)])

lemma deep_make_copy [deep_copy_rules]:
  assumes "flat T"
  shows "deep_copies (slice_of (has_type X T)) (if_non_nil make_copy)"
proof (rule if_non_nilI)
  fix h t v assume t: "slice_of (has_type X T) t" and r: "rep h t v" and v: "\<not> is_nil v"
  then obtain ts s vs where t: "t = SliceT (Some ts)" and ty: "list_all (has_type X T) ts"
    and v: "v = SliceV (Some s)" and s: "load_arr h s = Some vs" and rl: "rep_list h ts vs"
    by (cases t) (auto split: option.splits gval.splits)
  have "rep_list (h @ [Arr vs]) ts vs"
    using rep_list_prefix(1) [OF _ rl] by simp
  then show "\<exists>h' w. make_copy h v = Some (h', w) \<and> copied t h (h', w)"
    using t v s rep_list_flat [OF assms ty]
    by (simp add: make_copy_def copied_def load_arr_def)
qed

section \<open>The loops over a slice\<close>

lemma rep_list_nth:
  "rep_list h ts vs \<longleftrightarrow> length ts = length vs \<and> (\<forall>i < length ts. rep h (ts ! i) (vs ! i))"
  by (induction ts arbitrary: vs) (auto split: list.splits simp: All_less_Suc2 less_Suc_eq_0_disj)

lemma foot_list_nth:
  "length ts = length vs \<Longrightarrow> foot_list h ts vs = (\<Union>i < length ts. foot h (ts ! i) (vs ! i))"
proof (induction ts arbitrary: vs)
  case (Cons t ts)
  then obtain v vs' where "vs = v # vs'" "length ts = length vs'" by (cases vs) auto
  then show ?case using Cons.IH [of vs'] by (auto simp: lessThan_Suc_eq_insert_0)
qed simp

text \<open>After \<open>k\<close> rounds: the first \<open>k\<close> elements are copied, the others still have their zero
  value.\<close>

definition copying :: "heap \<Rightarrow> gval \<Rightarrow> tree list \<Rightarrow> nat \<Rightarrow> heap \<Rightarrow> bool" where
  "copying h0 z ts k h \<longleftrightarrow> prefix h0 h \<and> length h0 < length h \<and>
     (\<exists>ws. h ! length h0 = Arr ws \<and> length ws = length ts \<and>
       (\<forall>i < k. rep h (ts ! i) (ws ! i) \<and>
         foot h (ts ! i) (ws ! i) \<subseteq> {length h0<..<length h}) \<and>
       (\<forall>i < length ts. k \<le> i \<longrightarrow> ws ! i = z))"

lemma copying_start: "copying h0 z ts 0 (h0 @ [Arr (replicate (length ts) z)])"
  by (simp add: copying_def)

lemma copying_skip:
  assumes "copying h0 z ts k h" and "k < length ts" and "rep h0 (ts ! k) z" and "is_nil z"
  shows "copying h0 z ts (Suc k) h"
proof -
  have pre: "prefix h0 h" using assms(1) by (simp add: copying_def)
  have "rep h (ts ! k) z" "foot h (ts ! k) z = {}"
    using rep_prefix [OF pre assms(3)] nil_foot [OF assms(3,4)] by auto
  then show ?thesis using assms(1,2) by (auto simp: copying_def less_Suc_eq)
qed

lemma copying_store:
  assumes inv: "copying h0 z ts k h" and k: "k < length ts" and pre: "prefix h h2"
    and y: "rep h2 (ts ! k) y" "foot h2 (ts ! k) y \<subseteq> {length h..<length h2}"
  shows "\<exists>h3. store_elem h2 (length h0) k y = Some h3 \<and> copying h0 z ts (Suc k) h3"
proof -
  let ?b = "length h0"
  obtain ws where ws: "h ! ?b = Arr ws" "length ws = length ts"
    and old: "\<And>i. i < k \<Longrightarrow> rep h (ts ! i) (ws ! i) \<and> foot h (ts ! i) (ws ! i) \<subseteq> {?b<..<length h}"
    and zero: "\<And>i. i < length ts \<Longrightarrow> k \<le> i \<Longrightarrow> ws ! i = z"
    and b: "?b < length h" and p0: "prefix h0 h"
    using inv unfolding copying_def by blast
  have b2: "?b < length h2" "h2 ! ?b = Arr ws"
    using pre b ws by (auto simp: prefix_def nth_append)
  define h3 where "h3 = h2[?b := Arr (ws[k := y])]"
  have keep: "rep h3 t w \<and> foot h3 t w \<subseteq> {?b<..<length h3}"
    if "rep h2 t w" "foot h2 t w \<subseteq> {?b<..<length h2}" for t w
  proof -
    have "?b \<notin> foot h2 t w" using that(2) by auto
    then show ?thesis
      using rep_frame(1) [OF that(1) agree_update [of ?b]] that(2) by (simp add: h3_def)
  qed
  have "rep h3 (ts ! i) (ws ! i) \<and> foot h3 (ts ! i) (ws ! i) \<subseteq> {?b<..<length h3}" if "i < k" for i
  proof (rule keep)
    show "rep h2 (ts ! i) (ws ! i)" using rep_prefix(1) [OF pre] old [OF that] by blast
    show "foot h2 (ts ! i) (ws ! i) \<subseteq> {?b<..<length h2}"
      using rep_prefix(2) [OF pre] old [OF that] prefix_len [OF pre] by fastforce
  qed
  moreover have "rep h3 (ts ! k) y \<and> foot h3 (ts ! k) y \<subseteq> {?b<..<length h3}"
    using y b by (intro keep) auto
  moreover have "prefix h0 h3"
    using prefix_order.trans [OF p0 pre] by (simp add: h3_def prefix_update_fresh)
  moreover have "h3 ! ?b = Arr (ws[k := y])" using b2 by (simp add: h3_def)
  ultimately have "copying h0 z ts (Suc k) h3"
    using b2 ws zero k
    by (simp add: copying_def h3_def less_Suc_eq all_conj_distrib nth_list_update)
  then show ?thesis using b2 ws k by (simp add: store_elem_def h3_def)
qed

lemma range_loop_copying:
  assumes step: "\<And>k h. k < length ts \<Longrightarrow> copying h0 z ts k h
      \<Longrightarrow> \<exists>h'. body h k = Some h' \<and> copying h0 z ts (Suc k) h'"
    and "copying h0 z ts k h" and "k \<le> length ts"
  shows "\<exists>h'. range_loop body [k..<length ts] h = Some h' \<and> copying h0 z ts (length ts) h'"
  using assms(2,3)
proof (induction "length ts - k" arbitrary: k h)
  case (Suc n)
  then have k: "k < length ts" by simp
  then obtain h' where "body h k = Some h'" "copying h0 z ts (Suc k) h'"
    using step Suc.prems(1) by blast
  moreover have "[k..<length ts] = k # [Suc k..<length ts]" using k by (rule upt_conv_Cons)
  ultimately show ?case using Suc.hyps(1) [of "Suc k" h'] Suc.hyps(2) k by auto
qed auto

lemma copying_done:
  assumes "copying h0 z ts (length ts) h"
  shows "copied (SliceT (Some ts)) h0 (h, SliceV (Some (length h0, 0, length ts)))"
proof -
  obtain ws where ws: "h ! length h0 = Arr ws" "length ws = length ts"
    and el: "\<And>i. i < length ts \<Longrightarrow> rep h (ts ! i) (ws ! i) \<and>
      foot h (ts ! i) (ws ! i) \<subseteq> {length h0<..<length h}"
    and b: "length h0 < length h" "prefix h0 h"
    using assms unfolding copying_def by blast
  have "load_arr h (length h0, 0, length ts) = Some ws" "rep_list h ts ws"
    using ws b el by (simp_all add: load_arr_def rep_list_nth)
  moreover have "foot_list h ts ws \<subseteq> {length h0<..<length h}"
    using ws el by (auto simp: foot_list_nth)
  ultimately show ?thesis using b by (auto simp: copied_def)
qed

lemma slice_cases:
  assumes "slice_of P t" and "rep h t v" and "\<not> is_nil v"
  obtains ts a off vs where "t = SliceT (Some ts)" and "v = SliceV (Some (a, off, length ts))"
    and "load_arr h (a, off, length ts) = Some vs" and "length vs = length ts"
    and "\<And>k. k < length ts \<Longrightarrow> P (ts ! k) \<and> rep h (ts ! k) (vs ! k)"
proof -
  from assms obtain ts s vs where t: "t = SliceT (Some ts)" and P: "list_all P ts"
    and v: "v = SliceV (Some s)" and s: "load_arr h s = Some vs" and r: "rep_list h ts vs"
    by (cases t) (auto split: option.splits gval.splits)
  obtain a off n where sn: "s = (a, off, n)" by (cases s)
  have "n = length vs" using s sn by (auto simp: load_arr_def split: if_splits cell.splits)
  then show thesis
    using that [OF t] v s sn P r by (simp add: rep_list_nth list_all_length)
qed

lemma elem_at_prefix:
  assumes "prefix h0 h" and s: "load_arr h0 s = Some vs" and "k < length vs"
  shows "elem_at h s k = Some (vs ! k)"
proof -
  have "load_arr h s = Some vs"
    using assms(1) s load_arr_less [OF s] by (cases s) (auto simp: load_arr_def prefix_def nth_append)
  then show ?thesis using assms(3) by (simp add: elem_at_def)
qed

lemma deep_make_each [deep_copy_rules]:
  assumes c: "deep_copies P c"
  shows "deep_copies (slice_of P) (if_non_nil (make_each c))"
proof (rule if_non_nilI)
  fix h t v assume A: "slice_of P t" "rep h t v" "\<not> is_nil v"
  obtain ts a off vs where t: "t = SliceT (Some ts)" and v: "v = SliceV (Some (a, off, length ts))"
    and s: "load_arr h (a, off, length ts) = Some vs" and l: "length vs = length ts"
    and el: "\<And>k. k < length ts \<Longrightarrow> P (ts ! k) \<and> rep h (ts ! k) (vs ! k)"
    using slice_cases [OF A] by blast
  let ?body = "\<lambda>h'. body_into c h' (a, off, length ts) (length h)"
  have "\<exists>h'. ?body hk k = Some h' \<and> copying h zero_struct ts (Suc k) h'"
    if k: "k < length ts" and inv: "copying h zero_struct ts k hk" for k hk
  proof -
    have pre: "prefix h hk" using inv by (simp add: copying_def)
    then have "rep hk (ts ! k) (vs ! k)" using rep_prefix(1) el [OF k] by blast
    then obtain h2 y where "c hk (vs ! k) = Some (h2, y)" and "prefix hk h2"
      and "rep h2 (ts ! k) y" and "foot h2 (ts ! k) y \<subseteq> {length hk..<length h2}"
      using deep_copiesE [OF c] el [OF k] by metis
    then show ?thesis
      using copying_store [OF inv k] elem_at_prefix [OF pre s] k l by (simp add: body_into_def)
  qed
  then obtain h' where "range_loop ?body [0..<length ts] (h @ [Arr (replicate (length ts) zero_struct)])
      = Some h'" and "copying h zero_struct ts (length ts) h'"
    using range_loop_copying [OF _ copying_start, where body = ?body] by blast
  then show "\<exists>h' w. make_each c h v = Some (h', w) \<and> copied t h (h', w)"
    using copying_done t v by (simp add: make_each_def Let_def)
qed

lemma deep_make_each_ptr [deep_copy_rules]:
  assumes c: "deep_copies (ptr_to P) (if_non_nil c)"
  shows "deep_copies (slice_of (ptr_to P)) (if_non_nil (make_each_ptr c))"
proof (rule if_non_nilI)
  fix h t v assume A: "slice_of (ptr_to P) t" "rep h t v" "\<not> is_nil v"
  obtain ts a off vs where t: "t = SliceT (Some ts)" and v: "v = SliceV (Some (a, off, length ts))"
    and s: "load_arr h (a, off, length ts) = Some vs" and l: "length vs = length ts"
    and el: "\<And>k. k < length ts \<Longrightarrow> ptr_to P (ts ! k) \<and> rep h (ts ! k) (vs ! k)"
    using slice_cases [OF A] by blast
  let ?body = "\<lambda>h'. body_ptr c h' (a, off, length ts) (length h)"
  have "\<exists>h'. ?body hk k = Some h' \<and> copying h (Ptr None) ts (Suc k) h'"
    if k: "k < length ts" and inv: "copying h (Ptr None) ts k hk" for k hk
  proof -
    have pre: "prefix h hk" using inv by (simp add: copying_def)
    then have r: "rep hk (ts ! k) (vs ! k)" using rep_prefix(1) el [OF k] by blast
    then obtain h2 y where cy: "if_non_nil c hk (vs ! k) = Some (h2, y)" and p: "prefix hk h2"
      and y: "rep h2 (ts ! k) y" "foot h2 (ts ! k) y \<subseteq> {length hk..<length h2}"
      using deep_copiesE [OF c] el [OF k] by metis
    note at = elem_at_prefix [OF pre s, of k]
    show ?thesis
    proof (cases "is_nil (vs ! k)")
      case True
      then have "vs ! k = Ptr None"
        using el [OF k] by (cases "ts ! k") (auto split: option.splits gval.splits)
      then show ?thesis
        using copying_skip [OF inv k] el [OF k] at k l by (simp add: body_ptr_def)
    next
      case False
      then show ?thesis
        using copying_store [OF inv k p y] cy at k l by (simp add: body_ptr_def if_non_nil_def)
    qed
  qed
  then obtain h' where "range_loop ?body [0..<length ts] (h @ [Arr (replicate (length ts) (Ptr None))])
      = Some h'" and "copying h (Ptr None) ts (length ts) h'"
    using range_loop_copying [OF _ copying_start, where body = ?body] by blast
  then show "\<exists>h' w. make_each_ptr c h v = Some (h', w) \<and> copied t h (h', w)"
    using copying_done t v by (simp add: make_each_ptr_def Let_def)
qed

section \<open>A whole routine\<close>

lemma run_stmts_ok:
  assumes "distinct (map fst ss)" and "prefix h0 h" and "map fst ws = map fst vs"
    and "\<And>F c. (F, c) \<in> set ss \<Longrightarrow> \<exists>t v P. map_of ts F = Some t \<and> map_of vs F = Some v \<and>
           P t \<and> rep h0 t v \<and> deep_copies P c"
  shows "\<exists>h' ws'. run_stmts ss (Struct vs) h (Struct ws) = Some (h', Struct ws') \<and> prefix h h' \<and>
     map fst ws' = map fst vs \<and>
     (\<forall>F. F \<notin> fst ` set ss \<longrightarrow> map_of ws' F = map_of ws F) \<and>
     (\<forall>F t w. F \<in> fst ` set ss \<longrightarrow> map_of ts F = Some t \<longrightarrow> map_of ws' F = Some w \<longrightarrow>
        rep h' t w \<and> foot h' t w \<subseteq> {length h..<length h'})"
  using assms
proof (induction ss arbitrary: h ws)
  case (Cons p ss)
  obtain F c where p: "p = (F, c)" by (cases p)
  obtain t v P where tv: "map_of ts F = Some t" "map_of vs F = Some v" "P t" "rep h0 t v"
    and c: "deep_copies P c"
    using Cons.prems(4) p by (meson list.set_intros(1))
  obtain h1 w where cw: "c h v = Some (h1, w)" and p1: "prefix h h1" and w: "rep h1 t w"
    and fw: "foot h1 t w \<subseteq> {length h..<length h1}"
    using deep_copiesE [OF c tv(3) rep_prefix(1) [OF Cons.prems(2) tv(4)]] by blast
  let ?ws = "AList.update F w ws"
  have Fin: "F \<in> set (map fst ws)"
    using tv(2) Cons.prems(3) by (metis map_of_None_names option.distinct(1))
  have names: "map fst ?ws = map fst vs" using Fin Cons.prems(3) by (simp add: update_keys)
  have "\<exists>h' ws'. run_stmts ss (Struct vs) h1 (Struct ?ws) = Some (h', Struct ws') \<and> prefix h1 h' \<and>
     map fst ws' = map fst vs \<and>
     (\<forall>F. F \<notin> fst ` set ss \<longrightarrow> map_of ws' F = map_of ?ws F) \<and>
     (\<forall>F t w. F \<in> fst ` set ss \<longrightarrow> map_of ts F = Some t \<longrightarrow> map_of ws' F = Some w \<longrightarrow>
        rep h' t w \<and> foot h' t w \<subseteq> {length h1..<length h'})"
    using Cons.prems p1 names
    by (intro Cons.IH) (auto intro: prefix_order.trans)
  then obtain h' ws' where rest: "run_stmts ss (Struct vs) h1 (Struct ?ws) = Some (h', Struct ws')"
    and p': "prefix h1 h'" and names': "map fst ws' = map fst vs"
    and other: "\<And>G. G \<notin> fst ` set ss \<Longrightarrow> map_of ws' G = map_of ?ws G"
    and done_: "\<And>G u x. G \<in> fst ` set ss \<Longrightarrow> map_of ts G = Some u \<Longrightarrow> map_of ws' G = Some x \<Longrightarrow>
        rep h' u x \<and> foot h' u x \<subseteq> {length h1..<length h'}"
    by blast
  have Fss: "F \<notin> fst ` set ss" using Cons.prems(1) p by auto
  have "run_stmts (p # ss) (Struct vs) h (Struct ws) = Some (h', Struct ws')"
    using p tv(2) cw Fin rest by simp
  moreover have "prefix h h'" using p1 p' by (rule prefix_order.trans)
  moreover have "map_of ws' G = map_of ws G" if "G \<notin> fst ` set (p # ss)" for G
    using that other p by (simp add: update_conv')
  moreover have "rep h' u x \<and> foot h' u x \<subseteq> {length h..<length h'}"
    if G: "G \<in> fst ` set (p # ss)" and u: "map_of ts G = Some u" and x: "map_of ws' G = Some x" for G u x
  proof (cases "G = F")
    case True
    then have "x = w" "u = t" using other [OF Fss] x u tv(1) by (auto simp: update_conv')
    then show ?thesis using rep_prefix [OF p' w] fw prefix_len [OF p'] by auto
  next
    case False
    then show ?thesis using done_ [OF _ u x] G p prefix_len [OF p1] by auto
  qed
  ultimately show ?case using names' by blast
qed auto

text \<open>Every field of the declared type either is flat or has a statement that is a deep copy at
  the type of the field.\<close>

theorem deep_copy_intoI:
  assumes names: "distinct (map fst Fs)" "distinct (map fst ss)" "set (map fst ss) \<subseteq> set (map fst Fs)"
    and fields: "\<And>F T. map_of Fs F = Some T \<Longrightarrow>
      (case map_of ss F of None \<Rightarrow> flat T | Some c \<Rightarrow> deep_copies (has_type X T) c)"
  shows "deep_copies (has_type X (TStruct Fs)) (deep_copy_into ss)"
proof (rule deep_copiesI)
  fix h t v assume ty: "has_type X (TStruct Fs) t" and r: "rep h t v"
  from ty r obtain ts vs where t: "t = StructT ts" and v: "v = Struct vs"
    and ty: "fields_type X Fs ts" and r: "rep_fields h ts vs"
    by (cases t) (auto split: gval.splits)
  note nts = fields_type_names [OF ty] and nvs = rep_fields_names [OF r]
  have stmt: "\<exists>t v P. map_of ts F = Some t \<and> map_of vs F = Some v \<and> P t \<and> rep h t v \<and> deep_copies P c"
    if "(F, c) \<in> set ss" for F c
  proof -
    have c: "map_of ss F = Some c" using that names(2) by simp
    have "F \<in> set (map fst Fs)" using that names(3) by force
    then obtain t v where tv: "map_of ts F = Some t" "map_of vs F = Some v"
      using nts nvs by (metis map_of_None_names not_None_eq)
    then obtain T where T: "map_of Fs F = Some T" "has_type X T t"
      using fields_type_map_of [OF ty] by blast
    then show ?thesis using tv rep_fields_map_of [OF r tv] fields [OF T(1)] c by auto
  qed
  obtain h' ws' where run: "run_stmts ss (Struct vs) h (Struct vs) = Some (h', Struct ws')"
    and pre: "prefix h h'" and nws: "map fst ws' = map fst vs"
    and other: "\<And>F. F \<notin> fst ` set ss \<Longrightarrow> map_of ws' F = map_of vs F"
    and done_: "\<And>F t w. F \<in> fst ` set ss \<Longrightarrow> map_of ts F = Some t \<Longrightarrow> map_of ws' F = Some w \<Longrightarrow>
        rep h' t w \<and> foot h' t w \<subseteq> {length h..<length h'}"
    using run_stmts_ok [OF names(2) prefix_order.refl refl stmt] by blast
  have "rep_fields h' ts ws' \<and> foot_fields h' ts ws' \<subseteq> {length h..<length h'}"
  proof (rule rep_fieldsI)
    fix F u w assume u: "map_of ts F = Some u" and w: "map_of ws' F = Some w"
    show "rep h' u w \<and> foot h' u w \<subseteq> {length h..<length h'}"
    proof (cases "F \<in> fst ` set ss")
      case False
      obtain T where T: "map_of Fs F = Some T" "has_type X T u"
        using fields_type_map_of [OF ty u] by blast
      have "map_of ss F = None" using False by (simp add: map_of_eq_None_iff)
      then have "flat T" using fields [OF T(1)] by simp
      moreover have "rep h u w" using rep_fields_map_of [OF r u] other [OF False] w by simp
      ultimately show ?thesis using rep_prefix [OF pre] flat_foot(1) [OF _ T(2)] by auto
    qed (use done_ u w in blast)
  qed (use nts nvs nws names(1) in auto)
  then show "\<exists>h' w. deep_copy_into ss h v = Some (h', w) \<and> copied t h (h', w)"
    using run pre t v by (simp add: deep_copy_into_def copied_def)
qed

section \<open>A copy and its original do not share memory\<close>

definition writes :: "(addr \<times> cell) list \<Rightarrow> heap \<Rightarrow> heap" where
  "writes ws h = fold (\<lambda>(a, c) h. h[a := c]) ws h"

lemma agree_writes: "fst ` set ws \<inter> A = {} \<Longrightarrow> agree A h (writes ws h)"
proof (induction ws arbitrary: h)
  case (Cons p ws)
  obtain a c where p: "p = (a, c)" by (cases p)
  have "agree A h (h[a := c])" using Cons.prems p by (intro agree_update) auto
  moreover have "agree A (h[a := c]) (writes ws (h[a := c]))" using Cons by auto
  ultimately show ?case by (auto simp: agree_def writes_def p)
qed (simp add: writes_def agree_def)

lemma rep_writes: "rep h t v \<Longrightarrow> fst ` set ws \<inter> foot h t v = {} \<Longrightarrow> rep (writes ws h) t v"
  using rep_frame(1) [OF _ agree_writes] by simp

lemma copied_independent:
  assumes c: "copied t h (h', w)" and v: "rep h t v"
  shows "foot h' t w \<inter> foot h' t v = {}"
    and "fst ` set ws \<subseteq> foot h' t w \<Longrightarrow> rep (writes ws h') t v"
    and "fst ` set ws \<subseteq> foot h t v \<Longrightarrow> rep (writes ws h') t w"
proof -
  have w: "rep h' t w" "foot h' t w \<subseteq> {length h..<length h'}" and pre: "prefix h h'"
    using c by (auto simp: copied_def)
  note v' = rep_prefix [OF pre v]
  show dis: "foot h' t w \<inter> foot h' t v = {}"
    using w(2) foot_bound(1) [OF v] unfolding v'(2) by force
  show "rep (writes ws h') t v" if "fst ` set ws \<subseteq> foot h' t w"
    by (rule rep_writes [OF v'(1)]) (use dis that in blast)
  show "rep (writes ws h') t w" if "fst ` set ws \<subseteq> foot h t v"
    by (rule rep_writes [OF w(1)]) (use dis that v'(2) in blast)
qed

end
