(* ===== verification/Api_Deep_Copy.thy ===== *)
theory Api_Deep_Copy
  imports Deep_Copy
begin

text \<open>
  The struct declarations of \<open>api/v1\<close> and of the KRM function interface as Go types, and their
  generated copy routines (\<open>zz_generated.deepcopy.go\<close> of both packages), statement by statement. The
  informer caches hand out shared objects, so the controllers work on \<open>DeepCopy\<close>: the aggregation
  controllers (\<open>copy := comp.DeepCopy()\<close>, \<open>symph.DeepCopy()\<close>), the symphony controller and the status
  write buffer. Everywhere else in this development such a copy is the record itself; this theory
  shows that this is right.

  \<^item> \<open>ty_T\<close> is the declaration of the struct \<open>T\<close>, with embedded structs under their type's name.
    \<open>metav1.TypeMeta\<close> and \<open>metav1.Duration\<close> are the structs that the sources use field by field;
    \<open>metav1.ObjectMeta\<close>, \<open>ListMeta\<close>, \<open>Time\<close>, \<open>corev1.ResourceRequirements\<close> and
    \<open>unstructured.Unstructured\<close> are types of other modules: their trees \<open>X\<close> and their copy routines
    \<open>L\<close> are parameters, with their documented contract in the locale \<open>library_copies\<close>. (The
    \<open>time.Time\<close> in a \<open>metav1.Time\<close> is immutable, and is an opaque primitive in a tree of it.)
  \<^item> \<open>T_DeepCopyInto\<close>, \<open>T_DeepCopy\<close> and \<open>T_DeepCopyObject\<close> are the three routines of \<open>T\<close>; the
    receiver and the result are struct values for the first and pointers for the others.
  \<^item> The theorems: every routine is a deep copy at the declared type (so a field that is added to a
    struct without running the generator breaks the proof), it never panics, it returns a value of
    the declared type, writes through the copy do not reach the original, and \<open>DeepCopyObject\<close> of a
    nil pointer is the nil interface.
\<close>

section \<open>Copy routines of other modules\<close>

record lib =
  lib_into :: "string \<Rightarrow> copier" \<comment> \<open>\<open>DeepCopyInto\<close>\<close>
  lib_copy :: "string \<Rightarrow> copier" \<comment> \<open>\<open>DeepCopy\<close>\<close>

definition ty_TypeMeta :: gty where
  "ty_TypeMeta = TStruct [(''Kind'', TPrim GString), (''APIVersion'', TPrim GString)]"

definition ty_Duration :: gty where
  "ty_Duration = TStruct [(''Duration'', TPrim GInt64)]"

section \<open>Struct declarations\<close>

definition ty_SynthesizerRef :: gty where
  "ty_SynthesizerRef = TStruct
     [(''Name'', TPrim GString)]"

definition ty_ResourceBinding :: gty where
  "ty_ResourceBinding = TStruct
     [(''Name'', TPrim GString),
      (''Namespace'', TPrim GString)]"

definition ty_Binding :: gty where
  "ty_Binding = TStruct
     [(''Key'', TPrim GString),
      (''Resource'', ty_ResourceBinding)]"

definition ty_EnvVar :: gty where
  "ty_EnvVar = TStruct
     [(''Name'', TPrim GString),
      (''Value'', TPrim GString)]"

definition ty_CompositionSpec :: gty where
  "ty_CompositionSpec = TStruct
     [(''Synthesizer'', ty_SynthesizerRef),
      (''Bindings'', TSlice ty_Binding),
      (''SynthesisEnv'', TSlice ty_EnvVar)]"

definition ty_SimplifiedStatus :: gty where
  "ty_SimplifiedStatus = TStruct
     [(''Status'', TPrim GString),
      (''Error'', TPrim GString)]"

definition ty_ResourceSliceRef :: gty where
  "ty_ResourceSliceRef = TStruct
     [(''Name'', TPrim GString)]"

definition ty_Result :: gty where
  "ty_Result = TStruct
     [(''Message'', TPrim GString),
      (''Severity'', TPrim GString),
      (''Tags'', TMap)]"

definition ty_InputRevisions :: gty where
  "ty_InputRevisions = TStruct
     [(''Key'', TPrim GString),
      (''ResourceVersion'', TPrim GString),
      (''Revision'', TPtr (TPrim GInt)),
      (''SynthesizerGeneration'', TPtr (TPrim GInt64))]"

definition ty_Synthesis :: gty where
  "ty_Synthesis = TStruct
     [(''UUID'', TPrim GString),
      (''ObservedCompositionGeneration'', TPrim GInt64),
      (''ObservedSynthesizerGeneration'', TPrim GInt64),
      (''Initialized'', TPtr (TLib ''Time'')),
      (''PodCreation'', TPtr (TLib ''Time'')),
      (''Synthesized'', TPtr (TLib ''Time'')),
      (''Reconciled'', TPtr (TLib ''Time'')),
      (''Ready'', TPtr (TLib ''Time'')),
      (''Attempts'', TPrim GInt),
      (''ResourceSlices'', TSlice (TPtr ty_ResourceSliceRef)),
      (''Results'', TSlice ty_Result),
      (''InputRevisions'', TSlice ty_InputRevisions),
      (''Deferred'', TPrim GBool)]"

definition ty_CompositionStatus :: gty where
  "ty_CompositionStatus = TStruct
     [(''Simplified'', TPtr ty_SimplifiedStatus),
      (''CurrentSynthesis'', TPtr ty_Synthesis),
      (''PreviousSynthesis'', TPtr ty_Synthesis),
      (''PendingResynthesis'', TPtr (TLib ''Time'')),
      (''InputRevisions'', TSlice ty_InputRevisions)]"

definition ty_Composition :: gty where
  "ty_Composition = TStruct
     [(''TypeMeta'', ty_TypeMeta),
      (''ObjectMeta'', TLib ''ObjectMeta''),
      (''Spec'', ty_CompositionSpec),
      (''Status'', ty_CompositionStatus)]"

definition ty_CompositionList :: gty where
  "ty_CompositionList = TStruct
     [(''TypeMeta'', ty_TypeMeta),
      (''ListMeta'', TLib ''ListMeta''),
      (''Items'', TSlice ty_Composition)]"

definition ty_InputResource :: gty where
  "ty_InputResource = TStruct
     [(''Name'', TPrim GString),
      (''Namespace'', TPrim GString),
      (''Kind'', TPrim GString),
      (''Group'', TPrim GString)]"

definition ty_Input :: gty where
  "ty_Input = TStruct
     [(''TypeMeta'', ty_TypeMeta),
      (''Key'', TPrim GString),
      (''Resource'', ty_InputResource)]"

definition ty_ResourceRef :: gty where
  "ty_ResourceRef = TStruct
     [(''Group'', TPrim GString),
      (''Version'', TPrim GString),
      (''Kind'', TPrim GString)]"

definition ty_Ref :: gty where
  "ty_Ref = TStruct
     [(''Key'', TPrim GString),
      (''Resource'', ty_ResourceRef),
      (''Defer'', TPrim GBool)]"

definition ty_Manifest :: gty where
  "ty_Manifest = TStruct
     [(''Manifest'', TPrim GString),
      (''Deleted'', TPrim GBool)]"

definition ty_ResourceSliceSpec :: gty where
  "ty_ResourceSliceSpec = TStruct
     [(''CompositionGeneration'', TPrim GInt64),
      (''SynthesisUUID'', TPrim GString),
      (''Attempt'', TPrim GInt),
      (''Resources'', TSlice ty_Manifest)]"

definition ty_ResourceState :: gty where
  "ty_ResourceState = TStruct
     [(''Reconciled'', TPrim GBool),
      (''Ready'', TPtr (TLib ''Time'')),
      (''Deleted'', TPrim GBool)]"

definition ty_ResourceSliceStatus :: gty where
  "ty_ResourceSliceStatus = TStruct
     [(''Resources'', TSlice ty_ResourceState)]"

definition ty_ResourceSlice :: gty where
  "ty_ResourceSlice = TStruct
     [(''TypeMeta'', ty_TypeMeta),
      (''ObjectMeta'', TLib ''ObjectMeta''),
      (''Spec'', ty_ResourceSliceSpec),
      (''Status'', ty_ResourceSliceStatus)]"

definition ty_ResourceSliceList :: gty where
  "ty_ResourceSliceList = TStruct
     [(''TypeMeta'', ty_TypeMeta),
      (''ListMeta'', TLib ''ListMeta''),
      (''Items'', TSlice ty_ResourceSlice)]"

definition ty_Variation :: gty where
  "ty_Variation = TStruct
     [(''Labels'', TMap),
      (''Annotations'', TMap),
      (''Synthesizer'', ty_SynthesizerRef),
      (''Bindings'', TSlice ty_Binding)]"

definition ty_SymphonySpec :: gty where
  "ty_SymphonySpec = TStruct
     [(''Variations'', TSlice ty_Variation),
      (''Bindings'', TSlice ty_Binding),
      (''SynthesisEnv'', TSlice ty_EnvVar)]"

definition ty_SymphonyStatus :: gty where
  "ty_SymphonyStatus = TStruct
     [(''ObservedGeneration'', TPrim GInt64),
      (''Synthesized'', TPtr (TLib ''Time'')),
      (''Reconciled'', TPtr (TLib ''Time'')),
      (''Ready'', TPtr (TLib ''Time'')),
      (''Synthesizers'', TSlice ty_SynthesizerRef)]"

definition ty_Symphony :: gty where
  "ty_Symphony = TStruct
     [(''TypeMeta'', ty_TypeMeta),
      (''ObjectMeta'', TLib ''ObjectMeta''),
      (''Spec'', ty_SymphonySpec),
      (''Status'', ty_SymphonyStatus)]"

definition ty_SymphonyList :: gty where
  "ty_SymphonyList = TStruct
     [(''TypeMeta'', ty_TypeMeta),
      (''ListMeta'', TLib ''ListMeta''),
      (''Items'', TSlice ty_Symphony)]"

definition ty_PodOverrides :: gty where
  "ty_PodOverrides = TStruct
     [(''Labels'', TMap),
      (''Annotations'', TMap),
      (''Resources'', TLib ''ResourceRequirements'')]"

definition ty_SynthesizerSpec :: gty where
  "ty_SynthesizerSpec = TStruct
     [(''Image'', TPrim GString),
      (''Command'', TSlice (TPrim GString)),
      (''ExecTimeout'', TPtr ty_Duration),
      (''PodTimeout'', TPtr ty_Duration),
      (''ReconcileInterval'', TPtr ty_Duration),
      (''Refs'', TSlice ty_Ref),
      (''PodOverrides'', ty_PodOverrides)]"

definition ty_SynthesizerStatus :: gty where
  "ty_SynthesizerStatus = TStruct
     []"

definition ty_Synthesizer :: gty where
  "ty_Synthesizer = TStruct
     [(''TypeMeta'', ty_TypeMeta),
      (''ObjectMeta'', TLib ''ObjectMeta''),
      (''Spec'', ty_SynthesizerSpec),
      (''Status'', ty_SynthesizerStatus)]"

definition ty_SynthesizerList :: gty where
  "ty_SynthesizerList = TStruct
     [(''TypeMeta'', ty_TypeMeta),
      (''ListMeta'', TLib ''ListMeta''),
      (''Items'', TSlice ty_Synthesizer)]"

definition ty_krm_ResultFile :: gty where
  "ty_krm_ResultFile = TStruct
     [(''Path'', TPrim GString),
      (''Index'', TPrim GFloat64)]"

definition ty_krm_ResultResourceRef :: gty where
  "ty_krm_ResultResourceRef = TStruct
     [(''APIVersion'', TPrim GString),
      (''Kind'', TPrim GString),
      (''Name'', TPrim GString),
      (''Namespace'', TPrim GString)]"

definition ty_krm_Result :: gty where
  "ty_krm_Result = TStruct
     [(''Message'', TPrim GString),
      (''File'', TPtr ty_krm_ResultFile),
      (''ResourceRef'', TPtr ty_krm_ResultResourceRef),
      (''Severity'', TPrim GString),
      (''Tags'', TMap)]"

definition ty_krm_ResourceList :: gty where
  "ty_krm_ResourceList = TStruct
     [(''APIVersion'', TPrim GString),
      (''Kind'', TPrim GString),
      (''Items'', TSlice (TPtr (TLib ''Unstructured''))),
      (''FunctionConfig'', TPtr (TLib ''Unstructured'')),
      (''Results'', TSlice (TPtr ty_krm_Result))]"

section \<open>\<open>DeepCopyInto\<close>\<close>

definition SynthesizerRef_DeepCopyInto :: "copier" where
  "SynthesizerRef_DeepCopyInto = deep_copy_into []"

definition ResourceBinding_DeepCopyInto :: "copier" where
  "ResourceBinding_DeepCopyInto = deep_copy_into []"

definition Binding_DeepCopyInto :: "copier" where
  "Binding_DeepCopyInto = deep_copy_into
     [(''Resource'', assign)]"

definition EnvVar_DeepCopyInto :: "copier" where
  "EnvVar_DeepCopyInto = deep_copy_into []"

definition CompositionSpec_DeepCopyInto :: "copier" where
  "CompositionSpec_DeepCopyInto = deep_copy_into
     [(''Synthesizer'', assign),
      (''Bindings'', if_non_nil make_copy),
      (''SynthesisEnv'', if_non_nil make_copy)]"

definition SimplifiedStatus_DeepCopyInto :: "copier" where
  "SimplifiedStatus_DeepCopyInto = deep_copy_into []"

definition ResourceSliceRef_DeepCopyInto :: "copier" where
  "ResourceSliceRef_DeepCopyInto = deep_copy_into []"

definition Result_DeepCopyInto :: "copier" where
  "Result_DeepCopyInto = deep_copy_into
     [(''Tags'', if_non_nil make_map)]"

definition InputRevisions_DeepCopyInto :: "copier" where
  "InputRevisions_DeepCopyInto = deep_copy_into
     [(''Revision'', if_non_nil new_assign),
      (''SynthesizerGeneration'', if_non_nil new_assign)]"

definition Synthesis_DeepCopyInto :: "lib \<Rightarrow> copier" where
  "Synthesis_DeepCopyInto L = deep_copy_into
     [(''Initialized'', if_non_nil (lib_copy L ''Time'')),
      (''PodCreation'', if_non_nil (lib_copy L ''Time'')),
      (''Synthesized'', if_non_nil (lib_copy L ''Time'')),
      (''Reconciled'', if_non_nil (lib_copy L ''Time'')),
      (''Ready'', if_non_nil (lib_copy L ''Time'')),
      (''ResourceSlices'', if_non_nil (make_each_ptr new_assign)),
      (''Results'', if_non_nil (make_each Result_DeepCopyInto)),
      (''InputRevisions'', if_non_nil (make_each InputRevisions_DeepCopyInto))]"

definition CompositionStatus_DeepCopyInto :: "lib \<Rightarrow> copier" where
  "CompositionStatus_DeepCopyInto L = deep_copy_into
     [(''Simplified'', if_non_nil new_assign),
      (''CurrentSynthesis'', if_non_nil (new_into (Synthesis_DeepCopyInto L))),
      (''PreviousSynthesis'', if_non_nil (new_into (Synthesis_DeepCopyInto L))),
      (''PendingResynthesis'', if_non_nil (lib_copy L ''Time'')),
      (''InputRevisions'', if_non_nil (make_each InputRevisions_DeepCopyInto))]"

definition Composition_DeepCopyInto :: "lib \<Rightarrow> copier" where
  "Composition_DeepCopyInto L = deep_copy_into
     [(''TypeMeta'', assign),
      (''ObjectMeta'', lib_into L ''ObjectMeta''),
      (''Spec'', CompositionSpec_DeepCopyInto),
      (''Status'', CompositionStatus_DeepCopyInto L)]"

definition CompositionList_DeepCopyInto :: "lib \<Rightarrow> copier" where
  "CompositionList_DeepCopyInto L = deep_copy_into
     [(''TypeMeta'', assign),
      (''ListMeta'', lib_into L ''ListMeta''),
      (''Items'', if_non_nil (make_each (Composition_DeepCopyInto L)))]"

definition InputResource_DeepCopyInto :: "copier" where
  "InputResource_DeepCopyInto = deep_copy_into []"

definition Input_DeepCopyInto :: "copier" where
  "Input_DeepCopyInto = deep_copy_into
     [(''TypeMeta'', assign),
      (''Resource'', assign)]"

definition ResourceRef_DeepCopyInto :: "copier" where
  "ResourceRef_DeepCopyInto = deep_copy_into []"

definition Ref_DeepCopyInto :: "copier" where
  "Ref_DeepCopyInto = deep_copy_into
     [(''Resource'', assign)]"

definition Manifest_DeepCopyInto :: "copier" where
  "Manifest_DeepCopyInto = deep_copy_into []"

definition ResourceSliceSpec_DeepCopyInto :: "copier" where
  "ResourceSliceSpec_DeepCopyInto = deep_copy_into
     [(''Resources'', if_non_nil make_copy)]"

definition ResourceState_DeepCopyInto :: "lib \<Rightarrow> copier" where
  "ResourceState_DeepCopyInto L = deep_copy_into
     [(''Ready'', if_non_nil (lib_copy L ''Time''))]"

definition ResourceSliceStatus_DeepCopyInto :: "lib \<Rightarrow> copier" where
  "ResourceSliceStatus_DeepCopyInto L = deep_copy_into
     [(''Resources'', if_non_nil (make_each (ResourceState_DeepCopyInto L)))]"

definition ResourceSlice_DeepCopyInto :: "lib \<Rightarrow> copier" where
  "ResourceSlice_DeepCopyInto L = deep_copy_into
     [(''TypeMeta'', assign),
      (''ObjectMeta'', lib_into L ''ObjectMeta''),
      (''Spec'', ResourceSliceSpec_DeepCopyInto),
      (''Status'', ResourceSliceStatus_DeepCopyInto L)]"

definition ResourceSliceList_DeepCopyInto :: "lib \<Rightarrow> copier" where
  "ResourceSliceList_DeepCopyInto L = deep_copy_into
     [(''TypeMeta'', assign),
      (''ListMeta'', lib_into L ''ListMeta''),
      (''Items'', if_non_nil (make_each (ResourceSlice_DeepCopyInto L)))]"

definition Variation_DeepCopyInto :: "copier" where
  "Variation_DeepCopyInto = deep_copy_into
     [(''Labels'', if_non_nil make_map),
      (''Annotations'', if_non_nil make_map),
      (''Synthesizer'', assign),
      (''Bindings'', if_non_nil make_copy)]"

definition SymphonySpec_DeepCopyInto :: "copier" where
  "SymphonySpec_DeepCopyInto = deep_copy_into
     [(''Variations'', if_non_nil (make_each Variation_DeepCopyInto)),
      (''Bindings'', if_non_nil make_copy),
      (''SynthesisEnv'', if_non_nil make_copy)]"

definition SymphonyStatus_DeepCopyInto :: "lib \<Rightarrow> copier" where
  "SymphonyStatus_DeepCopyInto L = deep_copy_into
     [(''Synthesized'', if_non_nil (lib_copy L ''Time'')),
      (''Reconciled'', if_non_nil (lib_copy L ''Time'')),
      (''Ready'', if_non_nil (lib_copy L ''Time'')),
      (''Synthesizers'', if_non_nil make_copy)]"

definition Symphony_DeepCopyInto :: "lib \<Rightarrow> copier" where
  "Symphony_DeepCopyInto L = deep_copy_into
     [(''TypeMeta'', assign),
      (''ObjectMeta'', lib_into L ''ObjectMeta''),
      (''Spec'', SymphonySpec_DeepCopyInto),
      (''Status'', SymphonyStatus_DeepCopyInto L)]"

definition SymphonyList_DeepCopyInto :: "lib \<Rightarrow> copier" where
  "SymphonyList_DeepCopyInto L = deep_copy_into
     [(''TypeMeta'', assign),
      (''ListMeta'', lib_into L ''ListMeta''),
      (''Items'', if_non_nil (make_each (Symphony_DeepCopyInto L)))]"

definition PodOverrides_DeepCopyInto :: "lib \<Rightarrow> copier" where
  "PodOverrides_DeepCopyInto L = deep_copy_into
     [(''Labels'', if_non_nil make_map),
      (''Annotations'', if_non_nil make_map),
      (''Resources'', lib_into L ''ResourceRequirements'')]"

definition SynthesizerSpec_DeepCopyInto :: "lib \<Rightarrow> copier" where
  "SynthesizerSpec_DeepCopyInto L = deep_copy_into
     [(''Command'', if_non_nil make_copy),
      (''ExecTimeout'', if_non_nil new_assign),
      (''PodTimeout'', if_non_nil new_assign),
      (''ReconcileInterval'', if_non_nil new_assign),
      (''Refs'', if_non_nil make_copy),
      (''PodOverrides'', PodOverrides_DeepCopyInto L)]"

definition SynthesizerStatus_DeepCopyInto :: "copier" where
  "SynthesizerStatus_DeepCopyInto = deep_copy_into []"

definition Synthesizer_DeepCopyInto :: "lib \<Rightarrow> copier" where
  "Synthesizer_DeepCopyInto L = deep_copy_into
     [(''TypeMeta'', assign),
      (''ObjectMeta'', lib_into L ''ObjectMeta''),
      (''Spec'', SynthesizerSpec_DeepCopyInto L),
      (''Status'', assign)]"

definition SynthesizerList_DeepCopyInto :: "lib \<Rightarrow> copier" where
  "SynthesizerList_DeepCopyInto L = deep_copy_into
     [(''TypeMeta'', assign),
      (''ListMeta'', lib_into L ''ListMeta''),
      (''Items'', if_non_nil (make_each (Synthesizer_DeepCopyInto L)))]"

definition krm_ResultFile_DeepCopyInto :: "copier" where
  "krm_ResultFile_DeepCopyInto = deep_copy_into []"

definition krm_ResultResourceRef_DeepCopyInto :: "copier" where
  "krm_ResultResourceRef_DeepCopyInto = deep_copy_into []"

definition krm_Result_DeepCopyInto :: "copier" where
  "krm_Result_DeepCopyInto = deep_copy_into
     [(''File'', if_non_nil new_assign),
      (''ResourceRef'', if_non_nil new_assign),
      (''Tags'', if_non_nil make_map)]"

definition krm_ResourceList_DeepCopyInto :: "lib \<Rightarrow> copier" where
  "krm_ResourceList_DeepCopyInto L = deep_copy_into
     [(''Items'', if_non_nil (make_each_ptr (lib_copy L ''Unstructured''))),
      (''FunctionConfig'', if_non_nil (lib_copy L ''Unstructured'')),
      (''Results'', if_non_nil (make_each_ptr (new_into krm_Result_DeepCopyInto)))]"

section \<open>\<open>DeepCopy\<close> and \<open>DeepCopyObject\<close>\<close>

definition SynthesizerRef_DeepCopy :: "copier" where
  "SynthesizerRef_DeepCopy = deep_copy SynthesizerRef_DeepCopyInto"

definition ResourceBinding_DeepCopy :: "copier" where
  "ResourceBinding_DeepCopy = deep_copy ResourceBinding_DeepCopyInto"

definition Binding_DeepCopy :: "copier" where
  "Binding_DeepCopy = deep_copy Binding_DeepCopyInto"

definition EnvVar_DeepCopy :: "copier" where
  "EnvVar_DeepCopy = deep_copy EnvVar_DeepCopyInto"

definition CompositionSpec_DeepCopy :: "copier" where
  "CompositionSpec_DeepCopy = deep_copy CompositionSpec_DeepCopyInto"

definition SimplifiedStatus_DeepCopy :: "copier" where
  "SimplifiedStatus_DeepCopy = deep_copy SimplifiedStatus_DeepCopyInto"

definition ResourceSliceRef_DeepCopy :: "copier" where
  "ResourceSliceRef_DeepCopy = deep_copy ResourceSliceRef_DeepCopyInto"

definition Result_DeepCopy :: "copier" where
  "Result_DeepCopy = deep_copy Result_DeepCopyInto"

definition InputRevisions_DeepCopy :: "copier" where
  "InputRevisions_DeepCopy = deep_copy InputRevisions_DeepCopyInto"

definition Synthesis_DeepCopy :: "lib \<Rightarrow> copier" where
  "Synthesis_DeepCopy L = deep_copy (Synthesis_DeepCopyInto L)"

definition CompositionStatus_DeepCopy :: "lib \<Rightarrow> copier" where
  "CompositionStatus_DeepCopy L = deep_copy (CompositionStatus_DeepCopyInto L)"

definition Composition_DeepCopy :: "lib \<Rightarrow> copier" where
  "Composition_DeepCopy L = deep_copy (Composition_DeepCopyInto L)"

definition CompositionList_DeepCopy :: "lib \<Rightarrow> copier" where
  "CompositionList_DeepCopy L = deep_copy (CompositionList_DeepCopyInto L)"

definition InputResource_DeepCopy :: "copier" where
  "InputResource_DeepCopy = deep_copy InputResource_DeepCopyInto"

definition Input_DeepCopy :: "copier" where
  "Input_DeepCopy = deep_copy Input_DeepCopyInto"

definition ResourceRef_DeepCopy :: "copier" where
  "ResourceRef_DeepCopy = deep_copy ResourceRef_DeepCopyInto"

definition Ref_DeepCopy :: "copier" where
  "Ref_DeepCopy = deep_copy Ref_DeepCopyInto"

definition Manifest_DeepCopy :: "copier" where
  "Manifest_DeepCopy = deep_copy Manifest_DeepCopyInto"

definition ResourceSliceSpec_DeepCopy :: "copier" where
  "ResourceSliceSpec_DeepCopy = deep_copy ResourceSliceSpec_DeepCopyInto"

definition ResourceState_DeepCopy :: "lib \<Rightarrow> copier" where
  "ResourceState_DeepCopy L = deep_copy (ResourceState_DeepCopyInto L)"

definition ResourceSliceStatus_DeepCopy :: "lib \<Rightarrow> copier" where
  "ResourceSliceStatus_DeepCopy L = deep_copy (ResourceSliceStatus_DeepCopyInto L)"

definition ResourceSlice_DeepCopy :: "lib \<Rightarrow> copier" where
  "ResourceSlice_DeepCopy L = deep_copy (ResourceSlice_DeepCopyInto L)"

definition ResourceSliceList_DeepCopy :: "lib \<Rightarrow> copier" where
  "ResourceSliceList_DeepCopy L = deep_copy (ResourceSliceList_DeepCopyInto L)"

definition Variation_DeepCopy :: "copier" where
  "Variation_DeepCopy = deep_copy Variation_DeepCopyInto"

definition SymphonySpec_DeepCopy :: "copier" where
  "SymphonySpec_DeepCopy = deep_copy SymphonySpec_DeepCopyInto"

definition SymphonyStatus_DeepCopy :: "lib \<Rightarrow> copier" where
  "SymphonyStatus_DeepCopy L = deep_copy (SymphonyStatus_DeepCopyInto L)"

definition Symphony_DeepCopy :: "lib \<Rightarrow> copier" where
  "Symphony_DeepCopy L = deep_copy (Symphony_DeepCopyInto L)"

definition SymphonyList_DeepCopy :: "lib \<Rightarrow> copier" where
  "SymphonyList_DeepCopy L = deep_copy (SymphonyList_DeepCopyInto L)"

definition PodOverrides_DeepCopy :: "lib \<Rightarrow> copier" where
  "PodOverrides_DeepCopy L = deep_copy (PodOverrides_DeepCopyInto L)"

definition SynthesizerSpec_DeepCopy :: "lib \<Rightarrow> copier" where
  "SynthesizerSpec_DeepCopy L = deep_copy (SynthesizerSpec_DeepCopyInto L)"

definition SynthesizerStatus_DeepCopy :: "copier" where
  "SynthesizerStatus_DeepCopy = deep_copy SynthesizerStatus_DeepCopyInto"

definition Synthesizer_DeepCopy :: "lib \<Rightarrow> copier" where
  "Synthesizer_DeepCopy L = deep_copy (Synthesizer_DeepCopyInto L)"

definition SynthesizerList_DeepCopy :: "lib \<Rightarrow> copier" where
  "SynthesizerList_DeepCopy L = deep_copy (SynthesizerList_DeepCopyInto L)"

definition krm_ResultFile_DeepCopy :: "copier" where
  "krm_ResultFile_DeepCopy = deep_copy krm_ResultFile_DeepCopyInto"

definition krm_ResultResourceRef_DeepCopy :: "copier" where
  "krm_ResultResourceRef_DeepCopy = deep_copy krm_ResultResourceRef_DeepCopyInto"

definition krm_Result_DeepCopy :: "copier" where
  "krm_Result_DeepCopy = deep_copy krm_Result_DeepCopyInto"

definition krm_ResourceList_DeepCopy :: "lib \<Rightarrow> copier" where
  "krm_ResourceList_DeepCopy L = deep_copy (krm_ResourceList_DeepCopyInto L)"

definition Composition_DeepCopyObject :: "lib \<Rightarrow> heap \<Rightarrow> gval \<Rightarrow> (heap \<times> iface) option" where
  "Composition_DeepCopyObject L = deep_copy_object ''*v1.Composition'' (Composition_DeepCopy L)"

definition CompositionList_DeepCopyObject :: "lib \<Rightarrow> heap \<Rightarrow> gval \<Rightarrow> (heap \<times> iface) option" where
  "CompositionList_DeepCopyObject L = deep_copy_object ''*v1.CompositionList'' (CompositionList_DeepCopy L)"

definition ResourceSlice_DeepCopyObject :: "lib \<Rightarrow> heap \<Rightarrow> gval \<Rightarrow> (heap \<times> iface) option" where
  "ResourceSlice_DeepCopyObject L = deep_copy_object ''*v1.ResourceSlice'' (ResourceSlice_DeepCopy L)"

definition ResourceSliceList_DeepCopyObject :: "lib \<Rightarrow> heap \<Rightarrow> gval \<Rightarrow> (heap \<times> iface) option" where
  "ResourceSliceList_DeepCopyObject L = deep_copy_object ''*v1.ResourceSliceList'' (ResourceSliceList_DeepCopy L)"

definition Symphony_DeepCopyObject :: "lib \<Rightarrow> heap \<Rightarrow> gval \<Rightarrow> (heap \<times> iface) option" where
  "Symphony_DeepCopyObject L = deep_copy_object ''*v1.Symphony'' (Symphony_DeepCopy L)"

definition SymphonyList_DeepCopyObject :: "lib \<Rightarrow> heap \<Rightarrow> gval \<Rightarrow> (heap \<times> iface) option" where
  "SymphonyList_DeepCopyObject L = deep_copy_object ''*v1.SymphonyList'' (SymphonyList_DeepCopy L)"

definition Synthesizer_DeepCopyObject :: "lib \<Rightarrow> heap \<Rightarrow> gval \<Rightarrow> (heap \<times> iface) option" where
  "Synthesizer_DeepCopyObject L = deep_copy_object ''*v1.Synthesizer'' (Synthesizer_DeepCopy L)"

definition SynthesizerList_DeepCopyObject :: "lib \<Rightarrow> heap \<Rightarrow> gval \<Rightarrow> (heap \<times> iface) option" where
  "SynthesizerList_DeepCopyObject L = deep_copy_object ''*v1.SynthesizerList'' (SynthesizerList_DeepCopy L)"

definition krm_ResourceList_DeepCopyObject :: "lib \<Rightarrow> heap \<Rightarrow> gval \<Rightarrow> (heap \<times> iface) option" where
  "krm_ResourceList_DeepCopyObject L = deep_copy_object ''*krm.ResourceList'' (krm_ResourceList_DeepCopy L)"

text \<open>All the routines, with the type they are declared for.\<close>

definition deep_copy_routines :: "lib \<Rightarrow> (string \<times> gty \<times> copier) list" where
  "deep_copy_routines L =
     [(''SynthesizerRef'', ty_SynthesizerRef, SynthesizerRef_DeepCopy),
      (''ResourceBinding'', ty_ResourceBinding, ResourceBinding_DeepCopy),
      (''Binding'', ty_Binding, Binding_DeepCopy),
      (''EnvVar'', ty_EnvVar, EnvVar_DeepCopy),
      (''CompositionSpec'', ty_CompositionSpec, CompositionSpec_DeepCopy),
      (''SimplifiedStatus'', ty_SimplifiedStatus, SimplifiedStatus_DeepCopy),
      (''ResourceSliceRef'', ty_ResourceSliceRef, ResourceSliceRef_DeepCopy),
      (''Result'', ty_Result, Result_DeepCopy),
      (''InputRevisions'', ty_InputRevisions, InputRevisions_DeepCopy),
      (''Synthesis'', ty_Synthesis, Synthesis_DeepCopy L),
      (''CompositionStatus'', ty_CompositionStatus, CompositionStatus_DeepCopy L),
      (''Composition'', ty_Composition, Composition_DeepCopy L),
      (''CompositionList'', ty_CompositionList, CompositionList_DeepCopy L),
      (''InputResource'', ty_InputResource, InputResource_DeepCopy),
      (''Input'', ty_Input, Input_DeepCopy),
      (''ResourceRef'', ty_ResourceRef, ResourceRef_DeepCopy),
      (''Ref'', ty_Ref, Ref_DeepCopy),
      (''Manifest'', ty_Manifest, Manifest_DeepCopy),
      (''ResourceSliceSpec'', ty_ResourceSliceSpec, ResourceSliceSpec_DeepCopy),
      (''ResourceState'', ty_ResourceState, ResourceState_DeepCopy L),
      (''ResourceSliceStatus'', ty_ResourceSliceStatus, ResourceSliceStatus_DeepCopy L),
      (''ResourceSlice'', ty_ResourceSlice, ResourceSlice_DeepCopy L),
      (''ResourceSliceList'', ty_ResourceSliceList, ResourceSliceList_DeepCopy L),
      (''Variation'', ty_Variation, Variation_DeepCopy),
      (''SymphonySpec'', ty_SymphonySpec, SymphonySpec_DeepCopy),
      (''SymphonyStatus'', ty_SymphonyStatus, SymphonyStatus_DeepCopy L),
      (''Symphony'', ty_Symphony, Symphony_DeepCopy L),
      (''SymphonyList'', ty_SymphonyList, SymphonyList_DeepCopy L),
      (''PodOverrides'', ty_PodOverrides, PodOverrides_DeepCopy L),
      (''SynthesizerSpec'', ty_SynthesizerSpec, SynthesizerSpec_DeepCopy L),
      (''SynthesizerStatus'', ty_SynthesizerStatus, SynthesizerStatus_DeepCopy),
      (''Synthesizer'', ty_Synthesizer, Synthesizer_DeepCopy L),
      (''SynthesizerList'', ty_SynthesizerList, SynthesizerList_DeepCopy L),
      (''krm_ResultFile'', ty_krm_ResultFile, krm_ResultFile_DeepCopy),
      (''krm_ResultResourceRef'', ty_krm_ResultResourceRef, krm_ResultResourceRef_DeepCopy),
      (''krm_Result'', ty_krm_Result, krm_Result_DeepCopy),
      (''krm_ResourceList'', ty_krm_ResourceList, krm_ResourceList_DeepCopy L)]"

definition deep_copy_object_routines ::
  "lib \<Rightarrow> (string \<times> gty \<times> (heap \<Rightarrow> gval \<Rightarrow> (heap \<times> iface) option)) list" where
  "deep_copy_object_routines L =
     [(''*v1.Composition'', ty_Composition, Composition_DeepCopyObject L),
      (''*v1.CompositionList'', ty_CompositionList, CompositionList_DeepCopyObject L),
      (''*v1.ResourceSlice'', ty_ResourceSlice, ResourceSlice_DeepCopyObject L),
      (''*v1.ResourceSliceList'', ty_ResourceSliceList, ResourceSliceList_DeepCopyObject L),
      (''*v1.Symphony'', ty_Symphony, Symphony_DeepCopyObject L),
      (''*v1.SymphonyList'', ty_SymphonyList, SymphonyList_DeepCopyObject L),
      (''*v1.Synthesizer'', ty_Synthesizer, Synthesizer_DeepCopyObject L),
      (''*v1.SynthesizerList'', ty_SynthesizerList, SynthesizerList_DeepCopyObject L),
      (''*krm.ResourceList'', ty_krm_ResourceList, krm_ResourceList_DeepCopyObject L)]"

section \<open>Every routine is a deep copy at its declared type\<close>

named_theorems flat_types \<open>declared types without references\<close>

lemma flat_TypeMeta [flat_types]: "flat ty_TypeMeta" and flat_Duration [flat_types]: "flat ty_Duration"
  by (simp_all add: ty_TypeMeta_def ty_Duration_def)

lemma flat_SynthesizerRef [flat_types]: "flat ty_SynthesizerRef"
  by (simp add: ty_SynthesizerRef_def flat_types)

lemma flat_ResourceBinding [flat_types]: "flat ty_ResourceBinding"
  by (simp add: ty_ResourceBinding_def flat_types)

lemma flat_Binding [flat_types]: "flat ty_Binding"
  by (simp add: ty_Binding_def flat_types)

lemma flat_EnvVar [flat_types]: "flat ty_EnvVar"
  by (simp add: ty_EnvVar_def flat_types)

lemma flat_SimplifiedStatus [flat_types]: "flat ty_SimplifiedStatus"
  by (simp add: ty_SimplifiedStatus_def flat_types)

lemma flat_ResourceSliceRef [flat_types]: "flat ty_ResourceSliceRef"
  by (simp add: ty_ResourceSliceRef_def flat_types)

lemma flat_InputResource [flat_types]: "flat ty_InputResource"
  by (simp add: ty_InputResource_def flat_types)

lemma flat_Input [flat_types]: "flat ty_Input"
  by (simp add: ty_Input_def flat_types)

lemma flat_ResourceRef [flat_types]: "flat ty_ResourceRef"
  by (simp add: ty_ResourceRef_def flat_types)

lemma flat_Ref [flat_types]: "flat ty_Ref"
  by (simp add: ty_Ref_def flat_types)

lemma flat_Manifest [flat_types]: "flat ty_Manifest"
  by (simp add: ty_Manifest_def flat_types)

lemma flat_SynthesizerStatus [flat_types]: "flat ty_SynthesizerStatus"
  by (simp add: ty_SynthesizerStatus_def flat_types)

lemma flat_krm_ResultFile [flat_types]: "flat ty_krm_ResultFile"
  by (simp add: ty_krm_ResultFile_def flat_types)

lemma flat_krm_ResultResourceRef [flat_types]: "flat ty_krm_ResultResourceRef"
  by (simp add: ty_krm_ResultResourceRef_def flat_types)

lemma SynthesizerRef_into [deep_copy_rules]: "deep_copies (has_type X ty_SynthesizerRef) SynthesizerRef_DeepCopyInto"
  unfolding ty_SynthesizerRef_def SynthesizerRef_DeepCopyInto_def
  by (rule deep_copy_intoI) (auto simp: has_type_kinds flat_types split: if_splits intro!: deep_copy_rules)

lemma ResourceBinding_into [deep_copy_rules]: "deep_copies (has_type X ty_ResourceBinding) ResourceBinding_DeepCopyInto"
  unfolding ty_ResourceBinding_def ResourceBinding_DeepCopyInto_def
  by (rule deep_copy_intoI) (auto simp: has_type_kinds flat_types split: if_splits intro!: deep_copy_rules)

lemma Binding_into [deep_copy_rules]: "deep_copies (has_type X ty_Binding) Binding_DeepCopyInto"
  unfolding ty_Binding_def Binding_DeepCopyInto_def
  by (rule deep_copy_intoI) (auto simp: has_type_kinds flat_types split: if_splits intro!: deep_copy_rules)

lemma EnvVar_into [deep_copy_rules]: "deep_copies (has_type X ty_EnvVar) EnvVar_DeepCopyInto"
  unfolding ty_EnvVar_def EnvVar_DeepCopyInto_def
  by (rule deep_copy_intoI) (auto simp: has_type_kinds flat_types split: if_splits intro!: deep_copy_rules)

lemma CompositionSpec_into [deep_copy_rules]: "deep_copies (has_type X ty_CompositionSpec) CompositionSpec_DeepCopyInto"
  unfolding ty_CompositionSpec_def CompositionSpec_DeepCopyInto_def
  by (rule deep_copy_intoI) (auto simp: has_type_kinds flat_types split: if_splits intro!: deep_copy_rules)

lemma SimplifiedStatus_into [deep_copy_rules]: "deep_copies (has_type X ty_SimplifiedStatus) SimplifiedStatus_DeepCopyInto"
  unfolding ty_SimplifiedStatus_def SimplifiedStatus_DeepCopyInto_def
  by (rule deep_copy_intoI) (auto simp: has_type_kinds flat_types split: if_splits intro!: deep_copy_rules)

lemma ResourceSliceRef_into [deep_copy_rules]: "deep_copies (has_type X ty_ResourceSliceRef) ResourceSliceRef_DeepCopyInto"
  unfolding ty_ResourceSliceRef_def ResourceSliceRef_DeepCopyInto_def
  by (rule deep_copy_intoI) (auto simp: has_type_kinds flat_types split: if_splits intro!: deep_copy_rules)

lemma Result_into [deep_copy_rules]: "deep_copies (has_type X ty_Result) Result_DeepCopyInto"
  unfolding ty_Result_def Result_DeepCopyInto_def
  by (rule deep_copy_intoI) (auto simp: has_type_kinds flat_types split: if_splits intro!: deep_copy_rules)

lemma InputRevisions_into [deep_copy_rules]: "deep_copies (has_type X ty_InputRevisions) InputRevisions_DeepCopyInto"
  unfolding ty_InputRevisions_def InputRevisions_DeepCopyInto_def
  by (rule deep_copy_intoI) (auto simp: has_type_kinds flat_types split: if_splits intro!: deep_copy_rules)

lemma InputResource_into [deep_copy_rules]: "deep_copies (has_type X ty_InputResource) InputResource_DeepCopyInto"
  unfolding ty_InputResource_def InputResource_DeepCopyInto_def
  by (rule deep_copy_intoI) (auto simp: has_type_kinds flat_types split: if_splits intro!: deep_copy_rules)

lemma Input_into [deep_copy_rules]: "deep_copies (has_type X ty_Input) Input_DeepCopyInto"
  unfolding ty_Input_def Input_DeepCopyInto_def
  by (rule deep_copy_intoI) (auto simp: has_type_kinds flat_types split: if_splits intro!: deep_copy_rules)

lemma ResourceRef_into [deep_copy_rules]: "deep_copies (has_type X ty_ResourceRef) ResourceRef_DeepCopyInto"
  unfolding ty_ResourceRef_def ResourceRef_DeepCopyInto_def
  by (rule deep_copy_intoI) (auto simp: has_type_kinds flat_types split: if_splits intro!: deep_copy_rules)

lemma Ref_into [deep_copy_rules]: "deep_copies (has_type X ty_Ref) Ref_DeepCopyInto"
  unfolding ty_Ref_def Ref_DeepCopyInto_def
  by (rule deep_copy_intoI) (auto simp: has_type_kinds flat_types split: if_splits intro!: deep_copy_rules)

lemma Manifest_into [deep_copy_rules]: "deep_copies (has_type X ty_Manifest) Manifest_DeepCopyInto"
  unfolding ty_Manifest_def Manifest_DeepCopyInto_def
  by (rule deep_copy_intoI) (auto simp: has_type_kinds flat_types split: if_splits intro!: deep_copy_rules)

lemma ResourceSliceSpec_into [deep_copy_rules]: "deep_copies (has_type X ty_ResourceSliceSpec) ResourceSliceSpec_DeepCopyInto"
  unfolding ty_ResourceSliceSpec_def ResourceSliceSpec_DeepCopyInto_def
  by (rule deep_copy_intoI) (auto simp: has_type_kinds flat_types split: if_splits intro!: deep_copy_rules)

lemma Variation_into [deep_copy_rules]: "deep_copies (has_type X ty_Variation) Variation_DeepCopyInto"
  unfolding ty_Variation_def Variation_DeepCopyInto_def
  by (rule deep_copy_intoI) (auto simp: has_type_kinds flat_types split: if_splits intro!: deep_copy_rules)

lemma SymphonySpec_into [deep_copy_rules]: "deep_copies (has_type X ty_SymphonySpec) SymphonySpec_DeepCopyInto"
  unfolding ty_SymphonySpec_def SymphonySpec_DeepCopyInto_def
  by (rule deep_copy_intoI) (auto simp: has_type_kinds flat_types split: if_splits intro!: deep_copy_rules)

lemma SynthesizerStatus_into [deep_copy_rules]: "deep_copies (has_type X ty_SynthesizerStatus) SynthesizerStatus_DeepCopyInto"
  unfolding ty_SynthesizerStatus_def SynthesizerStatus_DeepCopyInto_def
  by (rule deep_copy_intoI) (auto simp: has_type_kinds flat_types split: if_splits intro!: deep_copy_rules)

lemma krm_ResultFile_into [deep_copy_rules]: "deep_copies (has_type X ty_krm_ResultFile) krm_ResultFile_DeepCopyInto"
  unfolding ty_krm_ResultFile_def krm_ResultFile_DeepCopyInto_def
  by (rule deep_copy_intoI) (auto simp: has_type_kinds flat_types split: if_splits intro!: deep_copy_rules)

lemma krm_ResultResourceRef_into [deep_copy_rules]: "deep_copies (has_type X ty_krm_ResultResourceRef) krm_ResultResourceRef_DeepCopyInto"
  unfolding ty_krm_ResultResourceRef_def krm_ResultResourceRef_DeepCopyInto_def
  by (rule deep_copy_intoI) (auto simp: has_type_kinds flat_types split: if_splits intro!: deep_copy_rules)

lemma krm_Result_into [deep_copy_rules]: "deep_copies (has_type X ty_krm_Result) krm_Result_DeepCopyInto"
  unfolding ty_krm_Result_def krm_Result_DeepCopyInto_def
  by (rule deep_copy_intoI) (auto simp: has_type_kinds flat_types split: if_splits intro!: deep_copy_rules)

lemmas deep_copy_defs =
  SynthesizerRef_DeepCopy_def ResourceBinding_DeepCopy_def Binding_DeepCopy_def EnvVar_DeepCopy_def
  CompositionSpec_DeepCopy_def SimplifiedStatus_DeepCopy_def ResourceSliceRef_DeepCopy_def Result_DeepCopy_def
  InputRevisions_DeepCopy_def Synthesis_DeepCopy_def CompositionStatus_DeepCopy_def Composition_DeepCopy_def
  CompositionList_DeepCopy_def InputResource_DeepCopy_def Input_DeepCopy_def ResourceRef_DeepCopy_def
  Ref_DeepCopy_def Manifest_DeepCopy_def ResourceSliceSpec_DeepCopy_def ResourceState_DeepCopy_def
  ResourceSliceStatus_DeepCopy_def ResourceSlice_DeepCopy_def ResourceSliceList_DeepCopy_def Variation_DeepCopy_def
  SymphonySpec_DeepCopy_def SymphonyStatus_DeepCopy_def Symphony_DeepCopy_def SymphonyList_DeepCopy_def
  PodOverrides_DeepCopy_def SynthesizerSpec_DeepCopy_def SynthesizerStatus_DeepCopy_def Synthesizer_DeepCopy_def
  SynthesizerList_DeepCopy_def krm_ResultFile_DeepCopy_def krm_ResultResourceRef_DeepCopy_def krm_Result_DeepCopy_def
  krm_ResourceList_DeepCopy_def

lemmas object_defs =
  Composition_DeepCopyObject_def CompositionList_DeepCopyObject_def ResourceSlice_DeepCopyObject_def
  ResourceSliceList_DeepCopyObject_def Symphony_DeepCopyObject_def SymphonyList_DeepCopyObject_def
  Synthesizer_DeepCopyObject_def SynthesizerList_DeepCopyObject_def krm_ResourceList_DeepCopyObject_def

locale library_copies =
  fixes X :: "string \<Rightarrow> tree \<Rightarrow> bool" and L :: lib
  assumes into: "deep_copies (X n) (lib_into L n)"
    and copy: "deep_copies (ptr_to (X n)) (lib_copy L n)"
begin

lemma copy_non_nil: "deep_copies (ptr_to (X n)) (if_non_nil (lib_copy L n))"
  by (rule deep_if_non_nil [OF copy])

lemmas [deep_copy_rules] = into copy_non_nil

lemma Synthesis_into [deep_copy_rules]: "deep_copies (has_type X ty_Synthesis) (Synthesis_DeepCopyInto L)"
  unfolding ty_Synthesis_def Synthesis_DeepCopyInto_def
  by (rule deep_copy_intoI) (auto simp: has_type_kinds flat_types split: if_splits intro!: deep_copy_rules)

lemma CompositionStatus_into [deep_copy_rules]: "deep_copies (has_type X ty_CompositionStatus) (CompositionStatus_DeepCopyInto L)"
  unfolding ty_CompositionStatus_def CompositionStatus_DeepCopyInto_def
  by (rule deep_copy_intoI) (auto simp: has_type_kinds flat_types split: if_splits intro!: deep_copy_rules)

lemma Composition_into [deep_copy_rules]: "deep_copies (has_type X ty_Composition) (Composition_DeepCopyInto L)"
  unfolding ty_Composition_def Composition_DeepCopyInto_def
  by (rule deep_copy_intoI) (auto simp: has_type_kinds flat_types split: if_splits intro!: deep_copy_rules)

lemma CompositionList_into [deep_copy_rules]: "deep_copies (has_type X ty_CompositionList) (CompositionList_DeepCopyInto L)"
  unfolding ty_CompositionList_def CompositionList_DeepCopyInto_def
  by (rule deep_copy_intoI) (auto simp: has_type_kinds flat_types split: if_splits intro!: deep_copy_rules)

lemma ResourceState_into [deep_copy_rules]: "deep_copies (has_type X ty_ResourceState) (ResourceState_DeepCopyInto L)"
  unfolding ty_ResourceState_def ResourceState_DeepCopyInto_def
  by (rule deep_copy_intoI) (auto simp: has_type_kinds flat_types split: if_splits intro!: deep_copy_rules)

lemma ResourceSliceStatus_into [deep_copy_rules]: "deep_copies (has_type X ty_ResourceSliceStatus) (ResourceSliceStatus_DeepCopyInto L)"
  unfolding ty_ResourceSliceStatus_def ResourceSliceStatus_DeepCopyInto_def
  by (rule deep_copy_intoI) (auto simp: has_type_kinds flat_types split: if_splits intro!: deep_copy_rules)

lemma ResourceSlice_into [deep_copy_rules]: "deep_copies (has_type X ty_ResourceSlice) (ResourceSlice_DeepCopyInto L)"
  unfolding ty_ResourceSlice_def ResourceSlice_DeepCopyInto_def
  by (rule deep_copy_intoI) (auto simp: has_type_kinds flat_types split: if_splits intro!: deep_copy_rules)

lemma ResourceSliceList_into [deep_copy_rules]: "deep_copies (has_type X ty_ResourceSliceList) (ResourceSliceList_DeepCopyInto L)"
  unfolding ty_ResourceSliceList_def ResourceSliceList_DeepCopyInto_def
  by (rule deep_copy_intoI) (auto simp: has_type_kinds flat_types split: if_splits intro!: deep_copy_rules)

lemma SymphonyStatus_into [deep_copy_rules]: "deep_copies (has_type X ty_SymphonyStatus) (SymphonyStatus_DeepCopyInto L)"
  unfolding ty_SymphonyStatus_def SymphonyStatus_DeepCopyInto_def
  by (rule deep_copy_intoI) (auto simp: has_type_kinds flat_types split: if_splits intro!: deep_copy_rules)

lemma Symphony_into [deep_copy_rules]: "deep_copies (has_type X ty_Symphony) (Symphony_DeepCopyInto L)"
  unfolding ty_Symphony_def Symphony_DeepCopyInto_def
  by (rule deep_copy_intoI) (auto simp: has_type_kinds flat_types split: if_splits intro!: deep_copy_rules)

lemma SymphonyList_into [deep_copy_rules]: "deep_copies (has_type X ty_SymphonyList) (SymphonyList_DeepCopyInto L)"
  unfolding ty_SymphonyList_def SymphonyList_DeepCopyInto_def
  by (rule deep_copy_intoI) (auto simp: has_type_kinds flat_types split: if_splits intro!: deep_copy_rules)

lemma PodOverrides_into [deep_copy_rules]: "deep_copies (has_type X ty_PodOverrides) (PodOverrides_DeepCopyInto L)"
  unfolding ty_PodOverrides_def PodOverrides_DeepCopyInto_def
  by (rule deep_copy_intoI) (auto simp: has_type_kinds flat_types split: if_splits intro!: deep_copy_rules)

lemma SynthesizerSpec_into [deep_copy_rules]: "deep_copies (has_type X ty_SynthesizerSpec) (SynthesizerSpec_DeepCopyInto L)"
  unfolding ty_SynthesizerSpec_def SynthesizerSpec_DeepCopyInto_def
  by (rule deep_copy_intoI) (auto simp: has_type_kinds flat_types split: if_splits intro!: deep_copy_rules)

lemma Synthesizer_into [deep_copy_rules]: "deep_copies (has_type X ty_Synthesizer) (Synthesizer_DeepCopyInto L)"
  unfolding ty_Synthesizer_def Synthesizer_DeepCopyInto_def
  by (rule deep_copy_intoI) (auto simp: has_type_kinds flat_types split: if_splits intro!: deep_copy_rules)

lemma SynthesizerList_into [deep_copy_rules]: "deep_copies (has_type X ty_SynthesizerList) (SynthesizerList_DeepCopyInto L)"
  unfolding ty_SynthesizerList_def SynthesizerList_DeepCopyInto_def
  by (rule deep_copy_intoI) (auto simp: has_type_kinds flat_types split: if_splits intro!: deep_copy_rules)

lemma krm_ResourceList_into [deep_copy_rules]: "deep_copies (has_type X ty_krm_ResourceList) (krm_ResourceList_DeepCopyInto L)"
  unfolding ty_krm_ResourceList_def krm_ResourceList_DeepCopyInto_def
  by (rule deep_copy_intoI) (auto simp: has_type_kinds flat_types split: if_splits intro!: deep_copy_rules)

lemma routines_deep:
  "list_all (\<lambda>(n, T, c). deep_copies (ptr_to (has_type X T)) c) (deep_copy_routines L)"
  unfolding deep_copy_routines_def
  by (simp add: deep_copy_defs deep_deep_copy deep_copy_rules)

lemma routine_copied:
  assumes "(n, T, c) \<in> set (deep_copy_routines L)" and "ptr_to (has_type X T) t" and "rep h t v"
  shows "\<exists>h' w. c h v = Some (h', w) \<and> copied t h (h', w)"
  using assms routines_deep by (fastforce simp: list_all_iff deep_copies_def)

lemma object_routines:
  "list_all (\<lambda>(n, T, f). object_copies n (ptr_to (has_type X T)) f) (deep_copy_object_routines L)"
  unfolding deep_copy_object_routines_def
  by (simp add: object_defs deep_copy_defs deep_copy_rules)

end

section \<open>An instance of the contract, and a composition in memory\<close>

text \<open>The contract of the other modules' routines can be met: by the layouts below (the fields that
  matter for copying) and routines written in the same statements. The location of a
  \<open>time.Time\<close> does not occur, it is immutable.\<close>

definition sample_library :: "(string \<times> (string \<times> gty) list \<times> (string \<times> copier) list) list" where
  "sample_library =
     [(''ObjectMeta'',
        [(''Name'', TPrim GString), (''Labels'', TMap), (''Annotations'', TMap),
         (''Finalizers'', TSlice (TPrim GString))],
        [(''Labels'', if_non_nil make_map), (''Annotations'', if_non_nil make_map),
         (''Finalizers'', if_non_nil make_copy)]),
      (''ListMeta'',
        [(''ResourceVersion'', TPrim GString), (''RemainingItemCount'', TPtr (TPrim GInt64))],
        [(''RemainingItemCount'', if_non_nil new_assign)]),
      (''Time'', [(''Time'', TPrim GInt64)], []),
      (''ResourceRequirements'', [(''Limits'', TMap), (''Requests'', TMap)],
        [(''Limits'', if_non_nil make_map), (''Requests'', if_non_nil make_map)]),
      (''Unstructured'', [(''Object'', TMap)], [(''Object'', if_non_nil make_map)])]"

definition sample_shape :: "string \<Rightarrow> tree \<Rightarrow> bool" where
  "sample_shape n t = (case map_of sample_library n of
     Some (Fs, ss) \<Rightarrow> has_type (\<lambda>_ _. False) (TStruct Fs) t | None \<Rightarrow> False)"

definition sample_into :: "string \<Rightarrow> copier" where
  "sample_into n = (case map_of sample_library n of Some (Fs, ss) \<Rightarrow> deep_copy_into ss | None \<Rightarrow> assign)"

definition sample_lib :: lib where
  "sample_lib = \<lparr>lib_into = sample_into, lib_copy = (\<lambda>n. deep_copy (sample_into n))\<rparr>"

lemma sample_library_deep:
  "list_all (\<lambda>(n, Fs, ss). deep_copies (has_type X (TStruct Fs)) (deep_copy_into ss)) sample_library"
  unfolding sample_library_def list.pred_inject prod.case
  by (intro conjI deep_copy_intoI TrueI)
    (auto simp: has_type_kinds split: if_splits intro!: deep_copy_rules)

lemma sample_into_deep [deep_copy_rules]: "deep_copies (sample_shape n) (sample_into n)"
proof (cases "map_of sample_library n")
  case None
  then show ?thesis by (simp add: sample_shape_def deep_copies_def)
next
  case (Some p)
  then have "deep_copies (has_type (\<lambda>_ _. False) (TStruct (fst p))) (deep_copy_into (snd p))"
    using sample_library_deep map_of_SomeD [OF Some] by (fastforce simp: list_all_iff)
  then show ?thesis
    using Some by (cases p) (simp add: sample_shape_def sample_into_def deep_copies_def)
qed

interpretation sample: library_copies sample_shape sample_lib
  by unfold_locales (simp_all add: sample_lib_def deep_copy_rules)

definition sample_tree :: tree where
  "sample_tree = PtrT (Some (StructT
     [(''TypeMeta'', StructT [(''Kind'', PrimT (PString ''Composition'')), (''APIVersion'', PrimT (PString ''eno.azure.io/v1''))]),
      (''ObjectMeta'', StructT
        [(''Name'', PrimT (PString ''c'')), (''Labels'', MapT (Some [(''app'', ''eno'')])),
         (''Annotations'', MapT None), (''Finalizers'', SliceT None)]),
      (''Spec'', StructT
        [(''Synthesizer'', StructT [(''Name'', PrimT (PString ''s''))]),
         (''Bindings'', SliceT None), (''SynthesisEnv'', SliceT None)]),
      (''Status'', StructT
        [(''Simplified'', PtrT None), (''CurrentSynthesis'', PtrT None),
         (''PreviousSynthesis'', PtrT None), (''PendingResynthesis'', PtrT None),
         (''InputRevisions'', SliceT (Some
           [StructT [(''Key'', PrimT (PString ''k'')), (''ResourceVersion'', PrimT (PString ''7'')),
              (''Revision'', PtrT (Some (PrimT (PInt 3)))), (''SynthesizerGeneration'', PtrT None)]]))])]))"

definition sample_heap :: heap where
  "sample_heap =
     [Tab [(''app'', ''eno'')],
      Cell (Prim (PInt 3)),
      Arr [Struct [(''Key'', Prim (PString ''k'')), (''ResourceVersion'', Prim (PString ''7'')),
        (''Revision'', Ptr (Some 1)), (''SynthesizerGeneration'', Ptr None)]],
      Cell (Struct
        [(''TypeMeta'', Struct [(''Kind'', Prim (PString ''Composition'')), (''APIVersion'', Prim (PString ''eno.azure.io/v1''))]),
         (''ObjectMeta'', Struct
           [(''Name'', Prim (PString ''c'')), (''Labels'', MapV (Some 0)),
            (''Annotations'', MapV None), (''Finalizers'', SliceV None)]),
         (''Spec'', Struct
           [(''Synthesizer'', Struct [(''Name'', Prim (PString ''s''))]),
            (''Bindings'', SliceV None), (''SynthesisEnv'', SliceV None)]),
         (''Status'', Struct
           [(''Simplified'', Ptr None), (''CurrentSynthesis'', Ptr None),
            (''PreviousSynthesis'', Ptr None), (''PendingResynthesis'', Ptr None),
            (''InputRevisions'', SliceV (Some (2, 0, 1)))])])]"

lemma sample_typed: "ptr_to (has_type sample_shape ty_Composition) sample_tree"
  by (simp add: sample_tree_def sample_shape_def sample_library_def ty_Composition_def
    ty_TypeMeta_def ty_CompositionSpec_def ty_SynthesizerRef_def ty_CompositionStatus_def
    ty_InputRevisions_def)

lemma sample_rep: "rep sample_heap sample_tree (Ptr (Some 3))"
  by (simp add: sample_tree_def sample_heap_def load_def load_arr_def load_tab_def)

lemma sample_foot: "3 \<in> foot sample_heap sample_tree (Ptr (Some 3))"
  by (simp add: sample_tree_def)

lemma sample_routine:
  "(''Composition'', ty_Composition, Composition_DeepCopy sample_lib) \<in> set (deep_copy_routines sample_lib)"
  "(''*v1.Composition'', ty_Composition, Composition_DeepCopyObject sample_lib)
     \<in> set (deep_copy_object_routines sample_lib)"
  by (simp_all add: deep_copy_routines_def deep_copy_object_routines_def)

section \<open>Properties\<close>

text \<open>
  C9. On a value of its declared type every generated copy routine returns: it does not panic, it
  leaves the store as it was and only appends to it, the copy stands for the same tree as the
  original (a nil stays nil, an empty slice or map stays empty), and everything that the copy
  reaches was allocated by the routine. The routines of other modules are assumed to copy deeply.
\<close>

theorem generated_copies_deep:
  assumes "\<And>n. deep_copies (X n) (lib_into L n)"
    and "\<And>n. deep_copies (ptr_to (X n)) (lib_copy L n)"
    and "(n, T, c) \<in> set (deep_copy_routines L)"
    and "ptr_to (has_type X T) t" and "rep h t v"
  shows "\<exists>h' w. c h v = Some (h', w) \<and> prefix h h' \<and> rep h' t w \<and>
    foot h' t w \<subseteq> {length h..<length h'}"
proof -
  have "library_copies X L" using assms(1,2) by unfold_locales
  then show ?thesis
    using library_copies.routine_copied [OF _ assms(3-5)] by (simp add: copied_def)
qed

theorem generated_copies_deep_witness:
  "rep sample_heap sample_tree (Ptr (Some 3)) \<and>
   (\<exists>h' w. Composition_DeepCopy sample_lib sample_heap (Ptr (Some 3)) = Some (h', w) \<and>
     prefix sample_heap h' \<and> rep h' sample_tree w \<and>
     foot h' sample_tree w \<subseteq> {length sample_heap..<length h'})"
  using generated_copies_deep [OF sample.into sample.copy sample_routine(1) sample_typed sample_rep]
    sample_rep by blast

text \<open>
  C16. Writes through a copy never reach the original, and writes to the original never reach the
  copy: after any sequence of writes to cells that the one reaches, the other still stands for the
  tree that was copied. So a controller may mutate \<open>obj.DeepCopy()\<close> of an object of the shared
  informer cache.
\<close>

theorem copy_independent:
  assumes "\<And>n. deep_copies (X n) (lib_into L n)"
    and "\<And>n. deep_copies (ptr_to (X n)) (lib_copy L n)"
    and "(n, T, c) \<in> set (deep_copy_routines L)"
    and "ptr_to (has_type X T) t" and "rep h t v" and "c h v = Some (h', w)"
  shows "(fst ` set ws \<subseteq> foot h' t w \<longrightarrow> rep (writes ws h') t v) \<and>
    (fst ` set ws \<subseteq> foot h t v \<longrightarrow> rep (writes ws h') t w)"
proof -
  have "library_copies X L" using assms(1,2) by unfold_locales
  then have c: "copied t h (h', w)"
    using library_copies.routine_copied [OF _ assms(3-5)] assms(6) by auto
  show ?thesis
    using copied_independent(2,3) [OF c assms(5)] by blast
qed

theorem copy_independent_witness:
  "\<exists>h' w. Composition_DeepCopy sample_lib sample_heap (Ptr (Some 3)) = Some (h', w) \<and>
     rep (writes [(3, Cell (Prim (PBool True)))] h') sample_tree w"
proof -
  obtain h' w where c: "Composition_DeepCopy sample_lib sample_heap (Ptr (Some 3)) = Some (h', w)"
    using sample.routine_copied [OF sample_routine(1) sample_typed sample_rep] by blast
  have "rep (writes [(3, Cell (Prim (PBool True)))] h') sample_tree w"
    using copy_independent [OF sample.into sample.copy sample_routine(1) sample_typed sample_rep c,
      of "[(3, Cell (Prim (PBool True)))]"] by (simp add: sample_foot)
  with c show ?thesis by blast
qed

text \<open>
  C37. \<open>DeepCopyObject\<close> of a value of its declared type answers with the nil interface exactly for a
  nil pointer, never with an interface that holds a nil pointer; otherwise the interface has the
  dynamic type of the receiver and holds a deep copy of it, of the declared type.
\<close>

theorem object_copies_typed:
  assumes "\<And>n. deep_copies (X n) (lib_into L n)"
    and "\<And>n. deep_copies (ptr_to (X n)) (lib_copy L n)"
    and "(n, T, f) \<in> set (deep_copy_object_routines L)"
    and "ptr_to (has_type X T) t" and "rep h t v"
  shows "(v = Ptr None \<and> f h v = Some (h, None)) \<or>
    (v \<noteq> Ptr None \<and> (\<exists>h' w. f h v = Some (h', Some (n, w)) \<and> w \<noteq> Ptr None \<and>
       prefix h h' \<and> rep h' t w \<and> foot h' t w \<subseteq> {length h..<length h'}))"
proof -
  have "library_copies X L" using assms(1,2) by unfold_locales
  then have "object_copies n (ptr_to (has_type X T)) f"
    using library_copies.object_routines assms(3) by (fastforce simp: list_all_iff)
  then obtain h' i where "f h v = Some (h', i)" and
    "case i of None \<Rightarrow> v = Ptr None \<and> h' = h
      | Some (m, w) \<Rightarrow> m = n \<and> v \<noteq> Ptr None \<and> w \<noteq> Ptr None \<and> copied t h (h', w)"
    using assms(4,5) unfolding object_copies_def by blast
  then show ?thesis by (cases i) (auto simp: copied_def)
qed

theorem object_copies_typed_witness:
  "\<exists>h' w. Composition_DeepCopyObject sample_lib sample_heap (Ptr (Some 3)) =
       Some (h', Some (''*v1.Composition'', w)) \<and> w \<noteq> Ptr None \<and> rep h' sample_tree w"
  using object_copies_typed [OF sample.into sample.copy sample_routine(2) sample_typed sample_rep]
  by blast

end
