(* ===== verification/Copy_Clients.thy ===== *)
theory Copy_Clients
  imports Api_Deep_Copy
begin

text \<open>
  The controllers that change a copy of an object they got from an informer cache, in memory: the
  composition aggregation (\<open>aggregation/composition.go\<close>), the symphony aggregation
  (\<open>aggregation/symphony.go\<close>) and the status write buffer (\<open>flowcontrol/writebuffer.go\<close>). The first
  two send a merge patch between the object and its copy (\<open>client.MergeFrom\<close>), so the object must
  not change with the copy; the third reads slices from a cache that is configured not to copy
  (\<open>UnsafeDisableDeepCopy\<close>), so a write would be seen by all other readers of the cache. The theory
  models the copy and the assignments that follow it; which values are assigned is modelled in the
  theories of the controllers.
\<close>

section \<open>Assignments through a pointer\<close>

text \<open>\<open>p.F.G = w\<close> for a pointer \<open>p\<close> to a struct whose fields on the way are structs themselves.\<close>

fun set_path :: "string list \<Rightarrow> gval \<Rightarrow> gval \<Rightarrow> gval option" where
  "set_path [] w x = Some w"
| "set_path (F # Fs) w x = do {
     y \<leftarrow> get_field F x;
     y' \<leftarrow> set_path Fs w y;
     set_field F y' x
   }"

fun get_path :: "string list \<Rightarrow> gval \<Rightarrow> gval option" where
  "get_path [] x = Some x"
| "get_path (F # Fs) x = do { y \<leftarrow> get_field F x; get_path Fs y }"

definition assign_path :: "heap \<Rightarrow> gval \<Rightarrow> string list \<Rightarrow> gval \<Rightarrow> heap option" where
  "assign_path h p Fs w = (case p of
     Ptr (Some a) \<Rightarrow> do { x \<leftarrow> load h a; x' \<leftarrow> set_path Fs w x; Some (h[a := Cell x']) }
   | _ \<Rightarrow> None)"

text \<open>The same on trees.\<close>

fun tree_field :: "string \<Rightarrow> tree \<Rightarrow> tree option" where
  "tree_field F (StructT ts) = map_of ts F"
| "tree_field F _ = None"

fun set_tree :: "string list \<Rightarrow> tree \<Rightarrow> tree \<Rightarrow> tree option" where
  "set_tree [] u t = Some u"
| "set_tree (F # Fs) u t = do {
     s \<leftarrow> tree_field F t;
     s' \<leftarrow> set_tree Fs u s;
     (case t of StructT ts \<Rightarrow> Some (StructT (AList.update F s' ts)) | _ \<Rightarrow> None)
   }"

section \<open>The clients\<close>

text \<open>\<open>copy := x.DeepCopy(); copy.F = w\<close>.\<close>

definition copy_and_assign :: "copier \<Rightarrow> string list \<Rightarrow> heap \<Rightarrow> gval \<Rightarrow> gval \<Rightarrow> (heap \<times> gval) option" where
  "copy_and_assign copy Fs h x w = do {
     (h1, c) \<leftarrow> copy h x;
     h2 \<leftarrow> assign_path h1 c Fs w;
     Some (h2, c)
   }"

definition symphony_copy :: "lib \<Rightarrow> heap \<Rightarrow> gval \<Rightarrow> gval \<Rightarrow> (heap \<times> gval) option" where
  "symphony_copy L h symph newStatus =
     copy_and_assign (Symphony_DeepCopy L) [''Status''] h symph newStatus"

definition composition_copy :: "lib \<Rightarrow> heap \<Rightarrow> gval \<Rightarrow> gval \<Rightarrow> (heap \<times> gval) option" where
  "composition_copy L h co next =
     copy_and_assign (Composition_DeepCopy L) [''Status'', ''Simplified''] h co next"

text \<open>The result of \<open>aggregate\<close>: a copy of the status of the composition, or a new one, in which
  the fields are assigned. Their final values are parameters.\<close>

definition zero_SimplifiedStatus_val :: gval where
  "zero_SimplifiedStatus_val = Struct [(''Status'', Prim (PString [])), (''Error'', Prim (PString []))]"

definition aggregate_copy :: "heap \<Rightarrow> gval \<Rightarrow> string \<Rightarrow> string \<Rightarrow> (heap \<times> gval) option" where
  "aggregate_copy h simplified status error = do {
     (h1, c) \<leftarrow> SimplifiedStatus_DeepCopy h simplified;
     (let (h2, c2) = (if is_nil c then (h1 @ [Cell zero_SimplifiedStatus_val], Ptr (Some (length h1)))
                      else (h1, c))
      in do {
        h3 \<leftarrow> assign_path h2 c2 [''Status''] (Prim (PString status));
        h4 \<leftarrow> assign_path h3 c2 [''Error''] (Prim (PString error));
        Some (h4, c2)
      })
   }"

text \<open>\<open>equality.Semantic.DeepEqual\<close> on two pointers to such a status: both nil, or equal structs of strings.\<close>

definition simplified_equal :: "heap \<Rightarrow> gval \<Rightarrow> gval \<Rightarrow> bool option" where
  "simplified_equal h p q =
     (if is_nil p \<or> is_nil q then Some (is_nil p \<and> is_nil q)
      else (case (p, q) of
          (Ptr (Some a), Ptr (Some b)) \<Rightarrow> do { x \<leftarrow> load h a; y \<leftarrow> load h b; Some (x = y) }
        | _ \<Rightarrow> None))"

text \<open>The end of the handler: the copy that is sent, \<open>None\<close> when the status is up to date.\<close>

definition aggregate_in_memory ::
  "lib \<Rightarrow> heap \<Rightarrow> gval \<Rightarrow> string \<Rightarrow> string \<Rightarrow> (heap \<times> gval option) option" where
  "aggregate_in_memory L h co status error = (case co of
     Ptr (Some a) \<Rightarrow> do {
       x \<leftarrow> load h a;
       simplified \<leftarrow> get_path [''Status'', ''Simplified''] x;
       (h1, next) \<leftarrow> aggregate_copy h simplified status error;
       eq \<leftarrow> simplified_equal h1 next simplified;
       if eq then Some (h1, None)
       else do {
         (h2, cp) \<leftarrow> composition_copy L h1 co next;
         Some (h2, Some cp)
       }
     }
   | _ \<Rightarrow> None)"

text \<open>The status array that the write buffer allocates before its first patch of a slice:
  \<open>copy.Status.Resources = make([]apiv1.ResourceState, len(slice.Spec.Resources))\<close>.\<close>

definition zero_ResourceState_val :: gval where
  "zero_ResourceState_val =
     Struct [(''Reconciled'', Prim (PBool False)), (''Ready'', Ptr None), (''Deleted'', Prim (PBool False))]"

definition slice_len :: "gval \<Rightarrow> nat" where
  "slice_len v = (case v of SliceV (Some (a, off, n)) \<Rightarrow> n | _ \<Rightarrow> 0)"

definition preallocate_status :: "lib \<Rightarrow> heap \<Rightarrow> gval \<Rightarrow> (heap \<times> gval) option" where
  "preallocate_status L h sl = (case sl of
     Ptr (Some a) \<Rightarrow> do {
       (h1, c) \<leftarrow> ResourceSlice_DeepCopy L h sl;
       x \<leftarrow> load h1 a;
       resources \<leftarrow> get_path [''Spec'', ''Resources''] x;
       (let n = slice_len resources; h2 = h1 @ [Arr (replicate n zero_ResourceState_val)] in
        do {
          h3 \<leftarrow> assign_path h2 c [''Status'', ''Resources''] (SliceV (Some (length h1, 0, n)));
          Some (h3, c)
        })
     }
   | _ \<Rightarrow> None)"

section \<open>Lemmas\<close>

lemma rep_fields_update:
  assumes "rep_fields h ts vs" and "F \<in> set (map fst ts)" and "rep h u w"
  shows "rep_fields h (AList.update F u ts) (AList.update F w vs) \<and>
    foot_fields h (AList.update F u ts) (AList.update F w vs) \<subseteq> foot_fields h ts vs \<union> foot h u w"
  using assms(1,2)
proof (induction ts arbitrary: vs)
  case (Cons p ts)
  obtain G t where p: "p = (G, t)" by (cases p)
  from Cons.prems(1) p obtain v vs' where vs: "vs = (G, v) # vs'" and r: "rep h t v" "rep_fields h ts vs'"
    by (auto split: list.splits)
  show ?case
  proof (cases "G = F")
    case True
    then show ?thesis using p vs r assms(3) by auto
  next
    case False
    then show ?thesis using Cons.IH [OF r(2)] Cons.prems(2) p vs r(1) by auto
  qed
qed simp

lemma rep_get_field:
  assumes "rep h t x" and "tree_field F t = Some s"
  obtains ts vs y where "t = StructT ts" and "x = Struct vs" and "get_field F x = Some y"
    and "rep h s y" and "foot h s y \<subseteq> foot h t x" and "F \<in> set (map fst ts)" and "F \<in> set (map fst vs)"
proof -
  from assms obtain ts vs where t: "t = StructT ts" "x = Struct vs" and r: "rep_fields h ts vs"
    and F: "map_of ts F = Some s"
    by (cases t) (auto split: gval.splits)
  have Fin: "F \<in> set (map fst ts)" "F \<in> set (map fst vs)"
    using F rep_fields_names [OF r] by (metis map_of_None_names option.distinct(1))+
  then obtain y where y: "map_of vs F = Some y" by (meson map_of_None_names not_None_eq)
  have "foot h s y \<subseteq> foot_fields h ts vs"
    using r F y by (induction ts arbitrary: vs) (fastforce split: list.splits if_splits)+
  then show thesis using that t y rep_fields_map_of [OF r F y] Fin by simp
qed

lemma set_path_rep:
  assumes "rep h t x" and "set_tree Fs u t = Some t'" and "rep h u w"
  shows "\<exists>x'. set_path Fs w x = Some x' \<and> rep h t' x' \<and> foot h t' x' \<subseteq> foot h t x \<union> foot h u w"
  using assms(1,2)
proof (induction Fs arbitrary: t x t')
  case (Cons F Fs)
  from Cons.prems(2) obtain s s' where s: "tree_field F t = Some s" "set_tree Fs u s = Some s'"
    by (auto split: Option.bind_splits)
  obtain ts vs y where t: "t = StructT ts" "x = Struct vs" and y: "get_field F x = Some y" "rep h s y"
    and fy: "foot h s y \<subseteq> foot h t x" and Fin: "F \<in> set (map fst ts)" "F \<in> set (map fst vs)"
    using rep_get_field [OF Cons.prems(1) s(1)] by blast
  obtain y' where y': "set_path Fs w y = Some y'" "rep h s' y'" "foot h s' y' \<subseteq> foot h s y \<union> foot h u w"
    using Cons.IH [OF y(2) s(2)] by blast
  have "rep_fields h ts vs" using Cons.prems(1) t by simp
  note upd = rep_fields_update [OF this Fin(1) y'(2)]
  have "t' = StructT (AList.update F s' ts)" using Cons.prems(2) s t by simp
  then show ?case using upd y y'(1,3) fy t Fin(2) by auto
qed (use assms(3) in auto)

text \<open>Assigning through a pointer whose cell nothing else reaches.\<close>

lemma assign_path_rep:
  assumes a: "load h a = Some x" and x: "rep h t x" "a \<notin> foot h t x"
    and w: "rep h u w" "a \<notin> foot h u w" and t': "set_tree Fs u t = Some t'"
  shows "\<exists>x'. assign_path h (Ptr (Some a)) Fs w = Some (h[a := Cell x']) \<and>
    rep (h[a := Cell x']) (PtrT (Some t')) (Ptr (Some a))"
proof -
  obtain x' where x': "set_path Fs w x = Some x'" "rep h t' x'" "foot h t' x' \<subseteq> foot h t x \<union> foot h u w"
    using set_path_rep [OF x(1) t' w(1)] by blast
  have "a \<notin> foot h t' x'" using x'(3) x(2) w(2) by auto
  then have "rep (h[a := Cell x']) t' x'"
    using rep_frame(1) [OF x'(2) agree_update] by simp
  moreover have "load (h[a := Cell x']) a = Some x'" using load_less [OF a] by (simp add: load_def)
  ultimately show ?thesis
    using a x'(1) by (intro exI [of _ x']) (simp add: assign_path_def)
qed

text \<open>The cell of a fresh copy is reached by nothing but the copy.\<close>

lemma deep_copy_root:
  assumes c: "deep_copies P c" and P: "P t" and r: "rep h (PtrT (Some t)) v"
  shows "\<exists>h' y. deep_copy c h v = Some (h', Ptr (Some (length h))) \<and> prefix h h' \<and>
    load h' (length h) = Some y \<and> rep h' t y \<and> foot h' t y \<subseteq> {length h<..<length h'}"
proof -
  have "\<not> is_nil v" using r by (auto split: gval.splits option.splits)
  then show ?thesis using new_into_root [OF assms] by (simp add: deep_copy_def)
qed

text \<open>The copy has the new value, everything that was there before is as it was.\<close>

lemma copy_and_assign_rep:
  assumes c: "deep_copies P c" and P: "P t" and v: "rep h (PtrT (Some t)) v"
    and w: "rep h u w" and t': "set_tree Fs u t = Some t'"
  shows "\<exists>h' y. copy_and_assign (deep_copy c) Fs h v w = Some (h', y) \<and> prefix h h' \<and>
    rep h' (PtrT (Some t')) y"
proof -
  obtain h1 y where copy: "deep_copy c h v = Some (h1, Ptr (Some (length h)))" and pre: "prefix h h1"
    and y: "load h1 (length h) = Some y" "rep h1 t y" "foot h1 t y \<subseteq> {length h<..<length h1}"
    using deep_copy_root [OF c P v] by blast
  have "length h \<notin> foot h1 u w"
    using rep_prefix(2) [OF pre w] foot_bound(1) [OF w] by auto
  moreover have "length h \<notin> foot h1 t y" using y(3) by auto
  ultimately obtain x' where
    "assign_path h1 (Ptr (Some (length h))) Fs w = Some (h1[length h := Cell x'])"
    and "rep (h1[length h := Cell x']) (PtrT (Some t')) (Ptr (Some (length h)))"
    using assign_path_rep [OF y(1,2) _ rep_prefix(1) [OF pre w] _ t'] by blast
  moreover have "prefix h (h1[length h := Cell x'])" using pre by (simp add: prefix_update_fresh)
  ultimately show ?thesis using copy by (auto simp: copy_and_assign_def)
qed

lemma has_type_field:
  assumes "has_type X (TStruct Fs) t" and "map_of Fs F = Some T" and "distinct (map fst Fs)"
  shows "\<exists>s. tree_field F t = Some s \<and> has_type X T s"
proof -
  from assms(1) obtain ts where t: "t = StructT ts" and ty: "fields_type X Fs ts"
    by (cases t) auto
  have "F \<in> set (map fst ts)"
    using assms(2) fields_type_names [OF ty] by (metis map_of_None_names option.distinct(1))
  then obtain s where s: "map_of ts F = Some s" by (meson map_of_None_names not_None_eq)
  then show ?thesis using fields_type_map_of [OF ty s] assms(2) t by auto
qed

lemma has_type_set_tree:
  assumes "has_type X (TStruct Fs) t" and "map_of Fs F = Some (TStruct Gs)" and "G \<in> set (map fst Gs)"
    and "distinct (map fst Fs)" and "distinct (map fst Gs)"
  shows "\<exists>t'. set_tree [F, G] u t = Some t'"
proof -
  obtain s where s: "tree_field F t = Some s" "has_type X (TStruct Gs) s"
    using has_type_field [OF assms(1,2,4)] by blast
  obtain T where "map_of Gs G = Some T" using assms(3) by (meson map_of_None_names not_None_eq)
  then obtain r where "tree_field G s = Some r" using has_type_field [OF s(2) _ assms(5)] by blast
  then show ?thesis using s(1) by (cases t; cases s) auto
qed

lemma composition_set_tree:
  "has_type X ty_Composition t \<Longrightarrow> \<exists>t'. set_tree [''Status'', ''Simplified''] u t = Some t'"
  unfolding ty_Composition_def ty_CompositionStatus_def
  by (erule has_type_set_tree, simp, simp_all)

lemma slice_set_tree:
  "has_type X ty_ResourceSlice t \<Longrightarrow> \<exists>t'. set_tree [''Status'', ''Resources''] u t = Some t'"
  unfolding ty_ResourceSlice_def ty_ResourceSliceStatus_def
  by (erule has_type_set_tree, simp, simp_all)

subsection \<open>The status of a composition\<close>

definition simplified_tree :: "string \<Rightarrow> string \<Rightarrow> tree" where
  "simplified_tree status error =
     StructT [(''Status'', PrimT (PString status)), (''Error'', PrimT (PString error))]"

lemma has_type_prim: "has_type X (TPrim p) t \<longleftrightarrow> (\<exists>q. t = PrimT q \<and> prim_type q = Some p)"
  by (cases t) auto

lemma has_type_string: "has_type X (TPrim GString) t \<longleftrightarrow> (\<exists>s. t = PrimT (PString s))"
  unfolding has_type_prim by (auto elim: prim_type.elims)

lemma simplified_value:
  assumes "has_type X ty_SimplifiedStatus t" and "rep h t y"
  shows "\<exists>p q. t = StructT [(''Status'', PrimT (PString p)), (''Error'', PrimT (PString q))] \<and>
    y = Struct [(''Status'', Prim (PString p)), (''Error'', Prim (PString q))]"
  using assms
  by (cases t; cases y)
    (auto simp: ty_SimplifiedStatus_def has_type_string simp del: has_type.simps(1) split: list.splits)

lemma aggregate_assignments:
  assumes "prefix h h2" and "load h2 (length h) = Some (Struct [(''Status'', Prim (PString p)), (''Error'', Prim (PString q))])"
  shows "\<exists>h'. do {
      h3 \<leftarrow> assign_path h2 (Ptr (Some (length h))) [''Status''] (Prim (PString status));
      h4 \<leftarrow> assign_path h3 (Ptr (Some (length h))) [''Error''] (Prim (PString error));
      Some (h4, Ptr (Some (length h)))
    } = Some (h', Ptr (Some (length h))) \<and> prefix h h' \<and>
    rep h' (PtrT (Some (simplified_tree status error))) (Ptr (Some (length h)))"
  using assms load_less [OF assms(2)]
  by (simp add: assign_path_def load_def simplified_tree_def prefix_update_fresh)

lemma aggregate_copy_rep:
  assumes ty: "ptr_to (has_type X ty_SimplifiedStatus) s" and r: "rep h s v"
  shows "\<exists>h' y. aggregate_copy h v status error = Some (h', y) \<and> prefix h h' \<and>
    rep h' (PtrT (Some (simplified_tree status error))) y"
proof (cases "s = PtrT None")
  case True
  then have "v = Ptr None" using r by simp
  moreover have "load (h @ [Cell zero_SimplifiedStatus_val]) (length h)
      = Some (Struct [(''Status'', Prim (PString [])), (''Error'', Prim (PString []))])"
    by (simp add: load_def zero_SimplifiedStatus_val_def)
  ultimately show ?thesis
    using aggregate_assignments [of h "h @ [Cell zero_SimplifiedStatus_val]" _ _ status error]
    by (auto simp: aggregate_copy_def SimplifiedStatus_DeepCopy_def deep_copy_def)
next
  case False
  then obtain t where s: "s = PtrT (Some t)" and t: "has_type X ty_SimplifiedStatus t"
    using ty by (cases s) (auto split: option.splits)
  obtain h1 y where copy: "SimplifiedStatus_DeepCopy h v = Some (h1, Ptr (Some (length h)))"
    and pre: "prefix h h1" and y: "load h1 (length h) = Some y" "rep h1 t y"
    using deep_copy_root [OF SimplifiedStatus_into t] r s unfolding SimplifiedStatus_DeepCopy_def by blast
  obtain p q where "y = Struct [(''Status'', Prim (PString p)), (''Error'', Prim (PString q))]"
    using simplified_value [OF t y(2)] by blast
  then show ?thesis
    using aggregate_assignments [OF pre, of p q status error] y(1) copy
    by (auto simp: aggregate_copy_def)
qed

lemma simplified_equal_rep:
  assumes ty: "has_type X (TPtr ty_SimplifiedStatus) s" and z: "rep h s z"
    and nx: "rep h (PtrT (Some (simplified_tree status error))) nx"
  shows "simplified_equal h nx z = Some (s = PtrT (Some (simplified_tree status error)))"
proof -
  obtain a where a: "nx = Ptr (Some a)"
    "load h a = Some (Struct [(''Status'', Prim (PString status)), (''Error'', Prim (PString error))])"
    using nx by (auto simp: simplified_tree_def split: gval.splits option.splits list.splits)
  show ?thesis
  proof (cases "s = PtrT None")
    case True
    then show ?thesis using z a by (simp add: simplified_equal_def)
  next
    case False
    then obtain t where s: "s = PtrT (Some t)" and t: "has_type X ty_SimplifiedStatus t"
      using ty unfolding has_type_TPtr by (cases s) (auto split: option.splits)
    from z s obtain b y where b: "z = Ptr (Some b)" "load h b = Some y" "rep h t y"
      by (auto split: gval.splits option.splits)
    obtain p q where "t = StructT [(''Status'', PrimT (PString p)), (''Error'', PrimT (PString q))]"
      "y = Struct [(''Status'', Prim (PString p)), (''Error'', Prim (PString q))]"
      using simplified_value [OF t b(3)] by blast
    then show ?thesis using a b s by (auto simp: simplified_equal_def simplified_tree_def)
  qed
qed

context library_copies
begin

lemma composition_copy_rep:
  assumes "has_type X ty_Composition t" and "rep h (PtrT (Some t)) v" and "rep h u w"
    and "set_tree [''Status'', ''Simplified''] u t = Some t'"
  shows "\<exists>h' y. composition_copy L h v w = Some (h', y) \<and> prefix h h' \<and> rep h' (PtrT (Some t')) y"
  unfolding composition_copy_def Composition_DeepCopy_def
  by (rule copy_and_assign_rep [OF Composition_into assms])

lemma symphony_copy_rep:
  assumes "has_type X ty_Symphony t" and "rep h (PtrT (Some t)) v" and "rep h u w"
    and "set_tree [''Status''] u t = Some t'"
  shows "\<exists>h' y. symphony_copy L h v w = Some (h', y) \<and> prefix h h' \<and> rep h' (PtrT (Some t')) y"
  unfolding symphony_copy_def Symphony_DeepCopy_def
  by (rule copy_and_assign_rep [OF Symphony_into assms])

lemma aggregate_in_memory_rep:
  assumes ty: "has_type X ty_Composition t" and r: "rep h (PtrT (Some t)) co"
    and st: "tree_field ''Status'' t = Some st" and si: "tree_field ''Simplified'' st = Some si"
    and t': "set_tree [''Status'', ''Simplified''] (PtrT (Some (simplified_tree status error))) t = Some t'"
  shows "\<exists>h' y. aggregate_in_memory L h co status error = Some (h', y) \<and> rep h' (PtrT (Some t)) co \<and>
    (if si = PtrT (Some (simplified_tree status error)) then y = None
     else \<exists>c. y = Some c \<and> rep h' (PtrT (Some t')) c)"
proof -
  from r obtain a x where co: "co = Ptr (Some a)" and x: "load h a = Some x" "rep h t x"
    by (auto split: gval.splits option.splits)
  have st_ty: "has_type X ty_CompositionStatus st"
    using has_type_field [OF ty [unfolded ty_Composition_def], of "''Status''"] st by auto
  have si_ty: "has_type X (TPtr ty_SimplifiedStatus) si"
    using has_type_field [OF st_ty [unfolded ty_CompositionStatus_def], of "''Simplified''"] si by auto
  obtain y where y: "get_field ''Status'' x = Some y" "rep h st y"
    using rep_get_field [OF x(2) st] by metis
  obtain z where z: "get_field ''Simplified'' y = Some z" "rep h si z"
    using rep_get_field [OF y(2) si] by metis
  obtain h1 nx where nx: "aggregate_copy h z status error = Some (h1, nx)" "prefix h h1"
    "rep h1 (PtrT (Some (simplified_tree status error))) nx"
    using aggregate_copy_rep [OF _ z(2), of X status error] si_ty unfolding has_type_TPtr by blast
  have eq: "simplified_equal h1 nx z = Some (si = PtrT (Some (simplified_tree status error)))"
    by (rule simplified_equal_rep [OF si_ty rep_prefix(1) [OF nx(2) z(2)] nx(3)])
  obtain h2 c where c: "composition_copy L h1 co nx = Some (h2, c)" "prefix h1 h2" "rep h2 (PtrT (Some t')) c"
    using composition_copy_rep [OF ty rep_prefix(1) [OF nx(2) r] nx(3) t'] by blast
  have "rep h1 (PtrT (Some t)) co" "rep h2 (PtrT (Some t)) co"
    using rep_prefix(1) [OF _ r] nx(2) prefix_order.trans [OF nx(2) c(2)] by blast+
  then show ?thesis using co x(1) y(1) z(1) nx(1) eq c by (simp add: aggregate_in_memory_def)
qed

end

subsection \<open>The status of a slice\<close>

definition zero_state_tree :: tree where
  "zero_state_tree =
     StructT [(''Reconciled'', PrimT (PBool False)), (''Ready'', PtrT None), (''Deleted'', PrimT (PBool False))]"

fun tree_len :: "tree \<Rightarrow> nat" where
  "tree_len (SliceT (Some ts)) = length ts"
| "tree_len _ = 0"

lemma slice_len_rep: "rep h (SliceT s) z \<Longrightarrow> slice_len z = tree_len (SliceT s)"
  by (cases s)
    (auto simp: slice_len_def load_arr_def rep_list_nth split: gval.splits option.splits if_splits cell.splits)

lemma zero_states_rep:
  fixes h :: heap and n :: nat
  defines "h' \<equiv> h @ [Arr (replicate n zero_ResourceState_val)]"
  shows "rep h' (SliceT (Some (replicate n zero_state_tree))) (SliceV (Some (length h, 0, n)))"
    and "foot h' (SliceT (Some (replicate n zero_state_tree))) (SliceV (Some (length h, 0, n))) = {length h}"
proof -
  have z: "rep h' zero_state_tree zero_ResourceState_val" "foot h' zero_state_tree zero_ResourceState_val = {}"
    by (simp_all add: zero_state_tree_def zero_ResourceState_val_def)
  have l: "load_arr h' (length h, 0, n) = Some (replicate n zero_ResourceState_val)"
    by (simp add: load_arr_def h'_def)
  show "rep h' (SliceT (Some (replicate n zero_state_tree))) (SliceV (Some (length h, 0, n)))"
    using l z by (simp add: rep_list_nth)
  show "foot h' (SliceT (Some (replicate n zero_state_tree))) (SliceV (Some (length h, 0, n))) = {length h}"
    using l z by (simp add: foot_list_nth)
qed

context library_copies
begin

lemma preallocate_status_rep:
  assumes ty: "has_type X ty_ResourceSlice t" and r: "rep h (PtrT (Some t)) sl"
    and sp: "tree_field ''Spec'' t = Some sp" "tree_field ''Resources'' sp = Some rs"
    and t': "set_tree [''Status'', ''Resources''] (SliceT (Some (replicate (tree_len rs) zero_state_tree))) t = Some t'"
  shows "\<exists>h' y. preallocate_status L h sl = Some (h', y) \<and>
    rep h' (PtrT (Some t)) sl \<and> rep h' (PtrT (Some t')) y"
proof -
  let ?n = "tree_len rs"
  from r obtain a x where sl: "sl = Ptr (Some a)" and x: "load h a = Some x" "rep h t x"
    by (auto split: gval.splits option.splits)
  obtain h1 y where copy: "ResourceSlice_DeepCopy L h sl = Some (h1, Ptr (Some (length h)))"
    and pre: "prefix h h1" and y: "load h1 (length h) = Some y" "rep h1 t y"
    "foot h1 t y \<subseteq> {length h<..<length h1}"
    using deep_copy_root [OF ResourceSlice_into ty r] unfolding ResourceSlice_DeepCopy_def by blast
  have x1: "load h1 a = Some x"
    using pre x(1) load_less [OF x(1)] by (auto simp: load_def prefix_def nth_append)
  obtain z where z: "get_field ''Spec'' x = Some z" "rep h sp z"
    using rep_get_field [OF x(2) sp(1)] by metis
  obtain v where v: "get_field ''Resources'' z = Some v" "rep h rs v"
    using rep_get_field [OF z(2) sp(2)] by metis
  have "has_type X ty_ResourceSliceSpec sp"
    using has_type_field [OF ty [unfolded ty_ResourceSlice_def], of "''Spec''"] sp(1) by auto
  then have "has_type X (TSlice ty_Manifest) rs"
    using has_type_field [of X _ sp "''Resources''"] sp(2) unfolding ty_ResourceSliceSpec_def by fastforce
  then obtain s where "rs = SliceT s" by (cases rs) auto
  then have n: "slice_len v = ?n" using slice_len_rep v(2) by blast
  define h2 where "h2 = h1 @ [Arr (replicate ?n zero_ResourceState_val)]"
  have p12: "prefix h1 h2" by (simp add: h2_def)
  have len: "length h < length h1" using load_less [OF y(1)] .
  have y2: "load h2 (length h) = Some y" "rep h2 t y" "length h \<notin> foot h2 t y"
    using y(1,3) len rep_prefix [OF p12 y(2)] by (auto simp: load_def h2_def nth_append)
  note zs = zero_states_rep [of h1 ?n, folded h2_def]
  have "length h \<notin> {length h1}" using len by simp
  then obtain x' where asg: "assign_path h2 (Ptr (Some (length h))) [''Status'', ''Resources'']
      (SliceV (Some (length h1, 0, ?n))) = Some (h2[length h := Cell x'])"
    and rep: "rep (h2[length h := Cell x']) (PtrT (Some t')) (Ptr (Some (length h)))"
    using assign_path_rep [OF y2 zs(1) _ t'] unfolding zs(2) by blast
  have "prefix h (h2[length h := Cell x'])"
    using prefix_order.trans [OF pre p12] by (simp add: prefix_update_fresh)
  then have "rep (h2[length h := Cell x']) (PtrT (Some t)) sl" using rep_prefix(1) r by blast
  then show ?thesis
    using sl copy x1 z(1) v(1) n asg rep by (simp add: preallocate_status_def Let_def h2_def)
qed

end

section \<open>Inputs and resource lists\<close>

definition NewInput :: "string \<Rightarrow> gval \<Rightarrow> gval" where
  "NewInput key res = Struct
     [(''TypeMeta'', Struct [(''Kind'', Prim (PString ''Input'')), (''APIVersion'', Prim (PString ''eno.azure.io/v1''))]),
      (''Key'', Prim (PString key)), (''Resource'', res)]"

lemma NewInput_typed:
  assumes "has_type X ty_InputResource t" and "rep h t res"
  shows "\<exists>u. has_type X ty_Input u \<and> rep h u (NewInput key res)"
  by (rule exI [of _ "StructT
       [(''TypeMeta'', StructT [(''Kind'', PrimT (PString ''Input'')), (''APIVersion'', PrimT (PString ''eno.azure.io/v1''))]),
        (''Key'', PrimT (PString key)), (''Resource'', t)]"])
    (simp add: assms ty_Input_def ty_TypeMeta_def NewInput_def)

text \<open>The methods of \<open>register.go\<close>. How a group, version and kind is split into two strings and read
  back belongs to apimachinery.\<close>

definition krm_GetObjectKind :: "gval \<Rightarrow> gval" where
  "krm_GetObjectKind obj = obj"

definition krm_SetGroupVersionKind ::
  "('g \<Rightarrow> string \<times> string) \<Rightarrow> heap \<Rightarrow> gval \<Rightarrow> 'g \<Rightarrow> heap option" where
  "krm_SetGroupVersionKind toAPIVersionAndKind h obj gvk = do {
     let (apiVersion, kind) = toAPIVersionAndKind gvk;
     h1 \<leftarrow> assign_path h obj [''APIVersion''] (Prim (PString apiVersion));
     assign_path h1 obj [''Kind''] (Prim (PString kind))
   }"

definition krm_GroupVersionKind ::
  "(string \<Rightarrow> string \<Rightarrow> 'g) \<Rightarrow> heap \<Rightarrow> gval \<Rightarrow> 'g option" where
  "krm_GroupVersionKind fromAPIVersionAndKind h obj = (case obj of
     Ptr (Some a) \<Rightarrow> do {
       x \<leftarrow> load h a;
       apiVersion \<leftarrow> get_field ''APIVersion'' x;
       kind \<leftarrow> get_field ''Kind'' x;
       (case (apiVersion, kind) of
          (Prim (PString v), Prim (PString k)) \<Rightarrow> Some (fromAPIVersionAndKind v k)
        | _ \<Rightarrow> None)
     }
   | _ \<Rightarrow> None)"

lemma krm_gvk_roundtrip:
  assumes ty: "has_type X ty_krm_ResourceList t" and r: "rep h (PtrT (Some t)) obj"
    and inv: "fromAPIVersionAndKind (fst (to gvk)) (snd (to gvk)) = gvk"
  shows "\<exists>h'. krm_SetGroupVersionKind to h obj gvk = Some h' \<and>
    krm_GroupVersionKind fromAPIVersionAndKind h' (krm_GetObjectKind obj) = Some gvk"
proof -
  from r obtain a x where obj: "obj = Ptr (Some a)" and x: "load h a = Some x" "rep h t x"
    by (auto split: gval.splits option.splits)
  from ty x(2) obtain v k rest where "x = Struct ((''APIVersion'', v) # (''Kind'', k) # rest)"
    by (cases t; cases x) (auto simp: ty_krm_ResourceList_def split: list.splits)
  then have "krm_SetGroupVersionKind to h obj gvk =
      Some (h[a := Cell (Struct ((''APIVersion'', Prim (PString (fst (to gvk)))) #
        (''Kind'', Prim (PString (snd (to gvk)))) # rest))])"
    using x(1) obj load_less [OF x(1)]
    by (cases "to gvk") (simp add: krm_SetGroupVersionKind_def assign_path_def load_def)
  then show ?thesis
    using obj inv load_less [OF x(1)]
    by (simp add: krm_GroupVersionKind_def krm_GetObjectKind_def load_def)
qed

section \<open>The clients leave the cache alone\<close>

text \<open>
  When the aggregation controller builds the patch of a composition, the composition it read is still
  what it was, also where its simplified status was copied to compute the next one. When that is the
  status it has, nothing is sent; otherwise the copy is that composition with the new status.
\<close>

lemma patch_base_unchanged:
  assumes "\<And>n. deep_copies (X n) (lib_into L n)"
    and "\<And>n. deep_copies (ptr_to (X n)) (lib_copy L n)"
    and ty: "has_type X ty_Composition t" and "rep h (PtrT (Some t)) co"
  shows "\<exists>h' y st si t'. aggregate_in_memory L h co status error = Some (h', y) \<and>
    tree_field ''Status'' t = Some st \<and> tree_field ''Simplified'' st = Some si \<and>
    has_type X (TPtr ty_SimplifiedStatus) si \<and>
    set_tree [''Status'', ''Simplified''] (PtrT (Some (simplified_tree status error))) t = Some t' \<and>
    rep h' (PtrT (Some t)) co \<and>
    (if si = PtrT (Some (simplified_tree status error)) then y = None
     else \<exists>c. y = Some c \<and> rep h' (PtrT (Some t')) c)"
proof -
  have lib: "library_copies X L" using assms(1,2) by unfold_locales
  obtain st where st: "tree_field ''Status'' t = Some st" "has_type X ty_CompositionStatus st"
    using has_type_field [OF ty [unfolded ty_Composition_def], of "''Status''"] by auto
  obtain si where si: "tree_field ''Simplified'' st = Some si" "has_type X (TPtr ty_SimplifiedStatus) si"
    using has_type_field [OF st(2) [unfolded ty_CompositionStatus_def], of "''Simplified''"] by auto
  obtain t' where
    t': "set_tree [''Status'', ''Simplified''] (PtrT (Some (simplified_tree status error))) t = Some t'"
    using composition_set_tree [OF ty] by blast
  show ?thesis
    using library_copies.aggregate_in_memory_rep [OF lib assms(3,4) st(1) si(1) t'] st(1) si t' by blast
qed

text \<open>
  When the status write buffer allocates the status of a slice, the slice in the informer
  cache, which is handed out without a copy, is still what it was, and the copy is that slice with
  one zero state per manifest.
\<close>

lemma cached_slice_unchanged:
  assumes "\<And>n. deep_copies (X n) (lib_into L n)"
    and "\<And>n. deep_copies (ptr_to (X n)) (lib_copy L n)"
    and ty: "has_type X ty_ResourceSlice t" and "rep h (PtrT (Some t)) sl"
  shows "\<exists>h' y sp rs t'. preallocate_status L h sl = Some (h', y) \<and>
    tree_field ''Spec'' t = Some sp \<and> tree_field ''Resources'' sp = Some rs \<and>
    set_tree [''Status'', ''Resources''] (SliceT (Some (replicate (tree_len rs) zero_state_tree))) t = Some t' \<and>
    rep h' (PtrT (Some t)) sl \<and> rep h' (PtrT (Some t')) y"
proof -
  have "library_copies X L" using assms(1,2) by unfold_locales
  moreover obtain sp where sp: "tree_field ''Spec'' t = Some sp" "has_type X ty_ResourceSliceSpec sp"
    using has_type_field [OF ty [unfolded ty_ResourceSlice_def], of "''Spec''"] by auto
  moreover obtain rs where "tree_field ''Resources'' sp = Some rs"
    using has_type_field [OF sp(2) [unfolded ty_ResourceSliceSpec_def], of "''Resources''"] by auto
  moreover obtain t' where "set_tree [''Status'', ''Resources'']
      (SliceT (Some (replicate (tree_len rs) zero_state_tree))) t = Some t'"
    using slice_set_tree [OF ty] by blast
  ultimately show ?thesis using library_copies.preallocate_status_rep assms(3,4) by blast
qed

definition sample_slice_tree :: tree where
  "sample_slice_tree = StructT
     [(''TypeMeta'', StructT [(''Kind'', PrimT (PString [])), (''APIVersion'', PrimT (PString []))]),
      (''ObjectMeta'', StructT
        [(''Name'', PrimT (PString ''s'')), (''Labels'', MapT None), (''Annotations'', MapT None),
         (''Finalizers'', SliceT None)]),
      (''Spec'', StructT
        [(''CompositionGeneration'', PrimT (PInt64 1)), (''SynthesisUUID'', PrimT (PString ''u'')),
         (''Attempt'', PrimT (PInt 1)),
         (''Resources'', SliceT (Some
           [StructT [(''Manifest'', PrimT (PString [])), (''Deleted'', PrimT (PBool False))]]))]),
      (''Status'', StructT [(''Resources'', SliceT None)])]"

definition sample_slice_heap :: heap where
  "sample_slice_heap =
     [Arr [Struct [(''Manifest'', Prim (PString [])), (''Deleted'', Prim (PBool False))]],
      Cell (Struct
        [(''TypeMeta'', Struct [(''Kind'', Prim (PString [])), (''APIVersion'', Prim (PString []))]),
         (''ObjectMeta'', Struct
           [(''Name'', Prim (PString ''s'')), (''Labels'', MapV None), (''Annotations'', MapV None),
            (''Finalizers'', SliceV None)]),
         (''Spec'', Struct
           [(''CompositionGeneration'', Prim (PInt64 1)), (''SynthesisUUID'', Prim (PString ''u'')),
            (''Attempt'', Prim (PInt 1)), (''Resources'', SliceV (Some (0, 0, 1)))]),
         (''Status'', Struct [(''Resources'', SliceV None)])])]"

lemma sample_slice_rep:
  "has_type sample_shape ty_ResourceSlice sample_slice_tree"
  "rep sample_slice_heap (PtrT (Some sample_slice_tree)) (Ptr (Some 1))"
  by (simp_all add: sample_slice_tree_def sample_slice_heap_def sample_shape_def sample_library_def
    ty_ResourceSlice_def ty_TypeMeta_def ty_ResourceSliceSpec_def ty_Manifest_def
    ty_ResourceSliceStatus_def load_defs)

end
