(* ===== verification/Memory_Refinement.thy ===== *)
theory Memory_Refinement
  imports Copy_Clients Aggregation Write_Buffer
begin

text \<open>
  From objects in memory to the records of \<open>Api_Types\<close>. An abstraction function reads a tree of a
  Go struct as the record that stands for the struct everywhere else in this development; the
  metadata and instants of other modules are read by the parameter \<open>M\<close>. The theorems close the gap
  between the two levels: what the controllers do in memory with a copy of a cached object is what
  their models do with the record, and leaves the cached object alone; and a method that compares
  through pointers (\<open>InputRevisions.Equal\<close>) is the comparison of the records.
\<close>

section \<open>Abstraction functions\<close>

record meta_abs =
  abs_ObjectMeta :: "tree \<Rightarrow> ObjectMeta"
  abs_Time :: "tree \<Rightarrow> time"

definition fld :: "string \<Rightarrow> tree \<Rightarrow> tree" where
  "fld F t = (case tree_field F t of Some s \<Rightarrow> s | None \<Rightarrow> StructT [])"

fun abs_string :: "tree \<Rightarrow> string" where
  "abs_string (PrimT (PString s)) = s"
| "abs_string _ = []"

fun abs_int :: "tree \<Rightarrow> int" where
  "abs_int (PrimT (PInt i)) = sint i"
| "abs_int (PrimT (PInt64 i)) = sint i"
| "abs_int _ = 0"

fun abs_bool :: "tree \<Rightarrow> bool" where
  "abs_bool (PrimT (PBool b)) = b"
| "abs_bool _ = False"

fun abs_ptr :: "(tree \<Rightarrow> 'a) \<Rightarrow> tree \<Rightarrow> 'a option" where
  "abs_ptr f (PtrT p) = map_option f p"
| "abs_ptr f _ = None"

fun abs_slice :: "(tree \<Rightarrow> 'a) \<Rightarrow> tree \<Rightarrow> 'a list option" where
  "abs_slice f (SliceT s) = map_option (map f) s"
| "abs_slice f _ = None"

text \<open>Where the code does not tell a nil slice from an empty one, the records have a list.\<close>

definition abs_list :: "(tree \<Rightarrow> 'a) \<Rightarrow> tree \<Rightarrow> 'a list" where
  "abs_list f t = (case abs_slice f t of None \<Rightarrow> [] | Some xs \<Rightarrow> xs)"

fun abs_strmap :: "tree \<Rightarrow> strmap" where
  "abs_strmap (MapT m) = m"
| "abs_strmap _ = None"

definition abs_SimplifiedStatus :: "tree \<Rightarrow> SimplifiedStatus" where
  "abs_SimplifiedStatus t =
     \<lparr>ss_Status = abs_string (fld ''Status'' t), ss_Error = abs_string (fld ''Error'' t)\<rparr>"

definition abs_InputRevisions :: "tree \<Rightarrow> InputRevisions" where
  "abs_InputRevisions t =
     \<lparr>ir_Key = abs_string (fld ''Key'' t), ir_ResourceVersion = abs_string (fld ''ResourceVersion'' t),
      ir_Revision = abs_ptr abs_int (fld ''Revision'' t),
      ir_SynthesizerGeneration = abs_ptr abs_int (fld ''SynthesizerGeneration'' t)\<rparr>"

definition abs_Result :: "tree \<Rightarrow> Result" where
  "abs_Result t =
     \<lparr>Message = abs_string (fld ''Message'' t), Severity = abs_string (fld ''Severity'' t),
      Tags = abs_strmap (fld ''Tags'' t)\<rparr>"

text \<open>A reference to a slice stands for its name.\<close>

definition abs_SliceRef :: "tree \<Rightarrow> string" where
  "abs_SliceRef t = (case t of PtrT (Some r) \<Rightarrow> abs_string (fld ''Name'' r) | _ \<Rightarrow> [])"

definition abs_Synthesis :: "meta_abs \<Rightarrow> tree \<Rightarrow> Synthesis" where
  "abs_Synthesis M t =
     \<lparr>UUID = abs_string (fld ''UUID'' t),
      ObservedCompositionGeneration = abs_int (fld ''ObservedCompositionGeneration'' t),
      ObservedSynthesizerGeneration = abs_int (fld ''ObservedSynthesizerGeneration'' t),
      Initialized = abs_ptr (abs_Time M) (fld ''Initialized'' t),
      PodCreation = abs_ptr (abs_Time M) (fld ''PodCreation'' t),
      Synthesized = abs_ptr (abs_Time M) (fld ''Synthesized'' t),
      Reconciled = abs_ptr (abs_Time M) (fld ''Reconciled'' t),
      Ready = abs_ptr (abs_Time M) (fld ''Ready'' t),
      Attempts = abs_int (fld ''Attempts'' t),
      ResourceSlices = abs_list abs_SliceRef (fld ''ResourceSlices'' t),
      Results = abs_list abs_Result (fld ''Results'' t),
      syn_InputRevisions = abs_list abs_InputRevisions (fld ''InputRevisions'' t),
      Deferred = abs_bool (fld ''Deferred'' t)\<rparr>"

definition abs_CompositionStatus :: "meta_abs \<Rightarrow> tree \<Rightarrow> CompositionStatus" where
  "abs_CompositionStatus M t =
     \<lparr>Simplified = abs_ptr abs_SimplifiedStatus (fld ''Simplified'' t),
      CurrentSynthesis = abs_ptr (abs_Synthesis M) (fld ''CurrentSynthesis'' t),
      PreviousSynthesis = abs_ptr (abs_Synthesis M) (fld ''PreviousSynthesis'' t),
      PendingResynthesis = abs_ptr (abs_Time M) (fld ''PendingResynthesis'' t),
      InputRevs = abs_list abs_InputRevisions (fld ''InputRevisions'' t)\<rparr>"

definition abs_Binding :: "tree \<Rightarrow> Binding" where
  "abs_Binding t =
     \<lparr>b_Key = abs_string (fld ''Key'' t),
      b_Resource = \<lparr>rb_Name = abs_string (fld ''Name'' (fld ''Resource'' t)),
        rb_Namespace = abs_string (fld ''Namespace'' (fld ''Resource'' t))\<rparr>\<rparr>"

definition abs_EnvVar :: "tree \<Rightarrow> EnvVar" where
  "abs_EnvVar t = \<lparr>ev_Name = abs_string (fld ''Name'' t), ev_Value = abs_string (fld ''Value'' t)\<rparr>"

definition abs_CompositionSpec :: "tree \<Rightarrow> CompositionSpec" where
  "abs_CompositionSpec t =
     \<lparr>SynthesizerName = abs_string (fld ''Name'' (fld ''Synthesizer'' t)),
      Bindings = abs_list abs_Binding (fld ''Bindings'' t),
      SynthesisEnv = abs_list abs_EnvVar (fld ''SynthesisEnv'' t)\<rparr>"

definition abs_Composition :: "meta_abs \<Rightarrow> tree \<Rightarrow> Composition" where
  "abs_Composition M t =
     ObjectMeta.extend (abs_ObjectMeta M (fld ''ObjectMeta'' t))
       (Composition.fields (abs_CompositionSpec (fld ''Spec'' t)) (abs_CompositionStatus M (fld ''Status'' t)))"

definition abs_Manifest :: "tree \<Rightarrow> Manifest" where
  "abs_Manifest t = \<lparr>manifest = abs_string (fld ''Manifest'' t), m_Deleted = abs_bool (fld ''Deleted'' t)\<rparr>"

definition abs_ResourceState :: "meta_abs \<Rightarrow> tree \<Rightarrow> ResourceState" where
  "abs_ResourceState M t =
     \<lparr>rs_Reconciled = abs_bool (fld ''Reconciled'' t), rs_Ready = abs_ptr (abs_Time M) (fld ''Ready'' t),
      rs_Deleted = abs_bool (fld ''Deleted'' t)\<rparr>"

definition abs_ResourceSliceSpec :: "tree \<Rightarrow> ResourceSliceSpec" where
  "abs_ResourceSliceSpec t =
     \<lparr>CompositionGeneration = abs_int (fld ''CompositionGeneration'' t),
      SynthesisUUID = abs_string (fld ''SynthesisUUID'' t), Attempt = abs_int (fld ''Attempt'' t),
      Resources = abs_list abs_Manifest (fld ''Resources'' t)\<rparr>"

definition abs_ResourceSlice :: "meta_abs \<Rightarrow> tree \<Rightarrow> ResourceSlice" where
  "abs_ResourceSlice M t =
     ObjectMeta.extend (abs_ObjectMeta M (fld ''ObjectMeta'' t))
       (ResourceSlice.fields (abs_ResourceSliceSpec (fld ''Spec'' t))
         (abs_slice (abs_ResourceState M) (fld ''Resources'' (fld ''Status'' t))))"

section \<open>Assigning a field of the tree updates the record\<close>

lemma fld_set_same:
  "set_tree (F # Fs) u t = Some t' \<Longrightarrow> set_tree Fs u (fld F t) = Some (fld F t')"
  by (cases t) (auto simp: fld_def update_conv' split: Option.bind_splits)

lemma fld_set_other:
  "set_tree (F # Fs) u t = Some t' \<Longrightarrow> G \<noteq> F \<Longrightarrow> fld G t' = fld G t"
  by (cases t) (auto simp: fld_def update_conv' split: Option.bind_splits)

lemma abs_set_simplified:
  assumes t': "set_tree [''Status'', ''Simplified''] (PtrT (Some (simplified_tree status error))) t = Some t'"
  shows "abs_Composition M t' =
    set_status (\<lambda>s. s\<lparr>Simplified := Some \<lparr>ss_Status = status, ss_Error = error\<rparr>\<rparr>) (abs_Composition M t)"
proof -
  note st = fld_set_same [OF t']
  have "fld ''Simplified'' (fld ''Status'' t') = PtrT (Some (simplified_tree status error))"
    using fld_set_same [OF st] by simp
  moreover have "abs_SimplifiedStatus (simplified_tree status error) = \<lparr>ss_Status = status, ss_Error = error\<rparr>"
    by (simp add: abs_SimplifiedStatus_def simplified_tree_def fld_def)
  ultimately have "abs_CompositionStatus M (fld ''Status'' t') =
      (abs_CompositionStatus M (fld ''Status'' t))\<lparr>Simplified := Some \<lparr>ss_Status = status, ss_Error = error\<rparr>\<rparr>"
    by (simp add: abs_CompositionStatus_def fld_set_other [OF st])
  then show ?thesis
    by (simp add: abs_Composition_def fld_set_other [OF t'] ObjectMeta.extend_def Composition.fields_def)
qed

lemma abs_simplified_eq:
  assumes "has_type X (TPtr ty_SimplifiedStatus) s"
  shows "abs_ptr abs_SimplifiedStatus s = Some n \<longleftrightarrow> s = PtrT (Some (simplified_tree (ss_Status n) (ss_Error n)))"
proof (cases s)
  case (PtrT p)
  show ?thesis
  proof (cases p)
    case (Some t)
    then have "has_type X ty_SimplifiedStatus t" using assms PtrT by simp
    then obtain a b where "t = StructT [(''Status'', PrimT (PString a)), (''Error'', PrimT (PString b))]"
      by (cases t) (auto simp: ty_SimplifiedStatus_def has_type_string simp del: has_type.simps(1) split: list.splits)
    then show ?thesis
      using PtrT Some by (cases n) (auto simp: abs_SimplifiedStatus_def simplified_tree_def fld_def)
  qed (use PtrT in simp)
qed (use assms in auto)

lemma abs_set_resources:
  assumes t': "set_tree [''Status'', ''Resources''] (SliceT (Some (replicate n zero_state_tree))) t = Some t'"
  shows "abs_ResourceSlice M t' =
    (abs_ResourceSlice M t)\<lparr>slice_Status := Some (replicate n zero_ResourceState)\<rparr>"
proof -
  have "fld ''Resources'' (fld ''Status'' t') = SliceT (Some (replicate n zero_state_tree))"
    using fld_set_same [OF fld_set_same [OF t']] by simp
  moreover have "abs_ResourceState M zero_state_tree = zero_ResourceState"
    by (simp add: abs_ResourceState_def zero_state_tree_def zero_ResourceState_def fld_def)
  ultimately show ?thesis
    by (simp add: abs_ResourceSlice_def fld_set_other [OF t'] ObjectMeta.extend_def ResourceSlice.fields_def
      map_replicate)
qed

section \<open>Methods that follow pointers\<close>

text \<open>\<open>InputRevisions.Equal\<close> on the structs, with the pointers to the revisions followed in the store;
  \<open>None\<close> is a nil dereference.\<close>

definition deref :: "heap \<Rightarrow> gval \<Rightarrow> gval option" where
  "deref h p = (case p of Ptr (Some a) \<Rightarrow> load h a | _ \<Rightarrow> None)"

definition InputRevisions_Equal_mem :: "heap \<Rightarrow> gval \<Rightarrow> gval \<Rightarrow> bool option" where
  "InputRevisions_Equal_mem h i b = do {
     ki \<leftarrow> get_field ''Key'' i;
     kb \<leftarrow> get_field ''Key'' b;
     if ki \<noteq> kb then Some False
     else do {
       ri \<leftarrow> get_field ''Revision'' i;
       rb \<leftarrow> get_field ''Revision'' b;
       if is_nil ri \<noteq> is_nil rb then Some False
       else if \<not> is_nil ri then do { x \<leftarrow> deref h ri; y \<leftarrow> deref h rb; Some (x = y) }
       else do {
         vi \<leftarrow> get_field ''ResourceVersion'' i;
         vb \<leftarrow> get_field ''ResourceVersion'' b;
         Some (vi = vb)
       }
     }
   }"

text \<open>The two loops of \<open>InputsOutOfLockstep\<close>. The first one keeps the pointer \<open>maxRevision\<close>, and answers
  with \<open>Some None\<close> when it returns true early. Numbers are compared as signed 64 bit integers.\<close>

definition int_at :: "heap \<Rightarrow> gval \<Rightarrow> 64 word option" where
  "int_at h p = (case deref h p of Some (Prim (PInt n)) \<Rightarrow> Some n | Some (Prim (PInt64 n)) \<Rightarrow> Some n | _ \<Rightarrow> None)"

fun max_revision_mem :: "heap \<Rightarrow> 64 word \<Rightarrow> gval \<Rightarrow> gval list \<Rightarrow> gval option option" where
  "max_revision_mem h gen maxRevision [] = Some (Some maxRevision)"
| "max_revision_mem h gen maxRevision (rv # revs) = do {
     sg \<leftarrow> get_field ''SynthesizerGeneration'' rv;
     stale \<leftarrow> (if is_nil sg then Some False else do { g \<leftarrow> int_at h sg; Some (g <s gen) });
     if stale then Some None
     else do {
       r \<leftarrow> get_field ''Revision'' rv;
       if is_nil r then max_revision_mem h gen maxRevision revs
       else if is_nil maxRevision then max_revision_mem h gen r revs
       else do {
         x \<leftarrow> int_at h r;
         y \<leftarrow> int_at h maxRevision;
         if y <s x then max_revision_mem h gen r revs else max_revision_mem h gen maxRevision revs
       }
     }
   }"

fun revision_differs_mem :: "heap \<Rightarrow> gval \<Rightarrow> gval list \<Rightarrow> bool option" where
  "revision_differs_mem h maxRevision [] = Some False"
| "revision_differs_mem h maxRevision (rv # revs) = do {
     r \<leftarrow> get_field ''Revision'' rv;
     if is_nil r then revision_differs_mem h maxRevision revs
     else do {
       y \<leftarrow> int_at h maxRevision;
       x \<leftarrow> int_at h r;
       if y \<noteq> x then Some True else revision_differs_mem h maxRevision revs
     }
   }"

definition InputsOutOfLockstep_mem :: "heap \<Rightarrow> 64 word \<Rightarrow> gval list \<Rightarrow> bool option" where
  "InputsOutOfLockstep_mem h gen revs = do {
     res \<leftarrow> max_revision_mem h gen (Ptr None) revs;
     (case res of
        None \<Rightarrow> Some True
      | Some maxRevision \<Rightarrow>
          if is_nil maxRevision then Some False else revision_differs_mem h maxRevision revs)
   }"

lemma has_type_int: "has_type X (TPrim GInt) t \<longleftrightarrow> (\<exists>i. t = PrimT (PInt i))"
  unfolding has_type_prim by (auto elim: prim_type.elims)

lemma has_type_int64: "has_type X (TPrim GInt64) t \<longleftrightarrow> (\<exists>i. t = PrimT (PInt64 i))"
  unfolding has_type_prim by (auto elim: prim_type.elims)

lemma has_type_TPtr_iff:
  "has_type X (TPtr T) t \<longleftrightarrow> t = PtrT None \<or> (\<exists>s. t = PtrT (Some s) \<and> has_type X T s)"
  by (cases t) (auto split: option.splits)

text \<open>A pointer to a number stands for an optional integer.\<close>

definition points_to :: "heap \<Rightarrow> gval \<Rightarrow> int option \<Rightarrow> bool" where
  "points_to h p z \<longleftrightarrow>
     (is_nil p \<and> z = None) \<or> (\<exists>n. \<not> is_nil p \<and> int_at h p = Some n \<and> z = Some (sint n))"

lemma points_to_nil: "points_to h p z \<Longrightarrow> is_nil p \<longleftrightarrow> z = None"
  by (auto simp: points_to_def)

lemma points_to_Some: "points_to h p (Some i) \<Longrightarrow> \<exists>n. int_at h p = Some n \<and> i = sint n"
  by (auto simp: points_to_def)

lemma rep_points_to:
  assumes "rep h r p" and "r = PtrT None \<or> (\<exists>n. r = PtrT (Some (PrimT (PInt n))) \<or> r = PtrT (Some (PrimT (PInt64 n))))"
  shows "points_to h p (abs_ptr abs_int r)"
  using assms by (auto simp: points_to_def int_at_def deref_def split: gval.splits option.splits)

lemma input_revisions_value:
  assumes "has_type X ty_InputRevisions t" and "rep h t x"
  obtains k v p q where "x = Struct [(''Key'', Prim (PString k)), (''ResourceVersion'', Prim (PString v)),
      (''Revision'', p), (''SynthesizerGeneration'', q)]"
    and "ir_Key (abs_InputRevisions t) = k" and "ir_ResourceVersion (abs_InputRevisions t) = v"
    and "points_to h p (ir_Revision (abs_InputRevisions t))"
    and "points_to h q (ir_SynthesizerGeneration (abs_InputRevisions t))"
    and "is_nil p \<or> (\<exists>n. deref h p = Some (Prim (PInt n)))"
proof -
  from assms(1) obtain ts where t: "t = StructT ts" and ty: "fields_type X
      [(''Key'', TPrim GString), (''ResourceVersion'', TPrim GString), (''Revision'', TPtr (TPrim GInt)),
       (''SynthesizerGeneration'', TPtr (TPrim GInt64))] ts"
    by (cases t) (auto simp: ty_InputRevisions_def)
  from ty obtain k v r g where ts: "ts = [(''Key'', PrimT (PString k)), (''ResourceVersion'', PrimT (PString v)),
      (''Revision'', r), (''SynthesizerGeneration'', g)]"
    and r: "r = PtrT None \<or> (\<exists>n. r = PtrT (Some (PrimT (PInt n))))"
    and g: "g = PtrT None \<or> (\<exists>n. g = PtrT (Some (PrimT (PInt64 n))))"
    by (auto simp: has_type_string has_type_int has_type_int64 has_type_TPtr_iff simp del: has_type.simps
      split: list.splits)
  from assms(2) t ts obtain p q where x: "x = Struct [(''Key'', Prim (PString k)), (''ResourceVersion'', Prim (PString v)),
      (''Revision'', p), (''SynthesizerGeneration'', q)]" and p: "rep h r p" and q: "rep h g q"
    by (cases x) (auto split: list.splits)
  have a: "abs_InputRevisions t =
      \<lparr>ir_Key = k, ir_ResourceVersion = v, ir_Revision = abs_ptr abs_int r,
       ir_SynthesizerGeneration = abs_ptr abs_int g\<rparr>"
    by (simp add: abs_InputRevisions_def t ts fld_def)
  have "is_nil p \<or> (\<exists>n. deref h p = Some (Prim (PInt n)))"
    using r p by (auto simp: deref_def split: gval.splits option.splits)
  moreover have "points_to h p (abs_ptr abs_int r)" "points_to h q (abs_ptr abs_int g)"
    using rep_points_to [OF p] rep_points_to [OF q] r g by blast+
  ultimately show thesis using that x a by simp
qed

lemma Equal_mem_refines:
  assumes "has_type X ty_InputRevisions s" "rep h s i" and "has_type X ty_InputRevisions t" "rep h t b"
  shows "InputRevisions_Equal_mem h i b =
    Some (InputRevisions_Equal (abs_InputRevisions s) (abs_InputRevisions t))"
proof -
  obtain k v p q where i: "i = Struct [(''Key'', Prim (PString k)), (''ResourceVersion'', Prim (PString v)),
      (''Revision'', p), (''SynthesizerGeneration'', q)]"
    "ir_Key (abs_InputRevisions s) = k" "ir_ResourceVersion (abs_InputRevisions s) = v"
    and p: "points_to h p (ir_Revision (abs_InputRevisions s))" "is_nil p \<or> (\<exists>n. deref h p = Some (Prim (PInt n)))"
    using input_revisions_value [OF assms(1,2)] by metis
  obtain k' v' p' q' where b: "b = Struct [(''Key'', Prim (PString k')), (''ResourceVersion'', Prim (PString v')),
      (''Revision'', p'), (''SynthesizerGeneration'', q')]"
    "ir_Key (abs_InputRevisions t) = k'" "ir_ResourceVersion (abs_InputRevisions t) = v'"
    and p': "points_to h p' (ir_Revision (abs_InputRevisions t))" "is_nil p' \<or> (\<exists>n. deref h p' = Some (Prim (PInt n)))"
    using input_revisions_value [OF assms(3,4)] by metis
  show ?thesis
    using i b p p'
    by (auto simp: InputRevisions_Equal_mem_def InputRevisions_Equal_def points_to_def int_at_def dest: signed_word_eqI)
qed

lemma max_revision_mem_refines:
  assumes "list_all (has_type X ty_InputRevisions) ts" and "rep_list h ts vs" and "points_to h m mo"
  shows "case max_revision (sint gen) mo (map abs_InputRevisions ts) of
      None \<Rightarrow> max_revision_mem h gen m vs = Some None
    | Some z \<Rightarrow> (\<exists>p. max_revision_mem h gen m vs = Some (Some p) \<and> points_to h p z)"
  using assms
proof (induction ts arbitrary: vs m mo)
  case (Cons t ts)
  from Cons.prems obtain v vs' where vs: "vs = v # vs'" and v: "rep h t v" "has_type X ty_InputRevisions t"
    and rest: "rep_list h ts vs'" "list_all (has_type X ty_InputRevisions) ts"
    by (auto split: list.splits)
  obtain k w p q where x: "v = Struct [(''Key'', Prim (PString k)), (''ResourceVersion'', Prim (PString w)),
      (''Revision'', p), (''SynthesizerGeneration'', q)]"
    and p: "points_to h p (ir_Revision (abs_InputRevisions t))"
    and q: "points_to h q (ir_SynthesizerGeneration (abs_InputRevisions t))"
    using input_revisions_value [OF v(2,1)] by metis
  note IH = Cons.IH [OF rest(2,1)]
  have stale: "(if is_nil q then Some False else do { g \<leftarrow> int_at h q; Some (g <s gen) }) =
      Some (case ir_SynthesizerGeneration (abs_InputRevisions t) of None \<Rightarrow> False | Some g \<Rightarrow> g < sint gen)"
    using q by (auto simp: points_to_def word_sless_alt)
  show ?case
    using IH [OF Cons.prems(3)] IH [OF p] p Cons.prems(3) stale
    by (auto simp: vs x points_to_def word_sless_alt split: option.splits)
qed simp

lemma revision_differs_mem_refines:
  assumes "list_all (has_type X ty_InputRevisions) ts" and "rep_list h ts vs" and "points_to h m (Some z)"
  shows "revision_differs_mem h m vs =
    Some (list_ex (\<lambda>rv. case ir_Revision rv of None \<Rightarrow> False | Some r \<Rightarrow> z \<noteq> r) (map abs_InputRevisions ts))"
  using assms
proof (induction ts arbitrary: vs)
  case (Cons t ts)
  from Cons.prems obtain v vs' where vs: "vs = v # vs'" and v: "rep h t v" "has_type X ty_InputRevisions t"
    and rest: "rep_list h ts vs'" "list_all (has_type X ty_InputRevisions) ts"
    by (auto split: list.splits)
  obtain k w p q where x: "v = Struct [(''Key'', Prim (PString k)), (''ResourceVersion'', Prim (PString w)),
      (''Revision'', p), (''SynthesizerGeneration'', q)]"
    and p: "points_to h p (ir_Revision (abs_InputRevisions t))"
    using input_revisions_value [OF v(2,1)] by metis
  show ?case
    using Cons.IH [OF rest(2,1) Cons.prems(3)] p Cons.prems(3)
    by (auto simp: vs x points_to_def dest: signed_word_eqI)
qed simp

lemma InputsOutOfLockstep_mem_refines:
  assumes ty: "list_all (has_type X ty_InputRevisions) ts" and r: "rep_list h ts vs"
    and c: "InputRevs (comp_Status co) = map abs_InputRevisions ts" "Generation synth = sint gen"
  shows "InputsOutOfLockstep_mem h gen vs = Some (InputsOutOfLockstep co synth)"
proof -
  have nil: "points_to h (Ptr None) None" by (simp add: points_to_def)
  note m = max_revision_mem_refines [OF ty r nil, of gen]
  show ?thesis
  proof (cases "max_revision (sint gen) None (map abs_InputRevisions ts)")
    case None
    then show ?thesis using m c by (simp add: InputsOutOfLockstep_mem_def InputsOutOfLockstep_def)
  next
    case (Some z)
    then obtain p where p: "max_revision_mem h gen (Ptr None) vs = Some (Some p)" "points_to h p z"
      using m by auto
    show ?thesis
    proof (cases z)
      case None
      then show ?thesis
        using Some p points_to_nil [OF p(2)] c by (simp add: InputsOutOfLockstep_mem_def InputsOutOfLockstep_def)
    next
      case (Some y)
      then show ?thesis
        using \<open>max_revision (sint gen) None (map abs_InputRevisions ts) = Some z\<close> p points_to_nil [OF p(2)] c
          revision_differs_mem_refines [OF ty r, of p y]
        by (simp add: InputsOutOfLockstep_mem_def InputsOutOfLockstep_def)
    qed
  qed
qed

section \<open>Properties\<close>

text \<open>
  C19. The composition aggregation in memory refines its model on records. On a composition that
  stands for a record it sends nothing exactly when the record has the simplified status that
  \<open>aggregate\<close> computes, and otherwise the copy that is sent stands for the record that the model sends.
  In both cases the composition that was read, which is the base of the merge patch and an object of
  the shared cache, stands for what it did before. The code does not panic.
\<close>
theorem aggregation_refines:
  assumes "\<And>n. deep_copies (X n) (lib_into L n)"
    and "\<And>n. deep_copies (ptr_to (X n)) (lib_copy L n)"
    and "has_type X ty_Composition t" and "rep h (PtrT (Some t)) co"
    and "n = aggregate synth (abs_Composition M t)"
  shows "\<exists>h' y. aggregate_in_memory L h co (ss_Status n) (ss_Error n) = Some (h', y) \<and>
    rep h' (PtrT (Some t)) co \<and>
    (if Simplified (comp_Status (abs_Composition M t)) = Some n then y = None
     else \<exists>c t'. y = Some c \<and> rep h' (PtrT (Some t')) c \<and>
       abs_Composition M t' = set_status (\<lambda>s. s\<lparr>Simplified := Some n\<rparr>) (abs_Composition M t))"
proof -
  obtain h' y st si t' where run: "aggregate_in_memory L h co (ss_Status n) (ss_Error n) = Some (h', y)"
    and f: "tree_field ''Status'' t = Some st" "tree_field ''Simplified'' st = Some si"
    and ty: "has_type X (TPtr ty_SimplifiedStatus) si"
    and t': "set_tree [''Status'', ''Simplified''] (PtrT (Some (simplified_tree (ss_Status n) (ss_Error n)))) t = Some t'"
    and r: "rep h' (PtrT (Some t)) co"
    and y: "if si = PtrT (Some (simplified_tree (ss_Status n) (ss_Error n))) then y = None
      else \<exists>c. y = Some c \<and> rep h' (PtrT (Some t')) c"
    using patch_base_unchanged [OF assms(1-4), of "ss_Status n" "ss_Error n"] by blast
  have "Simplified (comp_Status (abs_Composition M t)) = abs_ptr abs_SimplifiedStatus si"
    by (simp add: abs_Composition_def abs_CompositionStatus_def f fld_def ObjectMeta.extend_def Composition.fields_def)
  then have "Simplified (comp_Status (abs_Composition M t)) = Some n \<longleftrightarrow>
      si = PtrT (Some (simplified_tree (ss_Status n) (ss_Error n)))"
    using abs_simplified_eq [OF ty] by simp
  moreover have "abs_Composition M t' = set_status (\<lambda>s. s\<lparr>Simplified := Some n\<rparr>) (abs_Composition M t)"
    using abs_set_simplified [OF t', of M] by simp
  ultimately show ?thesis using run r y by (metis (no_types, lifting))
qed

definition sample_meta :: meta_abs where
  "sample_meta = \<lparr>abs_ObjectMeta = (\<lambda>t. ObjectMeta.truncate sample_comp), abs_Time = (\<lambda>t. abs_int (fld ''Time'' t))\<rparr>"

definition sample_inner :: tree where
  "sample_inner = (case sample_tree of PtrT (Some t) \<Rightarrow> t | _ \<Rightarrow> sample_tree)"

lemma sample_inner: "sample_tree = PtrT (Some sample_inner)"
  by (simp add: sample_tree_def sample_inner_def)

theorem aggregation_refines_witness:
  "let n = aggregate zero_Synthesizer (abs_Composition sample_meta sample_inner) in
   \<exists>h' c t'. aggregate_in_memory sample_lib sample_heap (Ptr (Some 3)) (ss_Status n) (ss_Error n) = Some (h', Some c) \<and>
    rep h' sample_tree (Ptr (Some 3)) \<and> rep h' (PtrT (Some t')) c \<and>
    Simplified (comp_Status (abs_Composition sample_meta t')) = Some n"
proof -
  let ?n = "aggregate zero_Synthesizer (abs_Composition sample_meta sample_inner)"
  have ty: "has_type sample_shape ty_Composition sample_inner"
    using sample_typed unfolding sample_inner by simp
  have "Simplified (comp_Status (abs_Composition sample_meta sample_inner)) = None"
    by (simp add: abs_Composition_def abs_CompositionStatus_def sample_inner_def sample_tree_def fld_def
      ObjectMeta.extend_def Composition.fields_def)
  then obtain h' c t' where run: "aggregate_in_memory sample_lib sample_heap (Ptr (Some 3)) (ss_Status ?n) (ss_Error ?n) = Some (h', Some c)"
    "rep h' (PtrT (Some sample_inner)) (Ptr (Some 3))" "rep h' (PtrT (Some t')) c"
    and a: "abs_Composition sample_meta t' =
      set_status (\<lambda>s. s\<lparr>Simplified := Some ?n\<rparr>) (abs_Composition sample_meta sample_inner)"
    using aggregation_refines [OF sample.into sample.copy ty sample_rep [unfolded sample_inner] refl,
      of zero_Synthesizer sample_meta] by (metis (no_types, lifting) option.distinct(1))
  have "Simplified (comp_Status (abs_Composition sample_meta t')) = Some ?n" unfolding a by simp
  with run show ?thesis unfolding Let_def sample_inner by blast
qed

text \<open>
  C20. The allocation of a slice's status in the write buffer refines its model on records: the copy
  stands for \<open>preallocated\<close> of the slice, with one zero state per manifest, and the slice in the
  informer cache, which is handed out without a copy, stands for what it did before.
\<close>
theorem preallocation_refines:
  assumes "\<And>n. deep_copies (X n) (lib_into L n)"
    and "\<And>n. deep_copies (ptr_to (X n)) (lib_copy L n)"
    and "has_type X ty_ResourceSlice t" and "rep h (PtrT (Some t)) sl"
  shows "\<exists>h' y t'. preallocate_status L h sl = Some (h', y) \<and>
    rep h' (PtrT (Some t)) sl \<and> rep h' (PtrT (Some t')) y \<and>
    abs_ResourceSlice M t' = preallocated (abs_ResourceSlice M t)"
proof -
  obtain h' y sp rs t' where ok: "preallocate_status L h sl = Some (h', y)"
    "rep h' (PtrT (Some t)) sl" "rep h' (PtrT (Some t')) y"
    and sp: "tree_field ''Spec'' t = Some sp" "tree_field ''Resources'' sp = Some rs"
    and t': "set_tree [''Status'', ''Resources''] (SliceT (Some (replicate (tree_len rs) zero_state_tree))) t = Some t'"
    using cached_slice_unchanged [OF assms] by blast
  have "tree_len rs = length (abs_list abs_Manifest rs)"
    by (cases rs rule: tree_len.cases) (auto simp: abs_list_def split: option.splits)
  then have "tree_len rs = length (Resources (slice_Spec (abs_ResourceSlice M t)))"
    using sp by (simp add: abs_ResourceSlice_def abs_ResourceSliceSpec_def fld_def ObjectMeta.extend_def ResourceSlice.fields_def)
  then have "abs_ResourceSlice M t' = preallocated (abs_ResourceSlice M t)"
    using abs_set_resources [OF t', of M] by (simp add: preallocated_def)
  with ok show ?thesis by blast
qed

theorem preallocation_refines_witness:
  "\<exists>h' y t'. preallocate_status sample_lib sample_slice_heap (Ptr (Some 1)) = Some (h', y) \<and>
    rep h' (PtrT (Some sample_slice_tree)) (Ptr (Some 1)) \<and> rep h' (PtrT (Some t')) y \<and>
    abs_ResourceSlice sample_meta t' = preallocated (abs_ResourceSlice sample_meta sample_slice_tree)"
  by (rule preallocation_refines [OF sample.into sample.copy sample_slice_rep])

text \<open>
  C30. The methods of input revisions that follow pointers compute on memory what their models compute
  on records, and never dereference nil: \<open>InputsOutOfLockstep\<close>, whose running maximum is a pointer into
  the list, and \<open>Equal\<close> on any two elements of the list.
\<close>
theorem pointer_methods_refine:
  assumes ty: "list_all (has_type X ty_InputRevisions) ts" and r: "rep_list h ts vs"
    and c: "InputRevs (comp_Status co) = map abs_InputRevisions ts" "Generation synth = sint gen"
  shows "InputsOutOfLockstep_mem h gen vs = Some (InputsOutOfLockstep co synth) \<and>
    (\<forall>i < length ts. \<forall>j < length ts. InputRevisions_Equal_mem h (vs ! i) (vs ! j) =
       Some (InputRevisions_Equal (abs_InputRevisions (ts ! i)) (abs_InputRevisions (ts ! j))))"
proof (intro conjI allI impI)
  show "InputsOutOfLockstep_mem h gen vs = Some (InputsOutOfLockstep co synth)"
    by (rule InputsOutOfLockstep_mem_refines [OF assms])
  show "InputRevisions_Equal_mem h (vs ! i) (vs ! j) =
      Some (InputRevisions_Equal (abs_InputRevisions (ts ! i)) (abs_InputRevisions (ts ! j)))"
    if "i < length ts" "j < length ts" for i j
    using that ty r by (intro Equal_mem_refines) (auto simp: list_all_length rep_list_nth)
qed

definition sample_revs_heap :: heap where
  "sample_revs_heap = [Cell (Prim (PInt 3)), Cell (Prim (PInt 4))]"

definition sample_rev :: "string \<Rightarrow> addr \<Rightarrow> gval" where
  "sample_rev k a = Struct [(''Key'', Prim (PString k)), (''ResourceVersion'', Prim (PString ''1'')),
     (''Revision'', Ptr (Some a)), (''SynthesizerGeneration'', Ptr None)]"

definition sample_rev_tree :: "string \<Rightarrow> 64 word \<Rightarrow> tree" where
  "sample_rev_tree k n = StructT [(''Key'', PrimT (PString k)), (''ResourceVersion'', PrimT (PString ''1'')),
     (''Revision'', PtrT (Some (PrimT (PInt n)))), (''SynthesizerGeneration'', PtrT None)]"

definition sample_rev_comp :: Composition where
  "sample_rev_comp = set_status (\<lambda>s. s\<lparr>InputRevs := map abs_InputRevisions
     [sample_rev_tree ''a'' 3, sample_rev_tree ''b'' 4]\<rparr>) sample_comp"

theorem pointer_methods_refine_witness:
  "InputsOutOfLockstep_mem sample_revs_heap 0 [sample_rev ''a'' 0, sample_rev ''b'' 1] = Some True \<and>
   InputRevisions_Equal_mem sample_revs_heap (sample_rev ''a'' 0) (sample_rev ''b'' 1) = Some False"
proof -
  let ?ts = "[sample_rev_tree ''a'' 3, sample_rev_tree ''b'' 4]"
  have "list_all (has_type sample_shape ty_InputRevisions) ?ts"
    by (simp add: ty_InputRevisions_def sample_rev_tree_def)
  moreover have "rep_list sample_revs_heap ?ts [sample_rev ''a'' 0, sample_rev ''b'' 1]"
    by (simp add: sample_revs_heap_def sample_rev_def sample_rev_tree_def load_def)
  moreover have "InputRevs (comp_Status sample_rev_comp) = map abs_InputRevisions ?ts"
    by (simp add: sample_rev_comp_def)
  moreover have "Generation zero_Synthesizer = sint (0 :: 64 word)" by (simp add: zero_Synthesizer_def)
  ultimately have m: "InputsOutOfLockstep_mem sample_revs_heap 0 [sample_rev ''a'' 0, sample_rev ''b'' 1] =
      Some (InputsOutOfLockstep sample_rev_comp zero_Synthesizer)"
    "InputRevisions_Equal_mem sample_revs_heap (sample_rev ''a'' 0) (sample_rev ''b'' 1) =
      Some (InputRevisions_Equal (abs_InputRevisions (sample_rev_tree ''a'' 3)) (abs_InputRevisions (sample_rev_tree ''b'' 4)))"
    using pointer_methods_refine [of sample_shape ?ts sample_revs_heap "[sample_rev ''a'' 0, sample_rev ''b'' 1]"
      sample_rev_comp zero_Synthesizer 0] by force+
  have "InputsOutOfLockstep sample_rev_comp zero_Synthesizer"
    by (simp add: InputsOutOfLockstep_def sample_rev_comp_def abs_InputRevisions_def sample_rev_tree_def fld_def
      zero_Synthesizer_def)
  moreover have "\<not> InputRevisions_Equal (abs_InputRevisions (sample_rev_tree ''a'' 3)) (abs_InputRevisions (sample_rev_tree ''b'' 4))"
    by (simp add: InputRevisions_Equal_def abs_InputRevisions_def sample_rev_tree_def fld_def)
  ultimately show ?thesis using m by simp
qed

end
