(* ===== verification/Spec2Isabelle.thy ===== *)
theory Spec2Isabelle
  imports Pipeline Wiring Write_Buffer_Map Slice_Cleanup Reconciliation Discovery Liveness Function_IO
    Memory_Refinement
begin

text \<open>
  \<^bold>\<open>Eno\<close> is a Kubernetes operator in Go. A \<^emph>\<open>composition\<close> names a \<^emph>\<open>synthesizer\<close>; the controller process
  starts a pod that runs the synthesizer on the bound inputs, the executor in the pod writes the
  produced manifests into \<^emph>\<open>resource slices\<close>, and the reconciler process brings the downstream cluster
  to these manifests and reports their state back. A \<^emph>\<open>symphony\<close> is a set of compositions. The parts
  interact only through objects of the API server and their statuses.

  \<^bold>\<open>Modelling conventions.\<close> A handler (\<open>Reconcile\<close> method) is a function of the answers to its reads and
  writes; it returns the requests it sent, in order, and an error or a \<open>ctrl_Result\<close>. Go structs are
  records with the source's fields, nil pointers are \<open>None\<close>, Go maps are association lists or functions
  into \<open>option\<close>, errors are values of the sum type \<open>error + 'a\<close> in which nil dereferences and slices out
  of range have their own constructors. Code of other packages (the Kubernetes API server, client-go's
  retry loop and work queues, JSON, CEL, three-way merges, the red-black tree of the gods package,
  Helm, random numbers, the instability of \<open>sort.Slice\<close>) is an argument; what is assumed of it is the
  locale of its contract or a hypothesis of the property.

  \<^bold>\<open>Theories\<close>, each after the sources it models (under \<open>src/\<close>):

  \<^item> \<open>Eno_Prelude\<close>: times, metadata, Go maps, errors, finalizers; the locales \<open>go_sort\<close> and \<open>go_key_sort\<close> for
    \<open>sort.Slice\<close>, interpreted on Go's insertion sort. \<open>Go_Strconv\<close> and \<open>Go_Flag\<close>: the functions of
    \<open>strconv\<close>, \<open>strings\<close> and \<open>flag\<close>.
    \<open>Api_Types\<close> (\<open>api/v1\<close>): the custom resources and the methods of \<open>composition.go\<close>. \<open>Api_Client\<close>: the
    requests. \<open>Eno_Samples\<close>: the objects on which witnesses run.
  \<^item> \<open>Synthesis_Pod\<close> and \<open>Pod_Contract\<close> (\<open>internal/controllers/synthesis/pod.go\<close>, \<open>internal/manager/indices.go\<close>,
    \<open>internal/execution/handler.go\<close>): the synthesizer pod, its environment and its index; what the pod is
    created with is what the executor reads back.
  \<^item> \<open>Synthesis_Lifecycle\<close> (\<open>synthesis/lifecycle.go\<close>): state swaps, creation and deletion of pods, the
    deletion of compositions; when pods are created and deleted and finalizers released.
  \<^item> \<open>Rollout\<close> (\<open>controllers/rollout\<close>, \<open>controllers/flowcontrol\<close>, \<open>controllers/watchdog\<close>): the scheduling of
    syntheses; order, cooldown, progress, the concurrency limit.
  \<^item> \<open>Slicing\<close> (\<open>internal/resource/slicing.go\<close>), \<open>Slice_Cleanup\<close> (\<open>synthesis/slicecleanup.go\<close>): cutting outputs
    into slices with tombstones for what is gone, and deleting slices; no resource is orphaned.
  \<^item> \<open>Resource\<close> (\<open>internal/resource/resource.go\<close>, \<open>internal/readiness\<close>): resources out of manifests, their
    readiness checks and the delay that is measured of their reconciliation.
  \<^item> \<open>Executor\<close> (\<open>internal/execution/executor.go\<close>): one run of a synthesizer; the locale \<open>client_retry\<close> is
    client-go's retry loop. \<open>Function_IO\<close> (\<open>execution/handler.go\<close>, \<open>pkg/function\<close>, \<open>pkg/helmshim\<close>): the process
    boundary, the library on its other side and the Helm shim.
  \<^item> \<open>Reconstitution\<close> and \<open>Reconstitution_Cache\<close> (\<open>internal/reconstitution\<close>): the cache of resources, refined
    to a map; the locale \<open>gods_tree\<close> is the tree of readiness groups, interpreted on the library's
    red-black trees. \<open>Write_Buffer\<close> and \<open>Write_Buffer_Map\<close> (\<open>internal/flowcontrol/writebuffer.go\<close>): batched
    status updates of one slice, refined to a set of owed updates, and of all slices with the worker's
    loop, which empties the buffer. \<open>Reconciliation\<close> (\<open>controllers/reconciliation/controller.go\<close>): the write of one
    resource, its order and its actions. \<open>Discovery\<close> (\<open>internal/discovery\<close>): which types support strategic
    merge patches.
  \<^item> \<open>Aggregation\<close> (\<open>controllers/aggregation\<close>), \<open>Symphony_Replication\<close> (\<open>controllers/replication\<close>), \<open>Watch\<close>
    (\<open>controllers/watch\<close>), \<open>Liveness\<close> (\<open>controllers/liveness\<close>), \<open>Indices\<close> (\<open>internal/manager\<close>): statuses computed
    from statuses, compositions of symphonies, revisions of inputs, forcibly deleted namespaces, and
    the keys of the informer indices. \<open>Watch_Events\<close> (\<open>watch/kind.go\<close>): the closures that turn events into
    requests, under every interleaving on the error variable they share. \<open>Watch_Runtime\<close> (\<open>watch/kind.go\<close>,
    \<open>watch.go\<close>): the goroutines of the kind watch controllers; the handler on them refines that of \<open>Watch\<close>.
  \<^item> \<open>Manager\<close> (\<open>internal/manager/manager.go\<close>, \<open>options.go\<close>): options, informer caches, field indices, the
    fault-injecting client; the locales \<open>label_selectors\<close>, \<open>informer\<close> and \<open>random_source\<close> are what client-go,
    controller-runtime and \<open>math/rand\<close> document. \<open>Commands\<close> (\<open>cmd/eno-controller\<close>, \<open>cmd/eno-reconciler\<close>,
    \<open>internal/k8s\<close>): the processes from their command lines on; what a process that runs has registered,
    how the pod bootstraps the executor, and what a reconciler sees. \<open>Wiring\<close> (the constructors of all
    controllers): which events wake which controller; the locale \<open>event_sources\<close> is what the event handlers of
    controller-runtime document.
  \<^item> \<open>Status_Machine\<close> and \<open>Cluster\<close>: all controllers together. \<open>status_step\<close> is the abstract specification of a
    composition's status, every handler's status writes refine it, and \<open>cluster_step\<close> interleaves the
    handlers, reading arbitrarily stale versions, with users on an API server given by the locale
    \<open>api_server\<close>. Well-formedness of statuses, the bound on active syntheses and the retention of
    completed syntheses are proved of every reachable state. \<open>Pipeline\<close>: the locale \<open>responsive_server\<close> adds
    that requests are answered; a new composition is taken from its creation through dispatch, pod,
    executor and aggregation to a ready status.
  \<^item> \<open>Go_Memory\<close>: Go values in a store of cells, what a value stands for and what it reaches, and Go types.
    \<open>Deep_Copy\<close>: the statements of generated copy routines, and a rule for each. \<open>Api_Deep_Copy\<close>
    (\<open>zz_generated.deepcopy.go\<close> of \<open>api/v1\<close> and of \<open>pkg/krm/functions/api/v1\<close>, with the struct declarations of
    both packages): every generated routine is a deep copy at its declared type; the locale
    \<open>library_copies\<close> is the contract of the routines of other modules. \<open>Copy_Clients\<close> (\<open>aggregation\<close>,
    \<open>flowcontrol/writebuffer.go\<close>, \<open>krm/functions/api/v1/register.go\<close>): the controllers that change a copy of
    a cached object, in memory; the cached object is as it was. \<open>Memory_Refinement\<close>: abstraction functions
    from objects in memory to the records of \<open>Api_Types\<close>; what the controllers do in memory refines what their
    models do on records.
  \<^item> This theory: properties that span components.

  \<^bold>\<open>Loops and fuel.\<close> Loops over lists are structural recursion. The checks of the namespace controller and
  the lookups of the discovery cache recurse on the number of iterations that the code allows (a flag,
  and two). Repeated runs of the watch controller take fuel; \<open>watch_converges\<close> shows how much is enough.
  Retries end by the contract of \<open>client_retry\<close>. \<open>flag.Parse\<close> terminates by the number of arguments left; the
  loops of the queue processor and of the write buffer recurse on what their queues answer, up to the
  shutdown, and an interleaving is a list that names the component that takes the next step.

  \<^bold>\<open>Limits of the model.\<close> Times are unbounded integers (but the measured delay of a reconciliation saturates),
  rates are rational numbers without rounding, and one handler call reads the clock once. The version
  scanner knows the ASCII spaces only. A status update that the API server accepts is atomic.
  Concurrency inside a process is modelled where the code drops its lock (the write buffer's worker) or
  shares a variable or a goroutine without one (the watch controllers); otherwise handlers are atomic up
  to the staleness of their reads.

  Outside \<open>Go_Memory\<close> and the theories on it, values are immutable and a deep copy is the value itself;
  \<open>Api_Deep_Copy\<close> is the reason.

  \<^bold>\<open>Not modelled.\<close> Test utilities, fixtures and examples; declarations of metrics, log lines
  and the profiling listener; scheme registration. They hold no state of the program and take no part in its decisions.
\<close>

section \<open>Discovery and patches\<close>

text \<open>The reconciliation controller's view of the discovery cache after a history of lookups.\<close>

definition discovery_view :: "disc_client \<Rightarrow> time \<Rightarrow> (time \<times> GroupVersionKind) list \<Rightarrow> GroupVersionKind \<Rightarrow> api_err + bool" where
  "discovery_view cl t reqs gvk =
     (case snd (disc_Get cl t gvk (disc_run cl reqs)) of Inl e \<Rightarrow> Inl e | Inr m \<Rightarrow> Inr (m \<noteq> None))"

lemma buildPatch_strategic:
  assumes "buildPatch cd prev nxt cur = Inr (p, StrategicMergePatchType)"
  shows "DiscoveryGet cd (res_GVK nxt) = Inr True \<and> res_GVK nxt \<noteq> pdbGVK \<and> res_Patch nxt = None"
  using assms by (auto simp: buildPatch_def split: option.splits sum.splits if_splits)

text \<open>
  The reconciliation controller sends a strategic merge patch only for a type for which a document
  that the API server served declares a patch operation that consumes such patches, whatever was looked
  up before, and never for a pod disruption budget or for a resource that is itself a patch.
\<close>
theorem strategic_patch_supported:
  assumes "DiscoveryGet cd = discovery_view cl t reqs"
    and "buildPatch cd prev nxt cur = Inr (p, StrategicMergePatchType)"
  shows "res_GVK nxt \<noteq> pdbGVK \<and> res_Patch nxt = None \<and>
     (\<exists>k doc. OpenAPISchema cl k = Inr doc \<and> res_GVK nxt \<in> set (allSupported (disc_yaml cl) doc))"
proof -
  note bp = buildPatch_strategic [OF assms(2)]
  obtain c' r where g: "disc_Get cl t (res_GVK nxt) (disc_run cl reqs) = (c', r)" by fastforce
  with bp assms(1) obtain model where "r = Inr (Some model)"
    by (auto simp: discovery_view_def split: sum.splits)
  with disc_get_model [of cl t "res_GVK nxt" reqs c' model] g bp show ?thesis by blast
qed

definition strategic_codec :: ra_codec where
  "strategic_codec = sample_ra_codec\<lparr>CreateThreeWayMergePatch := (\<lambda>_ _ _. Some ''p''),
     DiscoveryGet := discovery_view sample_disc 5 []\<rparr>"

theorem strategic_patch_supported_witness:
  "buildPatch strategic_codec None ((grouped_res 0)\<lparr>res_GVK := sample_gvk\<rparr>) (sample_obj ''a'') =
     Inr (''p'', StrategicMergePatchType) \<and>
   (\<exists>k doc. OpenAPISchema sample_disc k = Inr doc \<and> sample_gvk \<in> set (allSupported (disc_yaml sample_disc) doc))"
proof -
  let ?r = "(grouped_res 0)\<lparr>res_GVK := sample_gvk\<rparr>"
  have "discovery_view sample_disc 5 [] sample_gvk = Inr True"
    using sample_get by (simp add: discovery_view_def)
  then have b: "buildPatch strategic_codec None ?r (sample_obj ''a'') = Inr (''p'', StrategicMergePatchType)"
    by (simp add: buildPatch_def strategic_codec_def grouped_res_def Finalize_def sample_ra_codec_def rcodec.extend_def
        sample_rcodec_def codec.extend_def sample_codec_def pdbGVK_def sample_gvk_def)
  have "DiscoveryGet strategic_codec = discovery_view sample_disc 5 []" by (simp add: strategic_codec_def)
  from strategic_patch_supported [OF this b] b show ?thesis by simp
qed

section \<open>Indices and symphonies\<close>

text \<open>
  The index under which the symphony controller lists its compositions holds the name of the
  controlling owner only: a composition controlled by an object of another kind with the name of the
  symphony is listed as well, and deleted because no variation uses its synthesizer.
\<close>

definition foreign_comp :: Composition where
  "foreign_comp = sample_comp\<lparr>comp_Spec := (comp_Spec sample_comp)\<lparr>SynthesizerName := ''other''\<rparr>,
     OwnerReferences := [\<lparr>or_Kind = ''Deployment'', or_Name = ''symph'', or_UID = ''x'', or_Controller = True\<rparr>]\<rparr>"

lemma foreign_composition_deleted:
  "let stored = [foreign_comp];
       symph = sample_symph\<lparr>symph_Status := (symph_Status sample_symph)\<lparr>Synthesizers := [''other'']\<rparr>\<rparr>
   in fst (yr_Reconcile sample_yr_env (sample_yr_client symph (matching indexController (Name symph) stored))
        (key_of sample_symph)) = [DeleteComposition foreign_comp]"
  by (simp add: Let_def matching_def indexController_def GetControllerOf_def foreign_comp_def yr_Reconcile_def stage_def
      syncStatus_def reconcileReverse_def ContainsFinalizer_def insertion_sort_def yr_sample_defs)

section \<open>Slices in the informer cache\<close>

text \<open>
  C38. The slice that the cleanup controller writes back when it releases the finalizer is the one of
  the informer cache, whose manifests the cache has removed: the update erases the manifests of the
  stored slice. (The slice then goes away, unless it has another finalizer or no owner.)
\<close>
theorem released_slice_loses_manifests:
  assumes "sc_get_slice cl req = Inr (slice_transform stored)"
    and "UpdateSlice sl \<in> set (fst (sc_Reconcile t cl req))"
  shows "sl = stored\<lparr>Finalizers := removeAll cleanup_finalizer (Finalizers stored),
    slice_Spec := (slice_Spec stored)\<lparr>Resources :=
      map (\<lambda>m. m\<lparr>manifest := []\<rparr>) (Resources (slice_Spec stored))\<rparr>\<rparr>"
proof -
  from sc_Reconcile_release [OF assms(2)] assms(1)
  have "RemoveFinalizer (slice_transform stored) cleanup_finalizer = (sl, True)" by auto
  then show ?thesis by (auto simp: RemoveFinalizer_def slice_transform_def split: if_splits)
qed

theorem released_slice_loses_manifests_witness:
  "let stored = sample_slice\<lparr>OwnerReferences := [], Finalizers := [cleanup_finalizer, ''other'']\<rparr>;
       sl = stored\<lparr>Finalizers := [''other''], slice_Spec := (slice_Spec stored)\<lparr>Resources := [\<lparr>manifest = [], m_Deleted = False\<rparr>]\<rparr>\<rparr>
   in fst (sc_Reconcile (100 * second) (sample_sc_client (slice_transform stored)) (key_of stored)) = [UpdateSlice sl] \<and>
      map manifest (Resources (slice_Spec stored)) = [''m''] \<and> map manifest (Resources (slice_Spec sl)) = [[]]"
proof -
  let ?stored = "sample_slice\<lparr>OwnerReferences := [], Finalizers := [cleanup_finalizer, ''other'']\<rparr>"
  let ?cl = "sample_sc_client (slice_transform ?stored)"
  have get: "sc_get_slice ?cl (key_of ?stored) = Inr (slice_transform ?stored)"
    by (simp add: sample_sc_client_def)
  have "\<exists>sl. fst (sc_Reconcile (100 * second) ?cl (key_of ?stored)) = [UpdateSlice sl]"
    by (simp add: sc_eval slice_transform_def buildCleanupDecision_def RemoveFinalizer_def delete_decision_def cleanup_finalizer_def)
  then obtain sl where sl: "fst (sc_Reconcile (100 * second) ?cl (key_of ?stored)) = [UpdateSlice sl]" by blast
  then have "UpdateSlice sl \<in> set (fst (sc_Reconcile (100 * second) ?cl (key_of ?stored)))" by simp
  from released_slice_loses_manifests [OF get this] sl show ?thesis
    by (simp add: Let_def sample_slice_def cleanup_finalizer_def)
qed

end
